theory Spec2Isabelle
  imports Complex_Main
begin

section \<open>Numpy arrays and Python errors\<close>

text \<open>
  The development embeds the Information Directed Sampling code of
  \<^verbatim>\<open>src/BernoulliMAB.py\<close> (class \<^verbatim>\<open>BetaBernoulliMAB\<close>).

  One-dimensional numpy arrays of floats are lists of reals, two-dimensional arrays are lists
  of rows. Floating-point arithmetic is modelled by exact real arithmetic: rounding, overflow,
  \<^verbatim>\<open>inf\<close> and \<^verbatim>\<open>nan\<close> are not represented, and a float division by zero
  (a numpy warning, not an exception) takes HOL's value \<open>x / 0 = 0\<close>; \<^verbatim>\<open>np.log\<close> is
  the real logarithm \<open>ln\<close>, whose values outside the positive reals stand for numpy's
  \<^verbatim>\<open>-inf\<close> and \<^verbatim>\<open>nan\<close> (again warnings, not exceptions). Element-wise
  operations on two arrays are written with \<open>map2\<close>; the arrays of one grid state all have
  the grid's length (numpy raises or broadcasts on a shape mismatch, which is outside the model
  of the grid). In \<^verbatim>\<open>computeIDS\<close>, where the two operands take their lengths from different
  arguments, the element-wise operation is \<open>np_broadcast\<close>, with numpy's exception.
  Exceptions of the Python code are values of \<open>py_error\<close>.
\<close>

datatype py_error = ValueError | IndexError | ZeroDivisionError | TypeError

type_synonym vec = "real list"
type_synonym mat = "real list list"

text \<open>\<^verbatim>\<open>xs[i]\<close> for a Python integer index: negative indices count from the end.\<close>

definition py_index :: "'a list \<Rightarrow> int \<Rightarrow> py_error + 'a" where
  "py_index xs i =
     (if 0 \<le> i \<and> i < int (length xs) then Inr (xs ! nat i)
      else if i < 0 \<and> - int (length xs) \<le> i then Inr (xs ! nat (int (length xs) + i))
      else Inl IndexError)"

text \<open>Running a list of fallible computations: the first error wins.\<close>

fun collect :: "(py_error + 'a) list \<Rightarrow> py_error + 'a list" where
  "collect [] = Inr []"
| "collect (Inl e # rs) = Inl e"
| "collect (Inr v # rs) = (case collect rs of Inl e \<Rightarrow> Inl e | Inr vs \<Rightarrow> Inr (v # vs))"

text \<open>\<^verbatim>\<open>np.max\<close> raises \<^verbatim>\<open>ValueError\<close> on an empty array.\<close>

definition np_max :: "'a::linorder list \<Rightarrow> py_error + 'a" where
  "np_max xs = (case xs of [] \<Rightarrow> Inl ValueError | x # ys \<Rightarrow> Inr (fold max ys x))"

text \<open>\<^verbatim>\<open>np.argmax\<close>: the first index holding the maximum.\<close>

definition np_argmax :: "'a::linorder list \<Rightarrow> nat" where
  "np_argmax xs = fold (\<lambda>i best. if xs ! best < xs ! i then i else best) [0..<length xs] 0"

text \<open>\<^verbatim>\<open>np.cumsum\<close> along a row.\<close>

fun cumsum_from :: "real \<Rightarrow> vec \<Rightarrow> vec" where
  "cumsum_from acc [] = []"
| "cumsum_from acc (x # xs) = (acc + x) # cumsum_from (acc + x) xs"

definition cumsum :: "vec \<Rightarrow> vec" where
  "cumsum xs = cumsum_from 0 xs"

text \<open>\<^verbatim>\<open>np.linspace(start, stop, n)\<close>: \<open>n\<close> points, \<open>start + i * step\<close> with
  \<open>step = (stop - start) / (n - 1)\<close>.\<close>

definition linspace :: "real \<Rightarrow> real \<Rightarrow> nat \<Rightarrow> vec" where
  "linspace start stop n =
     map (\<lambda>i. start + real i * ((stop - start) / real (n - 1))) [0..<n]"

section \<open>The posterior grid\<close>

text \<open>\<^verbatim>\<open>fact_list(count)\<close>: the table \<open>0!, 1!, ..., count!\<close>, built by the loop
  \<^verbatim>\<open>l[i+1] = (i+1)*l[i]\<close> on \<^verbatim>\<open>np.ones(int(count)+1)\<close>.\<close>

definition fact_list :: "int \<Rightarrow> py_error + vec" where
  "fact_list count =
     (if count + 1 < 0 then Inl ValueError
      else Inr (fold (\<lambda>i l. l[i + 1 := real (i + 1) * l ! i]) [0..<nat count]
                  (replicate (nat (count + 1)) 1)))"

text \<open>One entry of \<^verbatim>\<open>B = fact[beta_1-1]*fact[beta_2-1]/fact[beta_1+beta_2-1]\<close>.\<close>

definition beta_const :: "vec \<Rightarrow> int \<Rightarrow> int \<Rightarrow> py_error + real" where
  "beta_const fct a b =
     (case py_index fct (a - 1) of Inl e \<Rightarrow> Inl e | Inr u \<Rightarrow>
       (case py_index fct (b - 1) of Inl e \<Rightarrow> Inl e | Inr v \<Rightarrow>
         (case py_index fct (a + b - 1) of Inl e \<Rightarrow> Inl e | Inr w \<Rightarrow> Inr (u * v / w))))"

text \<open>
  \<^verbatim>\<open>init_approx(N, beta_1, beta_2)\<close>, with \<open>K\<close> for \<^verbatim>\<open>self.nb_arms\<close>. The Beta
  parameters are integer arrays (they index the factorial table). With no arm the
  \<^verbatim>\<open>cumsum(axis=1)\<close> of a one-dimensional array raises; \<^verbatim>\<open>1/N\<close> on the Python
  integer \<open>N = 0\<close> raises.
\<close>

definition init_approx ::
  "nat \<Rightarrow> nat \<Rightarrow> int list \<Rightarrow> int list \<Rightarrow> py_error + (vec \<times> mat \<times> mat \<times> mat \<times> vec)" where
  "init_approx K N beta_1 beta_2 =
     (case np_max (map2 (+) beta_1 beta_2) of Inl e \<Rightarrow> Inl e | Inr m \<Rightarrow>
       (case fact_list m of Inl e \<Rightarrow> Inl e | Inr fct \<Rightarrow>
         (case collect (map2 (beta_const fct) beta_1 beta_2) of Inl e \<Rightarrow> Inl e | Inr B \<Rightarrow>
            if N = 0 then Inl ZeroDivisionError
            else if length B < K then Inl IndexError
            else if K = 0 then Inl ValueError
            else
              let X = linspace (1 / real N) 1 N;
                  f = map (\<lambda>i. map (\<lambda>x. x powi (beta_1 ! i - 1) * (1 - x) powi (beta_2 ! i - 1) / B ! i) X)
                        [0..<K];
                  F = map (\<lambda>row. cumsum (map (\<lambda>v. v / real N) row)) f;
                  G = map (\<lambda>row. cumsum (map2 (\<lambda>v x. v * x / real N) row X)) f
              in Inr (X, f, F, G, B))))"

text \<open>
  \<^verbatim>\<open>update_approx(arm, y, beta, X, f, F, G, B)\<close>: \<open>beta\<close> is the pair of the pulled arm's
  parameters before the update. The four assignments run in the source's order: \<open>G[arm]\<close> and
  \<open>F[arm]\<close> read the old \<open>F[arm]\<close> and the old \<open>B[arm]\<close>. Only row \<open>arm\<close> of each array is
  assigned; an arm outside the arrays raises \<^verbatim>\<open>IndexError\<close>.
\<close>

definition update_approx ::
  "nat \<Rightarrow> real \<Rightarrow> int \<times> int \<Rightarrow> vec \<Rightarrow> mat \<Rightarrow> mat \<Rightarrow> mat \<Rightarrow> vec \<Rightarrow> py_error + (mat \<times> mat \<times> mat \<times> vec)" where
  "update_approx arm y beta X f F G B =
     (if arm < length f \<and> arm < length F \<and> arm < length G \<and> arm < length B then
        let b0 = fst beta; b1 = snd beta;
            bsum = real_of_int (b0 + b1);
            adjust = real_of_int b0 * y + real_of_int b1 * (1 - y);
            sign_F_update = (if y = 0 then 1 else - 1);
            f' = f[arm := map2 (\<lambda>x v. (x * y + (1 - x) * (1 - y)) * bsum / adjust * v) X (f ! arm)];
            G' = G[arm := map2 (\<lambda>x v. real_of_int b0 / bsum *
                              (v - x powi b0 * (1 - x) powi b1 / real_of_int b0 / B ! arm)) X (F ! arm)];
            F' = F[arm := map2 (\<lambda>x v. v + sign_F_update * x powi b0 * (1 - x) powi b1 / adjust / B ! arm)
                              X (F ! arm)];
            B' = B[arm := B ! arm * adjust / bsum]
        in Inr (f', F', G', B')
      else Inl IndexError)"

section \<open>The information ratio on the grid\<close>

text \<open>\<^verbatim>\<open>kl(x, y)\<close>: the Kullback-Leibler divergence of two Bernoulli distributions.\<close>

definition kl :: "real \<Rightarrow> real \<Rightarrow> real" where
  "kl x y = x * ln (x / y) + (1 - x) * ln ((1 - x) / (1 - y))"

text \<open>\<^verbatim>\<open>np.inner\<close> of two vectors and \<^verbatim>\<open>np.diag\<close> of a square matrix.\<close>

definition np_inner :: "vec \<Rightarrow> vec \<Rightarrow> real" where
  "np_inner u v = sum_list (map2 (*) u v)"

definition np_diag :: "mat \<Rightarrow> vec" where
  "np_diag m = map (\<lambda>i. m ! i ! i) [0..<length m]"

text \<open>
  The entry \<^verbatim>\<open>prod_F1[a, ap]\<close> after the first loop nest of \<^verbatim>\<open>IR_approx\<close>: the row
  starts as \<^verbatim>\<open>np.ones(N)\<close>, the loop over \<open>app\<close> multiplies \<open>F[app]\<close> in under the guard
  \<^verbatim>\<open>a != app and app != ap\<close>, and the row is then multiplied by \<^verbatim>\<open>f[a]/N\<close>.
\<close>

definition prod_F1 :: "nat \<Rightarrow> nat \<Rightarrow> mat \<Rightarrow> mat \<Rightarrow> nat \<Rightarrow> nat \<Rightarrow> vec" where
  "prod_F1 K N f F a ap =
     map2 (*)
       (fold (\<lambda>app acc. if a \<noteq> app \<and> app \<noteq> ap then map2 (*) acc (F ! app) else acc)
          [0..<K] (replicate N 1))
       (map (\<lambda>v. v / real N) (f ! a))"

text \<open>
  The row \<^verbatim>\<open>sum_log\<close> of the last loop: \<open>row\<close> is \<^verbatim>\<open>maap[arm]\<close>, and \<open>b1\<close>, \<open>b2\<close> are
  the whole parameter arrays, so every operation is element-wise along the row.
\<close>

definition sum_log :: "vec \<Rightarrow> int list \<Rightarrow> int list \<Rightarrow> vec" where
  "sum_log row b1 b2 =
     map2 (\<lambda>m (u, v). m * ln (m * real_of_int (u + v) / real_of_int u)
                       + (1 - m) * ln ((1 - m) * real_of_int (u + v) / real_of_int v))
       row (zip b1 b2)"

text \<open>
  \<^verbatim>\<open>IR_approx(N, b1, b2, X, f, F, G)\<close> returns \<^verbatim>\<open>(delta, g, p_star, maap)\<close>. The second
  loop nest assigns every entry of \<open>p_star\<close> and \<open>maap\<close> once, from \<open>prod_F1\<close> only, so the
  two arrays are written as comprehensions over the arm indices; \<open>maap ! ap ! a\<close> is
  \<^verbatim>\<open>maap[ap, a]\<close>.
\<close>

definition IR_p_star :: "nat \<Rightarrow> nat \<Rightarrow> mat \<Rightarrow> mat \<Rightarrow> vec" where
  "IR_p_star K N f F = map (\<lambda>a. sum_list (prod_F1 K N f F a a)) [0..<K]"

definition IR_maap :: "nat \<Rightarrow> nat \<Rightarrow> vec \<Rightarrow> mat \<Rightarrow> mat \<Rightarrow> mat \<Rightarrow> vec \<Rightarrow> mat" where
  "IR_maap K N X f F G p_star =
     map (\<lambda>ap. map (\<lambda>a.
       if a \<noteq> ap then sum_list (map2 (*) (prod_F1 K N f F a ap) (G ! ap)) / p_star ! a
       else sum_list (map2 (*) (prod_F1 K N f F a a) X) / p_star ! a) [0..<K]) [0..<K]"

definition IR_approx ::
  "nat \<Rightarrow> nat \<Rightarrow> int list \<Rightarrow> int list \<Rightarrow> vec \<Rightarrow> mat \<Rightarrow> mat \<Rightarrow> mat \<Rightarrow> py_error + (vec \<times> vec \<times> vec \<times> mat)" where
  "IR_approx K N b1 b2 X f F G =
     (if length f < K \<or> length F < K \<or> length G < K then Inl IndexError
      else
        let p_star = IR_p_star K N f F;
            maap = IR_maap K N X f F G p_star;
            rho_star = np_inner (np_diag maap) p_star;
            delta = map2 (\<lambda>u v. rho_star - real_of_int u / real_of_int (u + v)) b1 b2;
            g = map (\<lambda>arm. np_inner p_star (sum_log (maap ! arm) b1 b2)) [0..<K]
        in Inr (delta, g, p_star, maap))"

text \<open>
  The information gain as the specification words it: for arm \<open>a\<close>, the sum over \<open>a'\<close> of
  \<open>p_star[a']\<close> times the Bernoulli divergence of \<open>maap[a, a']\<close> from the posterior mean
  \<open>b1[a] / (b1[a] + b2[a])\<close> of arm \<open>a\<close>.
\<close>

definition g_spec :: "nat \<Rightarrow> int list \<Rightarrow> int list \<Rightarrow> vec \<Rightarrow> mat \<Rightarrow> nat \<Rightarrow> real" where
  "g_spec K b1 b2 p_star maap a =
     (\<Sum>a' \<leftarrow> [0..<K]. p_star ! a' *
        kl (maap ! a ! a') (real_of_int (b1 ! a) / real_of_int (b1 ! a + b2 ! a)))"

section \<open>The bandit object and its collaborators\<close>

text \<open>
  The fields of a \<^verbatim>\<open>BetaBernoulliMAB\<close> object that the IDS policies read or write.
  \<^verbatim>\<open>__init__\<close> is the only place of the class that assigns \<open>flag = False\<close>,
  \<open>optimal_arm = None\<close> and \<open>threshold = 0.99\<close>.
\<close>

record mab =
  nb_arms :: nat
  flag :: bool
  optimal_arm :: "nat option"
  threshold :: real

definition BetaBernoulliMAB :: "nat \<Rightarrow> mab" where
  "BetaBernoulliMAB K = \<lparr>nb_arms = K, flag = False, optimal_arm = None, threshold = 99 / 100\<rparr>"

text \<open>
  Modelled from the spec: the base class \<^verbatim>\<open>GenericMAB\<close> with \<^verbatim>\<open>init_lists\<close>,
  \<^verbatim>\<open>update_lists\<close>, \<^verbatim>\<open>IDSAction\<close> and \<^verbatim>\<open>rd_argmax\<close> is not among the
  sources. The random outcomes (the reward drawn for a pull, the tie-breaking selectors, the
  draws of \<^verbatim>\<open>np.random.beta\<close>) are the fields of an environment, indexed by the round so
  that two calls may answer differently.
\<close>

record env =
  sample_reward :: "nat \<Rightarrow> nat \<Rightarrow> real"
  IDSAction :: "nat \<Rightarrow> vec \<Rightarrow> vec \<Rightarrow> nat"
  rd_argmax :: "nat \<Rightarrow> vec \<Rightarrow> nat"
  random_beta :: "nat \<Rightarrow> nat \<Rightarrow> real \<Rightarrow> real \<Rightarrow> nat \<Rightarrow> real"

text \<open>
  The state of one run: the object, the Beta parameters and the four arrays of
  \<^verbatim>\<open>init_lists\<close>. \<open>est_calls\<close> is not a variable of the program: it counts the calls of
  the information-ratio estimator (\<^verbatim>\<open>IR_approx\<close> or \<^verbatim>\<open>computeIDS\<close>) made so far.
\<close>

record 'b run_state =
  self :: mab
  beta1 :: "'b list"
  beta2 :: "'b list"
  Sa :: vec
  Na :: "nat list"
  reward :: vec
  arm_sequence :: "nat list"
  est_calls :: nat

text \<open>
  Modelled from the spec: \<^verbatim>\<open>init_lists(T)\<close> returns zero-initialised arrays (successes and
  pulls per arm, rewards and chosen arms per round); \<^verbatim>\<open>update_lists\<close> records the pull of
  \<open>arm\<close> at round \<open>t\<close>, draws and stores its reward, increments \<open>Na[arm]\<close> and adds the reward
  to \<open>Sa[arm]\<close>.
\<close>

definition init_lists :: "nat \<Rightarrow> nat \<Rightarrow> vec \<times> nat list \<times> vec \<times> nat list" where
  "init_lists K T = (replicate K 0, replicate K 0, replicate T 0, replicate T 0)"

definition update_lists ::
  "env \<Rightarrow> nat \<Rightarrow> nat \<Rightarrow> ('b, 'z) run_state_scheme \<Rightarrow> py_error + ('b, 'z) run_state_scheme" where
  "update_lists e t arm s =
     (if arm < length (Sa s) \<and> arm < length (Na s) \<and> t < length (reward s)
         \<and> t < length (arm_sequence s) then
        let r = sample_reward e t arm
        in Inr (s\<lparr>Sa := (Sa s)[arm := Sa s ! arm + r],
                  Na := (Na s)[arm := Na s ! arm + 1],
                  reward := (reward s)[t := r],
                  arm_sequence := (arm_sequence s)[t := arm]\<rparr>)
      else Inl IndexError)"

text \<open>The rounds \<^verbatim>\<open>for t in range(T)\<close> of a policy; an exception ends the run.\<close>

fun run_rounds :: "(nat \<Rightarrow> 's \<Rightarrow> py_error + 's) \<Rightarrow> nat list \<Rightarrow> 's \<Rightarrow> py_error + 's" where
  "run_rounds step [] s = Inr s"
| "run_rounds step (t # ts) s =
     (case step t s of Inl err \<Rightarrow> Inl err | Inr s' \<Rightarrow> run_rounds step ts s')"

text \<open>Storing a float into an integer array truncates towards zero.\<close>

definition py_trunc :: "real \<Rightarrow> int" where
  "py_trunc x = (if 0 \<le> x then \<lfloor>x\<rfloor> else \<lceil>x\<rceil>)"

section \<open>IDS with the grid approximation\<close>

record approx_state = "int run_state" +
  st_X :: vec
  st_f :: mat
  st_F :: mat
  st_G :: mat
  st_B :: vec
  st_p_star :: vec

text \<open>
  The choice of the arm at the head of a round of \<^verbatim>\<open>IDS_approx\<close>. A pull of
  \<open>optimal_arm = None\<close> cannot be stored in the arm sequence (\<^verbatim>\<open>TypeError\<close>).
\<close>

definition IDS_approx_choose :: "env \<Rightarrow> nat \<Rightarrow> nat \<Rightarrow> approx_state \<Rightarrow> py_error + (nat \<times> approx_state)" where
  "IDS_approx_choose e N_steps t s =
     (if \<not> flag (self s) then
        (case np_max (st_p_star s) of Inl err \<Rightarrow> Inl err | Inr m \<Rightarrow>
           if m > threshold (self s) then
             let a = np_argmax (st_p_star s)
             in Inr (a, s\<lparr>self := (self s)\<lparr>flag := True, optimal_arm := Some a\<rparr>\<rparr>)
           else
             (case IR_approx (nb_arms (self s)) N_steps (beta1 s) (beta2 s)
                     (st_X s) (st_f s) (st_F s) (st_G s) of
                Inl err \<Rightarrow> Inl err
              | Inr (delta, g, p_star, maap) \<Rightarrow>
                  Inr (IDSAction e t delta g,
                       s\<lparr>st_p_star := p_star, est_calls := est_calls s + 1\<rparr>)))
      else
        (case optimal_arm (self s) of None \<Rightarrow> Inl TypeError | Some a \<Rightarrow> Inr (a, s)))"

text \<open>One round of \<^verbatim>\<open>IDS_approx\<close> (with \<^verbatim>\<open>display_results = False\<close>).\<close>

definition IDS_approx_round :: "env \<Rightarrow> nat \<Rightarrow> nat \<Rightarrow> approx_state \<Rightarrow> py_error + approx_state" where
  "IDS_approx_round e N_steps t s =
     (case IDS_approx_choose e N_steps t s of Inl err \<Rightarrow> Inl err | Inr (arm, s1) \<Rightarrow>
       (case update_lists e t arm s1 of Inl err \<Rightarrow> Inl err | Inr s2 \<Rightarrow>
          if arm < length (beta1 s2) \<and> arm < length (beta2 s2) then
            let r = reward s2 ! t;
                prev_beta = (beta1 s2 ! arm, beta2 s2 ! arm);
                s3 = s2\<lparr>beta1 := (beta1 s2)[arm := py_trunc (real_of_int (beta1 s2 ! arm) + r)],
                        beta2 := (beta2 s2)[arm := py_trunc (real_of_int (beta2 s2 ! arm) + (1 - r))]\<rparr>
            in (case update_approx arm r prev_beta (st_X s3) (st_f s3) (st_F s3) (st_G s3) (st_B s3) of
                  Inl err \<Rightarrow> Inl err
                | Inr (f', F', G', B') \<Rightarrow> Inr (s3\<lparr>st_f := f', st_F := F', st_G := G', st_B := B'\<rparr>))
          else Inl IndexError))"

text \<open>
  The state of \<^verbatim>\<open>IDS_approx\<close> before its first round, on the object \<open>obj\<close> as the caller
  hands it over.
\<close>

definition IDS_approx_init ::
  "mab \<Rightarrow> nat \<Rightarrow> nat \<Rightarrow> int list \<Rightarrow> int list \<Rightarrow> py_error + approx_state" where
  "IDS_approx_init obj T N_steps prior1 prior2 =
     (case init_lists (nb_arms obj) T of (Sa0, Na0, reward0, arm_sequence0) \<Rightarrow>
       (case init_approx (nb_arms obj) N_steps prior1 prior2 of Inl err \<Rightarrow> Inl err
        | Inr (X, f, F, G, B) \<Rightarrow>
            Inr \<lparr>self = obj, beta1 = prior1, beta2 = prior2, Sa = Sa0, Na = Na0,
                 reward = reward0, arm_sequence = arm_sequence0, est_calls = 0,
                 st_X = X, st_f = f, st_F = F, st_G = G, st_B = B,
                 st_p_star = replicate (nb_arms obj) 0\<rparr>))"

text \<open>
  \<^verbatim>\<open>IDS_approx(T, N_steps, beta1, beta2)\<close>: the final state of the run. The Python function
  returns its fields \<open>reward\<close> and \<open>arm_sequence\<close>; the field \<open>self\<close> is the object as the
  run leaves it.
\<close>

definition IDS_approx ::
  "env \<Rightarrow> mab \<Rightarrow> nat \<Rightarrow> nat \<Rightarrow> int list \<Rightarrow> int list \<Rightarrow> py_error + approx_state" where
  "IDS_approx e obj T N_steps prior1 prior2 =
     (case IDS_approx_init obj T N_steps prior1 prior2 of Inl err \<Rightarrow> Inl err
      | Inr s0 \<Rightarrow> run_rounds (IDS_approx_round e N_steps) [0..<T] s0)"

section \<open>IDS with posterior samples\<close>

text \<open>\<^verbatim>\<open>np.mean\<close> of a row of \<open>thetas\<close>, under the convention for float division above.\<close>

definition np_mean :: "vec \<Rightarrow> real" where
  "np_mean xs = sum_list xs / real (length xs)"

text \<open>
  \<^verbatim>\<open>np.nan_to_num(np.mean(t))\<close>. Here the code itself reacts to \<^verbatim>\<open>nan\<close>, so the mean
  of the selection \<open>t\<close> is modelled with it: \<open>None\<close> stands for \<^verbatim>\<open>nan\<close>, the mean of an
  empty array (numpy warns and does not raise), which \<^verbatim>\<open>nan_to_num\<close> replaces by \<open>0\<close>; the
  mean of a non-empty array of posterior draws is a number and is left as it is.
\<close>

definition np_mean_nan :: "vec \<Rightarrow> real option" where
  "np_mean_nan xs = (if xs = [] then None else Some (sum_list xs / real (length xs)))"

definition nan_to_num :: "real option \<Rightarrow> real" where
  "nan_to_num m = (case m of None \<Rightarrow> 0 | Some x \<Rightarrow> x)"

definition nan_to_num_mean :: "vec \<Rightarrow> real" where
  "nan_to_num_mean xs = nan_to_num (np_mean_nan xs)"

text \<open>
  An element-wise operation on two one-dimensional arrays: numpy stretches an array of one
  entry to the length of the other, and raises \<^verbatim>\<open>ValueError\<close> when the lengths differ
  otherwise.
\<close>

definition np_broadcast :: "(real \<Rightarrow> real \<Rightarrow> real) \<Rightarrow> vec \<Rightarrow> vec \<Rightarrow> py_error + vec" where
  "np_broadcast h xs ys =
     (if length xs = length ys then Inr (map2 h xs ys)
      else if length xs = 1 then Inr (map (h (xs ! 0)) ys)
      else if length ys = 1 then Inr (map (\<lambda>x. h x (ys ! 0)) xs)
      else Inl ValueError)"

text \<open>
  \<^verbatim>\<open>theta_hat = np.argmax(thetas, axis=0)\<close>: for every draw index the arm with the largest
  draw. \<^verbatim>\<open>np.where(theta_hat == a)\<close> lists the draw indices won by \<open>a\<close>, and
  \<^verbatim>\<open>t = thetas[ap, np.where(theta_hat == a)]\<close> holds the draws of arm \<open>ap\<close> at these
  indices (\<open>t.shape[1]\<close> is their number).
\<close>

definition theta_hat :: "mat \<Rightarrow> nat list" where
  "theta_hat thetas = map (\<lambda>j. np_argmax (map (\<lambda>row. row ! j) thetas)) [0..<length (thetas ! 0)]"

definition np_where_eq :: "nat list \<Rightarrow> nat \<Rightarrow> nat list" where
  "np_where_eq th a = filter (\<lambda>j. th ! j = a) [0..<length th]"

definition draws_where :: "mat \<Rightarrow> nat \<Rightarrow> nat \<Rightarrow> vec" where
  "draws_where thetas ap a = map (\<lambda>j. thetas ! ap ! j) (np_where_eq (theta_hat thetas) a)"

text \<open>
  The double loop of \<^verbatim>\<open>computeIDS\<close>, assigning \<^verbatim>\<open>Maap[ap, a]\<close> and \<^verbatim>\<open>p_a[a]\<close> in
  place; the pair is the caller's two arrays.
\<close>

definition computeIDS_loop :: "nat \<Rightarrow> nat \<Rightarrow> mat \<Rightarrow> mat \<times> vec \<Rightarrow> mat \<times> vec" where
  "computeIDS_loop K M thetas =
     fold (\<lambda>a. fold (\<lambda>ap (Maap, p_a).
             let t = draws_where thetas ap a;
                 Maap' = Maap[ap := (Maap ! ap)[a := nan_to_num_mean t]]
             in (Maap', if ap = a then p_a[a := real (length t) / real M] else p_a))
           [0..<K])
       [0..<K]"

text \<open>
  What a call of \<^verbatim>\<open>computeIDS\<close> leaves behind: the returned arm, the arrays \<open>p_a\<close> and
  \<open>Maap\<close> after their mutation, the object, and the local variables \<open>delta\<close> and \<open>g\<close>
  (or \<open>v\<close> in the variance mode), which exist only if the branch computing them ran.
\<close>

record ids_result =
  res_arm :: nat
  res_p_a :: vec
  res_Maap :: mat
  res_self :: mab
  res_ratio :: "(vec \<times> vec) option"

text \<open>
  The exceptions of the double loop of \<^verbatim>\<open>computeIDS\<close>, in the order the code meets
  them: the mean along axis 1 of an array without rows; in the first iteration the assignment
  to \<^verbatim>\<open>Maap[0, 0]\<close>, then the division \<^verbatim>\<open>t.shape[1]/M\<close> of two Python integers; later
  an index outside an array.
\<close>

definition computeIDS_raises :: "nat \<Rightarrow> mat \<Rightarrow> vec \<Rightarrow> mat \<Rightarrow> nat \<Rightarrow> py_error option" where
  "computeIDS_raises K Maap p_a thetas M =
     (if thetas = [] then Some ValueError
      else if K = 0 then None
      else if Maap = [] \<or> Maap ! 0 = [] then Some IndexError
      else if M = 0 then Some ZeroDivisionError
      else if length thetas < K \<or> length p_a < K \<or> length Maap < K
              \<or> \<not> list_all (\<lambda>ap. K \<le> length (Maap ! ap)) [0..<K] then Some IndexError
      else None)"

text \<open>
  \<^verbatim>\<open>computeIDS(Maap, p_a, thetas, M, VIDS)\<close>. After the loop \<^verbatim>\<open>np.max\<close> raises on an
  empty \<open>p_a\<close>. \<open>mu\<close> and \<open>delta\<close> have one entry per row of \<open>thetas\<close>, \<open>v\<close> and \<open>g\<close> one
  per arm: in the variance mode \<^verbatim>\<open>-delta ** 2 / v\<close> raises \<^verbatim>\<open>ValueError\<close> when the two
  lengths cannot be broadcast; otherwise \<open>delta\<close> and \<open>g\<close> are handed to \<open>IDSAction\<close>.
\<close>

definition computeIDS ::
  "env \<Rightarrow> nat \<Rightarrow> mab \<Rightarrow> mat \<Rightarrow> vec \<Rightarrow> mat \<Rightarrow> nat \<Rightarrow> bool \<Rightarrow> py_error + ids_result" where
  "computeIDS e t obj Maap p_a thetas M VIDS =
     (case computeIDS_raises (nb_arms obj) Maap p_a thetas M of Some err \<Rightarrow> Inl err | None \<Rightarrow>
        let K = nb_arms obj;
            mu = map np_mean thetas;
            (Maap', p_a') = computeIDS_loop K M thetas (Maap, p_a)
        in (case np_max p_a' of Inl err \<Rightarrow> Inl err | Inr m \<Rightarrow>
              if m \<ge> threshold obj then
                let a = np_argmax p_a'
                in Inr \<lparr>res_arm = a, res_p_a = p_a', res_Maap = Maap',
                        res_self = obj\<lparr>optimal_arm := Some a\<rparr>, res_ratio = None\<rparr>
              else
                let rho_star = (\<Sum>a \<leftarrow> [0..<K]. p_a' ! a * Maap' ! a ! a);
                    delta = map (\<lambda>m. rho_star - m) mu
                in if VIDS then
                     let v = map (\<lambda>a. \<Sum>ap \<leftarrow> [0..<K]. p_a' ! ap * (Maap' ! a ! ap - mu ! a)\<^sup>2) [0..<K]
                     in (case np_broadcast (\<lambda>d w. - d\<^sup>2 / w) delta v of Inl err \<Rightarrow> Inl err
                         | Inr q \<Rightarrow>
                             Inr \<lparr>res_arm = rd_argmax e t q,
                                  res_p_a = p_a', res_Maap = Maap', res_self = obj,
                                  res_ratio = Some (delta, v)\<rparr>)
                   else
                     let g = map (\<lambda>a. \<Sum>ap \<leftarrow> [0..<K]. p_a' ! ap *
                                   (Maap' ! a ! ap * ln (Maap' ! a ! ap / mu ! a + 1 / 10 ^ 10) +
                                    (1 - Maap' ! a ! ap) *
                                      ln ((1 - Maap' ! a ! ap) / (1 - mu ! a) + 1 / 10 ^ 10)))
                               [0..<K]
                     in Inr \<lparr>res_arm = IDSAction e t delta g,
                             res_p_a = p_a', res_Maap = Maap', res_self = obj,
                             res_ratio = Some (delta, g)\<rparr>))"

record sample_state = "real run_state" +
  st_Maap :: mat
  st_p_a :: vec
  st_thetas :: mat

text \<open>The \<open>M\<close> draws \<^verbatim>\<open>np.random.beta(a, b, M)\<close> of the \<open>c\<close>-th sampling step for an arm.\<close>

definition beta_draws :: "env \<Rightarrow> nat \<Rightarrow> nat \<Rightarrow> real \<Rightarrow> real \<Rightarrow> nat \<Rightarrow> vec" where
  "beta_draws e c arm a b M = map (random_beta e c arm a b) [0..<M]"

text \<open>
  The choice of the arm at the head of a round of \<^verbatim>\<open>IDS_sample\<close> and \<^verbatim>\<open>VIDS_sample\<close>
  (the two loops differ only in the \<open>VIDS\<close> argument of \<^verbatim>\<open>computeIDS\<close>). The caller
  passes its own arrays \<open>Maap\<close> and \<open>p_a\<close> and \<open>computeIDS\<close> writes into them, so after the call
  the state holds the arrays of the result; likewise for the object.
\<close>

definition sample_choose ::
  "env \<Rightarrow> nat \<Rightarrow> bool \<Rightarrow> nat \<Rightarrow> sample_state \<Rightarrow> py_error + (nat \<times> sample_state)" where
  "sample_choose e M VIDS t s =
     (if \<not> flag (self s) then
        (case np_max (st_p_a s) of Inl err \<Rightarrow> Inl err | Inr m \<Rightarrow>
           if m \<ge> threshold (self s) then
             (case optimal_arm (self s) of None \<Rightarrow> Inl TypeError
              | Some a \<Rightarrow> Inr (a, s\<lparr>self := (self s)\<lparr>flag := True\<rparr>\<rparr>))
           else
             (case computeIDS e t (self s) (st_Maap s) (st_p_a s) (st_thetas s) M VIDS of
                Inl err \<Rightarrow> Inl err
              | Inr r \<Rightarrow>
                  Inr (res_arm r,
                       s\<lparr>self := res_self r, st_Maap := res_Maap r, st_p_a := res_p_a r,
                         est_calls := est_calls s + 1\<rparr>)))
      else
        (case optimal_arm (self s) of None \<Rightarrow> Inl TypeError | Some a \<Rightarrow> Inr (a, s)))"

definition sample_round ::
  "env \<Rightarrow> nat \<Rightarrow> bool \<Rightarrow> nat \<Rightarrow> sample_state \<Rightarrow> py_error + sample_state" where
  "sample_round e M VIDS t s =
     (case sample_choose e M VIDS t s of Inl err \<Rightarrow> Inl err | Inr (arm, s1) \<Rightarrow>
       (case update_lists e t arm s1 of Inl err \<Rightarrow> Inl err | Inr s2 \<Rightarrow>
          if arm < length (beta1 s2) \<and> arm < length (beta2 s2) \<and> arm < length (st_thetas s2) then
            let r = reward s2 ! t;
                b1 = beta1 s2 ! arm + r;
                b2 = beta2 s2 ! arm + (1 - r)
            in Inr (s2\<lparr>beta1 := (beta1 s2)[arm := b1], beta2 := (beta2 s2)[arm := b2],
                       st_thetas := (st_thetas s2)[arm := beta_draws e (Suc t) arm b1 b2 M]\<rparr>)
          else Inl IndexError))"

definition sample_init :: "env \<Rightarrow> mab \<Rightarrow> nat \<Rightarrow> nat \<Rightarrow> sample_state" where
  "sample_init e obj T M =
     (case init_lists (nb_arms obj) T of (Sa0, Na0, reward0, arm_sequence0) \<Rightarrow>
        \<lparr>self = obj, beta1 = replicate (nb_arms obj) 1, beta2 = replicate (nb_arms obj) 1,
         Sa = Sa0, Na = Na0, reward = replicate T 0, arm_sequence = replicate T 0, est_calls = 0,
         st_Maap = replicate (nb_arms obj) (replicate (nb_arms obj) 0),
         st_p_a = replicate (nb_arms obj) 0,
         st_thetas = map (\<lambda>arm. beta_draws e 0 arm 1 1 M) [0..<nb_arms obj]\<rparr>)"

text \<open>
  \<^verbatim>\<open>IDS_sample(T, M)\<close> and \<^verbatim>\<open>VIDS_sample(T, M, VIDS)\<close>: the final state of the run, as
  for \<open>IDS_approx\<close>.
\<close>

definition IDS_sample :: "env \<Rightarrow> mab \<Rightarrow> nat \<Rightarrow> nat \<Rightarrow> py_error + sample_state" where
  "IDS_sample e obj T M = run_rounds (sample_round e M False) [0..<T] (sample_init e obj T M)"

definition VIDS_sample :: "env \<Rightarrow> mab \<Rightarrow> nat \<Rightarrow> nat \<Rightarrow> bool \<Rightarrow> py_error + sample_state" where
  "VIDS_sample e obj T M VIDS = run_rounds (sample_round e M VIDS) [0..<T] (sample_init e obj T M)"

section \<open>Closed forms used in the proofs\<close>

text \<open>The Beta function at integer arguments, as the ratio of factorials the table yields, and
  the density row of \<open>Beta(a, b)\<close> on the grid of \<open>N\<close> points.\<close>

definition Beta_fact :: "int \<Rightarrow> int \<Rightarrow> real" where
  "Beta_fact a b = fact (nat (a - 1)) * fact (nat (b - 1)) / fact (nat (a + b - 1))"

definition grid_f_row :: "nat \<Rightarrow> int \<Rightarrow> int \<Rightarrow> vec" where
  "grid_f_row N a b =
     map (\<lambda>x. x powi (a - 1) * (1 - x) powi (b - 1) / Beta_fact a b) (linspace (1 / real N) 1 N)"

text \<open>
  The invariant of the double loop of \<open>computeIDS\<close>: the arrays keep their shapes, and inside
  the first \<open>K\<close> rows and columns an entry holds its new value once the loop has passed it and
  its old value before.
\<close>

definition loop_inv ::
  "nat \<Rightarrow> mat \<Rightarrow> vec \<Rightarrow> (nat \<Rightarrow> nat \<Rightarrow> bool) \<Rightarrow> (nat \<Rightarrow> bool) \<Rightarrow> (nat \<Rightarrow> nat \<Rightarrow> real) \<Rightarrow> (nat \<Rightarrow> real)
     \<Rightarrow> mat \<times> vec \<Rightarrow> bool" where
  "loop_inv K Maap0 p_a0 done_M done_p v c st =
     (case st of (Maap, p_a) \<Rightarrow>
        length Maap = length Maap0 \<and> (\<forall>i. length (Maap ! i) = length (Maap0 ! i))
      \<and> length p_a = length p_a0
      \<and> (\<forall>i j. i < K \<and> j < K \<longrightarrow> Maap ! i ! j = (if done_M i j then v i j else Maap0 ! i ! j))
      \<and> (\<forall>j. j < K \<longrightarrow> p_a ! j = (if done_p j then c j else p_a0 ! j)))"

section \<open>Statements of the specification\<close>

text \<open>
  Two arrays agree within the relative tolerance \<open>tol\<close> at every point.
\<close>

definition rel_close :: "real \<Rightarrow> vec \<Rightarrow> vec \<Rightarrow> bool" where
  "rel_close tol u v = list_all2 (\<lambda>a b. \<bar>a - b\<bar> \<le> tol * \<bar>b\<bar>) u v"

text \<open>
  The incremental-update equivalence as the specification states it: after
  \<open>update_approx\<close> for reward \<open>y\<close> on \<open>arm\<close>, the arrays \<open>f\<close>, \<open>F\<close>, \<open>G\<close>, \<open>B\<close> agree within
  \<open>tol\<close> with those of \<open>init_approx\<close> at the updated parameters.
\<close>

definition update_matches_init ::
  "real \<Rightarrow> nat \<Rightarrow> nat \<Rightarrow> int list \<Rightarrow> int list \<Rightarrow> nat \<Rightarrow> int \<Rightarrow> bool" where
  "update_matches_init tol K N b1 b2 arm y =
     (case init_approx K N b1 b2 of Inl _ \<Rightarrow> False | Inr (X, f, F, G, B) \<Rightarrow>
       (case update_approx arm (real_of_int y) (b1 ! arm, b2 ! arm) X f F G B of Inl _ \<Rightarrow> False
        | Inr (f', F', G', B') \<Rightarrow>
          (case init_approx K N (b1[arm := b1 ! arm + y]) (b2[arm := b2 ! arm + 1 - y]) of
             Inl _ \<Rightarrow> False
           | Inr (X0, f0, F0, G0, B0) \<Rightarrow>
               list_all2 (rel_close tol) f' f0 \<and> list_all2 (rel_close tol) F' F0 \<and>
               list_all2 (rel_close tol) G' G0 \<and> rel_close tol B' B0)))"

text \<open>
  The array \<^verbatim>\<open>X**p * (1-X)**q\<close>, and proportionality of one array to another. The
  correction of \<open>F\<close> is what \<open>update_approx\<close> adds to \<open>F[arm]\<close>; the correction of \<open>G\<close> is
  what it subtracts from \<open>F[arm]\<close> inside the bracket that the factor
  \<^verbatim>\<open>beta[0]/beta.sum()\<close> multiplies.
\<close>

definition boundary_profile :: "vec \<Rightarrow> int \<Rightarrow> int \<Rightarrow> vec" where
  "boundary_profile X p q = map (\<lambda>x. x powi p * (1 - x) powi q) X"

definition proportional_to :: "vec \<Rightarrow> vec \<Rightarrow> bool" where
  "proportional_to u w = (\<exists>c. u = map (\<lambda>x. c * x) w)"

definition F_correction :: "nat \<Rightarrow> real \<Rightarrow> int \<times> int \<Rightarrow> vec \<Rightarrow> mat \<Rightarrow> mat \<Rightarrow> mat \<Rightarrow> vec \<Rightarrow> vec" where
  "F_correction arm y beta X f F G B =
     (case update_approx arm y beta X f F G B of Inl _ \<Rightarrow> []
      | Inr (f', F', G', B') \<Rightarrow> map2 (-) (F' ! arm) (F ! arm))"

definition G_correction :: "nat \<Rightarrow> real \<Rightarrow> int \<times> int \<Rightarrow> vec \<Rightarrow> mat \<Rightarrow> mat \<Rightarrow> mat \<Rightarrow> vec \<Rightarrow> vec" where
  "G_correction arm y beta X f F G B =
     (case update_approx arm y beta X f F G B of Inl _ \<Rightarrow> []
      | Inr (f', F', G', B') \<Rightarrow>
          map2 (\<lambda>v g. v - g * real_of_int (fst beta + snd beta) / real_of_int (fst beta))
            (F ! arm) (G' ! arm))"

section \<open>Example runs\<close>

text \<open>
  Two environments. In both a pull of arm 1 pays reward 1 and a pull of any other arm pays 0,
  and the posterior draws of arm 0 are \<open>1/2\<close> at the first 99 draw indices and \<open>1/8\<close> later, those
  of every other arm \<open>1/4\<close>. The selectors always answer arm 1 in \<open>env_one\<close> and arm 0 in
  \<open>env_zero\<close>.
\<close>

definition env_one :: env where
  "env_one = \<lparr>sample_reward = (\<lambda>t arm. if arm = 1 then 1 else 0),
              IDSAction = (\<lambda>t delta g. 1),
              rd_argmax = (\<lambda>t v. 1),
              random_beta = (\<lambda>c arm a b j. if arm = 0 then (if j < 99 then 1 / 2 else 1 / 8) else 1 / 4)\<rparr>"

definition env_zero :: env where
  "env_zero = \<lparr>sample_reward = (\<lambda>t arm. if arm = 1 then 1 else 0),
               IDSAction = (\<lambda>t delta g. 0),
               rd_argmax = (\<lambda>t v. 0),
               random_beta = (\<lambda>c arm a b j. if arm = 0 then (if j < 99 then 1 / 2 else 1 / 8) else 1 / 4)\<rparr>"

text \<open>
  The states of \<open>IDS_approx\<close> for two arms, four rounds, two grid points and uniform priors in
  \<open>env_one\<close>: before the first round and after each round.
\<close>

definition exA0 :: approx_state where
  "exA0 = \<lparr>self = \<lparr>nb_arms = 2, flag = False, optimal_arm = None, threshold = 99 / 100\<rparr>,
           beta1 = [1, 1], beta2 = [1, 1], Sa = [0, 0], Na = [0, 0],
           reward = [0, 0, 0, 0], arm_sequence = [0, 0, 0, 0], est_calls = 0,
           st_X = [1 / 2, 1], st_f = [[1, 1], [1, 1]], st_F = [[1 / 2, 1], [1 / 2, 1]],
           st_G = [[1 / 4, 3 / 4], [1 / 4, 3 / 4]], st_B = [1, 1], st_p_star = [0, 0]\<rparr>"

definition exA1 :: approx_state where
  "exA1 = \<lparr>self = \<lparr>nb_arms = 2, flag = False, optimal_arm = None, threshold = 99 / 100\<rparr>,
           beta1 = [1, 2], beta2 = [1, 1], Sa = [0, 1], Na = [0, 1],
           reward = [1, 0, 0, 0], arm_sequence = [1, 0, 0, 0], est_calls = 1,
           st_X = [1 / 2, 1], st_f = [[1, 1], [1, 2]], st_F = [[1 / 2, 1], [1 / 4, 1]],
           st_G = [[1 / 4, 3 / 4], [1 / 8, 1 / 2]], st_B = [1, 1 / 2], st_p_star = [3 / 4, 3 / 4]\<rparr>"

definition exA2 :: approx_state where
  "exA2 = \<lparr>self = \<lparr>nb_arms = 2, flag = False, optimal_arm = None, threshold = 99 / 100\<rparr>,
           beta1 = [1, 3], beta2 = [1, 1], Sa = [0, 2], Na = [0, 2],
           reward = [1, 1, 0, 0], arm_sequence = [1, 1, 0, 0], est_calls = 2,
           st_X = [1 / 2, 1], st_f = [[1, 1], [3 / 4, 3]], st_F = [[1 / 2, 1], [1 / 8, 1]],
           st_G = [[1 / 4, 3 / 4], [1 / 12, 2 / 3]], st_B = [1, 1 / 3], st_p_star = [5 / 8, 5 / 4]\<rparr>"

definition exA3 :: approx_state where
  "exA3 = \<lparr>self = \<lparr>nb_arms = 2, flag = True, optimal_arm = Some 1, threshold = 99 / 100\<rparr>,
           beta1 = [1, 4], beta2 = [1, 1], Sa = [0, 3], Na = [0, 3],
           reward = [1, 1, 1, 0], arm_sequence = [1, 1, 1, 0], est_calls = 2,
           st_X = [1 / 2, 1], st_f = [[1, 1], [1 / 2, 4]], st_F = [[1 / 2, 1], [1 / 16, 1]],
           st_G = [[1 / 4, 3 / 4], [3 / 64, 3 / 4]], st_B = [1, 1 / 4], st_p_star = [5 / 8, 5 / 4]\<rparr>"

definition exA4 :: approx_state where
  "exA4 = \<lparr>self = \<lparr>nb_arms = 2, flag = True, optimal_arm = Some 1, threshold = 99 / 100\<rparr>,
           beta1 = [1, 5], beta2 = [1, 1], Sa = [0, 4], Na = [0, 4],
           reward = [1, 1, 1, 1], arm_sequence = [1, 1, 1, 1], est_calls = 2,
           st_X = [1 / 2, 1], st_f = [[1, 1], [5 / 16, 5]], st_F = [[1 / 2, 1], [1 / 32, 1]],
           st_G = [[1 / 4, 3 / 4], [1 / 40, 4 / 5]], st_B = [1, 1 / 5], st_p_star = [5 / 8, 5 / 4]\<rparr>"

text \<open>
  Two runs of one round in \<open>env_zero\<close>: \<open>exB0\<close>, \<open>exB1\<close> on the object that the run above
  leaves behind, \<open>exC0\<close>, \<open>exC1\<close> on a new object.
\<close>

definition exB0 :: approx_state where
  "exB0 = \<lparr>self = \<lparr>nb_arms = 2, flag = True, optimal_arm = Some 1, threshold = 99 / 100\<rparr>,
           beta1 = [1, 1], beta2 = [1, 1], Sa = [0, 0], Na = [0, 0],
           reward = [0], arm_sequence = [0], est_calls = 0,
           st_X = [1 / 2, 1], st_f = [[1, 1], [1, 1]], st_F = [[1 / 2, 1], [1 / 2, 1]],
           st_G = [[1 / 4, 3 / 4], [1 / 4, 3 / 4]], st_B = [1, 1], st_p_star = [0, 0]\<rparr>"

definition exB1 :: approx_state where
  "exB1 = \<lparr>self = \<lparr>nb_arms = 2, flag = True, optimal_arm = Some 1, threshold = 99 / 100\<rparr>,
           beta1 = [1, 2], beta2 = [1, 1], Sa = [0, 1], Na = [0, 1],
           reward = [1], arm_sequence = [1], est_calls = 0,
           st_X = [1 / 2, 1], st_f = [[1, 1], [1, 2]], st_F = [[1 / 2, 1], [1 / 4, 1]],
           st_G = [[1 / 4, 3 / 4], [1 / 8, 1 / 2]], st_B = [1, 1 / 2], st_p_star = [0, 0]\<rparr>"

definition exC0 :: approx_state where
  "exC0 = \<lparr>self = \<lparr>nb_arms = 2, flag = False, optimal_arm = None, threshold = 99 / 100\<rparr>,
           beta1 = [1, 1], beta2 = [1, 1], Sa = [0, 0], Na = [0, 0],
           reward = [0], arm_sequence = [0], est_calls = 0,
           st_X = [1 / 2, 1], st_f = [[1, 1], [1, 1]], st_F = [[1 / 2, 1], [1 / 2, 1]],
           st_G = [[1 / 4, 3 / 4], [1 / 4, 3 / 4]], st_B = [1, 1], st_p_star = [0, 0]\<rparr>"

definition exC1 :: approx_state where
  "exC1 = \<lparr>self = \<lparr>nb_arms = 2, flag = False, optimal_arm = None, threshold = 99 / 100\<rparr>,
           beta1 = [1, 1], beta2 = [2, 1], Sa = [0, 0], Na = [1, 0],
           reward = [0], arm_sequence = [0], est_calls = 1,
           st_X = [1 / 2, 1], st_f = [[1, 0], [1, 1]], st_F = [[3 / 4, 1], [1 / 2, 1]],
           st_G = [[1 / 8, 1 / 2], [1 / 4, 3 / 4]], st_B = [1 / 2, 1], st_p_star = [3 / 4, 3 / 4]\<rparr>"

text \<open>
  The states of \<open>IDS_sample\<close> for two arms, three rounds and \<open>M = 100\<close> draws in \<open>env_one\<close>:
  arm 0 wins the first 99 draw indices and arm 1 the last one.
\<close>

definition exS0 :: sample_state where
  "exS0 = \<lparr>self = \<lparr>nb_arms = 2, flag = False, optimal_arm = None, threshold = 99 / 100\<rparr>,
           beta1 = [1, 1], beta2 = [1, 1], Sa = [0, 0], Na = [0, 0],
           reward = [0, 0, 0], arm_sequence = [0, 0, 0], est_calls = 0,
           st_Maap = [[0, 0], [0, 0]], st_p_a = [0, 0],
           st_thetas = [beta_draws env_one 0 0 1 1 100, beta_draws env_one 0 1 1 1 100]\<rparr>"

definition exS1 :: sample_state where
  "exS1 = \<lparr>self = \<lparr>nb_arms = 2, flag = False, optimal_arm = Some 0, threshold = 99 / 100\<rparr>,
           beta1 = [1, 1], beta2 = [2, 1], Sa = [0, 0], Na = [1, 0],
           reward = [0, 0, 0], arm_sequence = [0, 0, 0], est_calls = 1,
           st_Maap = [[1 / 2, 1 / 8], [1 / 4, 1 / 4]], st_p_a = [99 / 100, 1 / 100],
           st_thetas = [beta_draws env_one 1 0 1 2 100, beta_draws env_one 0 1 1 1 100]\<rparr>"

definition exS2 :: sample_state where
  "exS2 = \<lparr>self = \<lparr>nb_arms = 2, flag = True, optimal_arm = Some 0, threshold = 99 / 100\<rparr>,
           beta1 = [1, 1], beta2 = [3, 1], Sa = [0, 0], Na = [2, 0],
           reward = [0, 0, 0], arm_sequence = [0, 0, 0], est_calls = 1,
           st_Maap = [[1 / 2, 1 / 8], [1 / 4, 1 / 4]], st_p_a = [99 / 100, 1 / 100],
           st_thetas = [beta_draws env_one 2 0 1 3 100, beta_draws env_one 0 1 1 1 100]\<rparr>"

definition exS3 :: sample_state where
  "exS3 = \<lparr>self = \<lparr>nb_arms = 2, flag = True, optimal_arm = Some 0, threshold = 99 / 100\<rparr>,
           beta1 = [1, 1], beta2 = [4, 1], Sa = [0, 0], Na = [3, 0],
           reward = [0, 0, 0], arm_sequence = [0, 0, 0], est_calls = 1,
           st_Maap = [[1 / 2, 1 / 8], [1 / 4, 1 / 4]], st_p_a = [99 / 100, 1 / 100],
           st_thetas = [beta_draws env_one 3 0 1 4 100, beta_draws env_one 0 1 1 1 100]\<rparr>"

text \<open>What the call of \<open>computeIDS\<close> in the first of these rounds leaves behind.\<close>

definition exR :: ids_result where
  "exR = \<lparr>res_arm = 0, res_p_a = [99 / 100, 1 / 100], res_Maap = [[1 / 2, 1 / 8], [1 / 4, 1 / 4]],
          res_self = \<lparr>nb_arms = 2, flag = False, optimal_arm = Some 0, threshold = 99 / 100\<rparr>,
          res_ratio = None\<rparr>"

section \<open>Properties of the array operations and of the grid initialisation\<close>

lemma cumsum_from_length [simp]: "length (cumsum_from acc xs) = length xs"
  by (induction xs arbitrary: acc) auto

lemma cumsum_from_nth:
  "i < length xs \<Longrightarrow> cumsum_from acc xs ! i = acc + sum_list (take (Suc i) xs)"
proof (induction xs arbitrary: acc i)
  case Nil
  then show ?case by simp
next
  case (Cons x xs)
  then show ?case by (cases i) (auto simp: algebra_simps)
qed

lemma cumsum_length [simp]: "length (cumsum xs) = length xs"
  by (simp add: cumsum_def)

lemma cumsum_nth: "i < length xs \<Longrightarrow> cumsum xs ! i = sum_list (take (Suc i) xs)"
  by (simp add: cumsum_def cumsum_from_nth)

lemma linspace_length [simp]: "length (linspace a b n) = n"
  by (simp add: linspace_def)

lemma linspace_grid_nth:
  assumes "i < N"
  shows "linspace (1 / real N) 1 N ! i = real (Suc i) / real N"
proof (cases "N = 1")
  case True
  with assms show ?thesis by (simp add: linspace_def)
next
  case False
  with assms have N: "2 \<le> N" by simp
  then have "real (N - 1) = real N - 1" by (simp add: of_nat_diff)
  moreover have "real N - 1 \<noteq> 0" "real N \<noteq> 0" using N by auto
  ultimately show ?thesis using assms
    by (simp add: linspace_def field_simps)
qed

lemma fold_max_Max: "fold max ys (x::'a::linorder) = Max (insert x (set ys))"
  using Max.set_eq_fold[of x ys] by simp

lemma np_max_Inr: "xs \<noteq> [] \<Longrightarrow> np_max xs = Inr (Max (set xs))"
  by (cases xs) (simp_all add: np_max_def fold_max_Max)

lemma np_max_Inl: "np_max [] = Inl ValueError"
  by (simp add: np_max_def)

lemma np_max_InrD: "np_max xs = Inr m \<Longrightarrow> xs \<noteq> [] \<and> m = Max (set xs)"
  by (cases xs) (auto simp: np_max_def fold_max_Max)

lemma fact_loop_aux:
  "n \<le> m \<Longrightarrow>
   (let l = fold (\<lambda>i l. l[i + 1 := real (i + 1) * l ! i]) [0..<n] (replicate (Suc m) 1)
    in length l = Suc m \<and> (\<forall>k\<le>n. l ! k = fact k) \<and> (\<forall>k. n < k \<and> k \<le> m \<longrightarrow> l ! k = 1))"
proof (induction n)
  case 0
  then show ?case by (auto simp: Let_def)
next
  case (Suc n)
  then have IH: "length (fold (\<lambda>i l. l[i + 1 := real (i + 1) * l ! i]) [0..<n] (replicate (Suc m) 1)) = Suc m"
    "\<forall>k\<le>n. fold (\<lambda>i l. l[i + 1 := real (i + 1) * l ! i]) [0..<n] (replicate (Suc m) 1) ! k = fact k"
    "\<forall>k. n < k \<and> k \<le> m \<longrightarrow> fold (\<lambda>i l. l[i + 1 := real (i + 1) * l ! i]) [0..<n] (replicate (Suc m) 1) ! k = 1"
    by (simp_all add: Let_def)
  show ?case using Suc.prems IH
    by (auto simp: Let_def nth_list_update le_Suc_eq)
qed

lemma fact_list_correct:
  assumes "0 \<le> c"
  shows "\<exists>l. fact_list c = Inr l \<and> length l = Suc (nat c) \<and> (\<forall>k\<le>nat c. l ! k = fact k)"
proof -
  have "nat (c + 1) = Suc (nat c)" using assms by simp
  then show ?thesis
    using fact_loop_aux[of "nat c" "nat c"] assms by (simp add: fact_list_def Let_def)
qed


lemma collect_map_Inr:
  "(\<And>z. z \<in> set zs \<Longrightarrow> g z = Inr (h z)) \<Longrightarrow> collect (map g zs) = Inr (map h zs)"
  by (induction zs) auto

lemma beta_const_Inr:
  assumes "1 \<le> a" "1 \<le> b" "a + b \<le> m" "length fct = Suc (nat m)" "\<forall>k\<le>nat m. fct ! k = fact k"
  shows "beta_const fct a b = Inr (Beta_fact a b)"
proof -
  have "py_index fct (a - 1) = Inr (fact (nat (a - 1)))"
    using assms by (auto simp: py_index_def)
  moreover have "py_index fct (b - 1) = Inr (fact (nat (b - 1)))"
    using assms by (auto simp: py_index_def)
  moreover have "py_index fct (a + b - 1) = Inr (fact (nat (a + b - 1)))"
    using assms by (auto simp: py_index_def)
  ultimately show ?thesis by (simp add: beta_const_def Beta_fact_def)
qed

lemma init_approx_Inr:
  assumes K: "0 < K" "K \<le> length b1" "K \<le> length b2" and N: "0 < N"
    and pos: "\<forall>a \<in> set b1. 1 \<le> a" "\<forall>b \<in> set b2. 1 \<le> b"
  shows "init_approx K N b1 b2 =
     Inr (linspace (1 / real N) 1 N,
          map (\<lambda>i. grid_f_row N (b1 ! i) (b2 ! i)) [0..<K],
          map (\<lambda>i. cumsum (map (\<lambda>v. v / real N) (grid_f_row N (b1 ! i) (b2 ! i)))) [0..<K],
          map (\<lambda>i. cumsum (map2 (\<lambda>v x. v * x / real N) (grid_f_row N (b1 ! i) (b2 ! i))
                               (linspace (1 / real N) 1 N))) [0..<K],
          map2 Beta_fact b1 b2)"
proof -
  let ?zs = "zip b1 b2"
  let ?sums = "map2 (+) b1 b2"
  define m where "m = Max (set ?sums)"
  have ne: "?sums \<noteq> []" using K by (cases b1; cases b2) auto
  then have mx: "np_max ?sums = Inr m" unfolding m_def by (rule np_max_Inr)
  have le: "a + b \<le> m" if "(a, b) \<in> set ?zs" for a b
  proof -
    have "a + b \<in> set ?sums" using that by force
    then show ?thesis unfolding m_def by simp
  qed
  have ab: "1 \<le> a \<and> 1 \<le> b" if "(a, b) \<in> set ?zs" for a b
    using that pos by (auto dest: set_zip_leftD set_zip_rightD)
  obtain a0 b0 where "(a0, b0) \<in> set ?zs" using ne by (cases ?zs) auto
  then have "0 \<le> m" using le[of a0 b0] ab[of a0 b0] by linarith
  then obtain fct where fct: "fact_list m = Inr fct" "length fct = Suc (nat m)"
      "\<forall>k\<le>nat m. fct ! k = fact k"
    using fact_list_correct by blast
  have bc: "beta_const fct a b = Inr (Beta_fact a b)" if "(a, b) \<in> set ?zs" for a b
    using beta_const_Inr[of a b m fct] le[OF that] ab[OF that] fct(2,3) by blast
  have "collect (map (\<lambda>(a, b). beta_const fct a b) ?zs) = Inr (map (\<lambda>(a, b). Beta_fact a b) ?zs)"
    by (rule collect_map_Inr) (use bc in auto)
  then have B: "collect (map2 (beta_const fct) b1 b2) = Inr (map2 Beta_fact b1 b2)" by simp
  have nth: "map2 Beta_fact b1 b2 ! i = Beta_fact (b1 ! i) (b2 ! i)" if "i < K" for i
    using that K by simp
  have lenB: "\<not> length (map2 Beta_fact b1 b2) < K" using K by simp
  have "init_approx K N b1 b2 =
      (let X = linspace (1 / real N) 1 N;
           f = map (\<lambda>i. map (\<lambda>x. x powi (b1 ! i - 1) * (1 - x) powi (b2 ! i - 1)
                       / map2 Beta_fact b1 b2 ! i) X) [0..<K];
           F = map (\<lambda>row. cumsum (map (\<lambda>v. v / real N) row)) f;
           G = map (\<lambda>row. cumsum (map2 (\<lambda>v x. v * x / real N) row X)) f
       in Inr (X, f, F, G, map2 Beta_fact b1 b2))"
    using K N lenB by (simp add: init_approx_def mx fct(1) B)
  also have "\<dots> = Inr (linspace (1 / real N) 1 N,
          map (\<lambda>i. grid_f_row N (b1 ! i) (b2 ! i)) [0..<K],
          map (\<lambda>i. cumsum (map (\<lambda>v. v / real N) (grid_f_row N (b1 ! i) (b2 ! i)))) [0..<K],
          map (\<lambda>i. cumsum (map2 (\<lambda>v x. v * x / real N) (grid_f_row N (b1 ! i) (b2 ! i))
                               (linspace (1 / real N) 1 N))) [0..<K],
          map2 Beta_fact b1 b2)"
    using nth by (simp add: Let_def grid_f_row_def o_def cong: map_cong)
  finally show ?thesis .
qed

section \<open>Properties of the incremental update\<close>

lemma Beta_fact_pos: "0 < Beta_fact a b"
  by (simp add: Beta_fact_def)

lemma Beta_fact_step1:
  assumes "1 \<le> a" "1 \<le> b"
  shows "Beta_fact (a + 1) b = Beta_fact a b * real_of_int a / real_of_int (a + b)"
proof -
  have 1: "nat (a + 1 - 1) = Suc (nat (a - 1))" using assms by simp
  have 2: "nat (a + 1 + b - 1) = Suc (nat (a + b - 1))" using assms by simp
  have 3: "real (Suc (nat (a - 1))) = real_of_int a" using assms by simp
  have 4: "real (Suc (nat (a + b - 1))) = real_of_int (a + b)" using assms by simp
  show ?thesis
    unfolding Beta_fact_def 1 2 fact_Suc of_nat_mult 3 4 using assms by (simp add: field_simps)
qed

lemma Beta_fact_step2:
  assumes "1 \<le> a" "1 \<le> b"
  shows "Beta_fact a (b + 1) = Beta_fact a b * real_of_int b / real_of_int (a + b)"
proof -
  have 1: "nat (b + 1 - 1) = Suc (nat (b - 1))" using assms by simp
  have 2: "nat (a + (b + 1) - 1) = Suc (nat (a + b - 1))" using assms by simp
  have 3: "real (Suc (nat (b - 1))) = real_of_int b" using assms by simp
  have 4: "real (Suc (nat (a + b - 1))) = real_of_int (a + b)" using assms by simp
  show ?thesis
    unfolding Beta_fact_def 1 2 fact_Suc of_nat_mult 3 4 using assms by (simp add: field_simps)
qed

lemma powi_step: "1 \<le> a \<Longrightarrow> (x::real) powi a = x * x powi (a - 1)"
proof -
  assume "1 \<le> a"
  then have "nat a = Suc (nat (a - 1))" "0 \<le> a" "0 \<le> a - 1" by simp_all
  then show ?thesis by (simp add: power_int_def)
qed

lemma grid_f_row_length [simp]: "length (grid_f_row N a b) = N"
  by (simp add: grid_f_row_def)

lemma f_update_point:
  assumes "1 \<le> a" "1 \<le> b" "y = 0 \<or> y = 1"
  shows "(x * real_of_int y + (1 - x) * (1 - real_of_int y)) * real_of_int (a + b)
          / (real_of_int a * real_of_int y + real_of_int b * (1 - real_of_int y))
          * (x powi (a - 1) * (1 - x) powi (b - 1) / Beta_fact a b)
        = x powi (a + y - 1) * (1 - x) powi (b + 1 - y - 1) / Beta_fact (a + y) (b + 1 - y)"
proof -
  define P where "P = x powi (a - 1)"
  define Q where "Q = (1 - x) powi (b - 1)"
  define B where "B = Beta_fact a b"
  have B: "0 < B" unfolding B_def by (rule Beta_fact_pos)
  have ra: "0 < real_of_int a" and rb: "0 < real_of_int b" using assms by simp_all
  from assms(3) show ?thesis
  proof
    assume y: "y = 0"
    have 1: "(1 - x) powi (b + 1 - 0 - 1) = (1 - x) * Q"
      using powi_step[of b "1 - x"] assms by (simp add: Q_def)
    have 2: "Beta_fact (a + 0) (b + 1 - 0) = B * real_of_int b / (real_of_int a + real_of_int b)"
      using Beta_fact_step2[of a b] assms by (simp add: B_def)
    have "(1 - x) * (real_of_int a + real_of_int b) / real_of_int b * (P * Q / B)
        = P * ((1 - x) * Q) / (B * real_of_int b / (real_of_int a + real_of_int b))"
      using B ra rb by (simp add: field_simps)
    then show ?thesis unfolding y 1 2 by (simp add: P_def Q_def B_def)
  next
    assume y: "y = 1"
    have 1: "x powi (a + 1 - 1) = x * P"
      using powi_step[of a x] assms by (simp add: P_def)
    have 2: "Beta_fact (a + 1) (b + 1 - 1) = B * real_of_int a / (real_of_int a + real_of_int b)"
      using Beta_fact_step1[of a b] assms by (simp add: B_def)
    have "x * (real_of_int a + real_of_int b) / real_of_int a * (P * Q / B)
        = x * P * Q / (B * real_of_int a / (real_of_int a + real_of_int b))"
      using B ra rb by (simp add: field_simps)
    then show ?thesis unfolding y 1 2 by (simp add: P_def Q_def B_def)
  qed
qed

lemma f_update_row:
  assumes "1 \<le> a" "1 \<le> b" "y = 0 \<or> y = 1"
  shows "map2 (\<lambda>x v. (x * real_of_int y + (1 - x) * (1 - real_of_int y)) * real_of_int (a + b)
                    / (real_of_int a * real_of_int y + real_of_int b * (1 - real_of_int y)) * v)
           (linspace (1 / real N) 1 N) (grid_f_row N a b)
         = grid_f_row N (a + y) (b + 1 - y)"
proof (rule nth_equalityI)
  show "length (map2 (\<lambda>x v. (x * real_of_int y + (1 - x) * (1 - real_of_int y)) * real_of_int (a + b)
                    / (real_of_int a * real_of_int y + real_of_int b * (1 - real_of_int y)) * v)
           (linspace (1 / real N) 1 N) (grid_f_row N a b)) = length (grid_f_row N (a + y) (b + 1 - y))"
    by simp
next
  fix i
  assume "i < length (map2 (\<lambda>x v. (x * real_of_int y + (1 - x) * (1 - real_of_int y)) * real_of_int (a + b)
                    / (real_of_int a * real_of_int y + real_of_int b * (1 - real_of_int y)) * v)
           (linspace (1 / real N) 1 N) (grid_f_row N a b))"
  then have i: "i < N" by simp
  define x where "x = linspace (1 / real N) 1 N ! i"
  have l: "grid_f_row N a b ! i = x powi (a - 1) * (1 - x) powi (b - 1) / Beta_fact a b"
    and r: "grid_f_row N (a + y) (b + 1 - y) ! i
            = x powi (a + y - 1) * (1 - x) powi (b + 1 - y - 1) / Beta_fact (a + y) (b + 1 - y)"
    using i by (simp_all add: grid_f_row_def x_def)
  have "map2 (\<lambda>x v. (x * real_of_int y + (1 - x) * (1 - real_of_int y)) * real_of_int (a + b)
                    / (real_of_int a * real_of_int y + real_of_int b * (1 - real_of_int y)) * v)
           (linspace (1 / real N) 1 N) (grid_f_row N a b) ! i
        = (x * real_of_int y + (1 - x) * (1 - real_of_int y)) * real_of_int (a + b)
          / (real_of_int a * real_of_int y + real_of_int b * (1 - real_of_int y))
          * grid_f_row N a b ! i"
    using i by (simp add: x_def)
  also have "\<dots> = grid_f_row N (a + y) (b + 1 - y) ! i"
    unfolding l r by (rule f_update_point[OF assms])
  finally show "map2 (\<lambda>x v. (x * real_of_int y + (1 - x) * (1 - real_of_int y)) * real_of_int (a + b)
                    / (real_of_int a * real_of_int y + real_of_int b * (1 - real_of_int y)) * v)
           (linspace (1 / real N) 1 N) (grid_f_row N a b) ! i = grid_f_row N (a + y) (b + 1 - y) ! i" .
qed

lemma B_update:
  assumes "1 \<le> a" "1 \<le> b" "y = 0 \<or> y = 1"
  shows "Beta_fact a b * (real_of_int a * real_of_int y + real_of_int b * (1 - real_of_int y))
           / real_of_int (a + b) = Beta_fact (a + y) (b + 1 - y)"
  using assms Beta_fact_step1[of a b] Beta_fact_step2[of a b] by auto


lemma update_approx_Inr:
  assumes "arm < length f" "arm < length F" "arm < length G" "arm < length B"
  shows "update_approx arm y (a, b) X f F G B =
     Inr (f[arm := map2 (\<lambda>x v. (x * y + (1 - x) * (1 - y)) * real_of_int (a + b)
                                   / (real_of_int a * y + real_of_int b * (1 - y)) * v) X (f ! arm)],
          F[arm := map2 (\<lambda>x v. v + (if y = 0 then 1 else - 1) * x powi a * (1 - x) powi b
                                   / (real_of_int a * y + real_of_int b * (1 - y)) / B ! arm) X (F ! arm)],
          G[arm := map2 (\<lambda>x v. real_of_int a / real_of_int (a + b) *
                              (v - x powi a * (1 - x) powi b / real_of_int a / B ! arm)) X (F ! arm)],
          B[arm := B ! arm * (real_of_int a * y + real_of_int b * (1 - y)) / real_of_int (a + b)])"
  unfolding update_approx_def Let_def fst_conv snd_conv
  by (simp only: assms simp_thms if_True)

lemma update_approx_frame:
  assumes "update_approx arm y beta X f F G B = Inr (f', F', G', B')" "j \<noteq> arm"
  shows "f' ! j = f ! j \<and> F' ! j = F ! j \<and> G' ! j = G ! j \<and> B' ! j = B ! j"
  using assms by (auto simp: update_approx_def Let_def split: if_splits)

lemma update_approx_lengths:
  assumes "update_approx arm y beta X f F G B = Inr (f', F', G', B')"
  shows "length f' = length f \<and> length F' = length F \<and> length G' = length G \<and> length B' = length B
         \<and> arm < length f \<and> arm < length F \<and> arm < length G \<and> arm < length B"
  using assms by (auto simp: update_approx_def Let_def split: if_splits)

lemma f_rows_update:
  assumes "arm < K" "length b1 = K" "length b2 = K" "1 \<le> b1 ! arm" "1 \<le> b2 ! arm" "y = 0 \<or> y = 1"
  shows "(map (\<lambda>i. grid_f_row N (b1 ! i) (b2 ! i)) [0..<K])
           [arm := map2 (\<lambda>x v. (x * real_of_int y + (1 - x) * (1 - real_of_int y))
                              * real_of_int (b1 ! arm + b2 ! arm)
                              / (real_of_int (b1 ! arm) * real_of_int y
                                 + real_of_int (b2 ! arm) * (1 - real_of_int y)) * v)
                     (linspace (1 / real N) 1 N)
                     (map (\<lambda>i. grid_f_row N (b1 ! i) (b2 ! i)) [0..<K] ! arm)]
         = map (\<lambda>i. grid_f_row N (b1[arm := b1 ! arm + y] ! i) (b2[arm := b2 ! arm + 1 - y] ! i)) [0..<K]"
proof -
  have row: "map (\<lambda>i. grid_f_row N (b1 ! i) (b2 ! i)) [0..<K] ! arm = grid_f_row N (b1 ! arm) (b2 ! arm)"
    using assms(1) by simp
  show ?thesis
    unfolding row f_update_row[OF assms(4,5,6)]
    using assms(1,2,3) by (auto intro!: nth_equalityI simp: nth_list_update)
qed

lemma B_rows_update:
  assumes "arm < K" "length b1 = K" "length b2 = K" "1 \<le> b1 ! arm" "1 \<le> b2 ! arm" "y = 0 \<or> y = 1"
  shows "(map2 Beta_fact b1 b2)
           [arm := map2 Beta_fact b1 b2 ! arm
                    * (real_of_int (b1 ! arm) * real_of_int y + real_of_int (b2 ! arm) * (1 - real_of_int y))
                    / real_of_int (b1 ! arm + b2 ! arm)]
         = map2 Beta_fact (b1[arm := b1 ! arm + y]) (b2[arm := b2 ! arm + 1 - y])"
proof -
  have row: "map2 Beta_fact b1 b2 ! arm = Beta_fact (b1 ! arm) (b2 ! arm)"
    using assms(1,2,3) by simp
  show ?thesis
    unfolding row B_update[OF assms(4,5,6)]
    using assms(1,2,3) by (auto intro!: nth_equalityI simp: nth_list_update)
qed

lemma F_correction_eq:
  assumes "arm < length f" "arm < length F" "arm < length G" "arm < length B"
    and "length (F ! arm) = length X"
  shows "F_correction arm y (alpha, beta) X f F G B =
     map (\<lambda>w. (if y = 0 then 1 else - 1) / (real_of_int alpha * y + real_of_int beta * (1 - y))
                 / B ! arm * w) (boundary_profile X alpha beta)"
  using assms
  by (auto simp: F_correction_def update_approx_Inr boundary_profile_def intro!: nth_equalityI)

lemma G_correction_eq:
  assumes "arm < length f" "arm < length F" "arm < length G" "arm < length B"
    and "length (F ! arm) = length X" and "alpha \<noteq> 0" "alpha + beta \<noteq> 0"
  shows "G_correction arm y (alpha, beta) X f F G B =
     map (\<lambda>w. 1 / real_of_int alpha / B ! arm * w) (boundary_profile X alpha beta)"
proof -
  define a where "a = real_of_int alpha"
  define s where "s = real_of_int (alpha + beta)"
  have nz: "a \<noteq> 0" "s \<noteq> 0" using assms(6,7) by (simp_all add: a_def s_def)
  have "v - a / s * (v - t) * s / a = t" for v t :: real
    using nz by simp
  then show ?thesis
    using assms(1-5) unfolding a_def s_def
    by (auto simp: G_correction_def update_approx_Inr boundary_profile_def intro!: nth_equalityI)
qed

lemma ex4_init:
  "init_approx 1 4 [2] [1] =
     Inr ([1/4, 1/2, 3/4, 1], [[1/2, 1, 3/2, 2]], [[1/8, 3/8, 3/4, 5/4]],
          [[1/32, 5/32, 7/16, 15/16]], [1/2])"
  by code_simp

lemma ex4_F_correction:
  "F_correction 0 1 (2, 1) [1/4, 1/2, 3/4, 1] [[1/2, 1, 3/2, 2]] [[1/8, 3/8, 3/4, 5/4]]
      [[1/32, 5/32, 7/16, 15/16]] [1/2] = [- 3/64, - 1/8, - 9/64, 0]"
  by code_simp

lemma ex4_profile_swapped: "boundary_profile [1/4, 1/2, 3/4, 1] 1 2 = [9/64, 1/8, 3/64, 0]"
  by code_simp

lemma grid_f_row_nth:
  "i < N \<Longrightarrow> grid_f_row N a b ! i =
     (real (Suc i) / real N) powi (a - 1) * (1 - real (Suc i) / real N) powi (b - 1) / Beta_fact a b"
  by (simp add: grid_f_row_def linspace_grid_nth)

lemma cumsum_nth0: "xs \<noteq> [] \<Longrightarrow> cumsum xs ! 0 = xs ! 0"
  by (cases xs) (simp_all add: cumsum_def)

lemma init_F_nth0:
  assumes "0 < N"
  shows "cumsum (map (\<lambda>v. v / real N) (grid_f_row N a b)) ! 0 = grid_f_row N a b ! 0 / real N"
proof -
  have "map (\<lambda>v. v / real N) (grid_f_row N a b) \<noteq> []" using assms by (simp add: grid_f_row_def linspace_def)
  then have "cumsum (map (\<lambda>v. v / real N) (grid_f_row N a b)) ! 0
             = map (\<lambda>v. v / real N) (grid_f_row N a b) ! 0"
    by (rule cumsum_nth0)
  also have "\<dots> = grid_f_row N a b ! 0 / real N" using assms by simp
  finally show ?thesis .
qed

lemma Beta_fact_1_1: "Beta_fact 1 1 = 1"
  by (simp add: Beta_fact_def)

lemma Beta_fact_2_1: "Beta_fact 2 1 = 1 / 2"
  by (simp add: Beta_fact_def fact_numeral)

section \<open>Properties of the grid estimator\<close>

lemma fold_mult_rows:
  assumes "\<forall>app \<in> set xs. P app \<longrightarrow> length (F ! app) = length acc"
  shows "length (fold (\<lambda>app acc. if P app then map2 (*) acc (F ! app) else acc) xs acc) = length acc
       \<and> (\<forall>i < length acc.
            fold (\<lambda>app acc. if P app then map2 (*) acc (F ! app) else acc) xs acc ! i
              = acc ! i * (\<Prod>app \<leftarrow> filter P xs. F ! app ! i))"
  using assms
proof (induction xs arbitrary: acc)
  case Nil
  then show ?case by simp
next
  case (Cons x xs)
  show ?case
  proof (cases "P x")
    case True
    let ?acc = "map2 (*) acc (F ! x)"
    have len: "length ?acc = length acc" using Cons.prems True by simp
    have "\<forall>app \<in> set xs. P app \<longrightarrow> length (F ! app) = length ?acc"
      using Cons.prems len by simp
    from Cons.IH[OF this] len True Cons.prems show ?thesis
      by (simp add: mult.assoc)
  next
    case False
    have "\<forall>app \<in> set xs. P app \<longrightarrow> length (F ! app) = length acc"
      using Cons.prems by simp
    from Cons.IH[OF this] False show ?thesis by simp
  qed
qed

lemma prod_list_filter_upt:
  "(\<Prod>app \<leftarrow> filter P [0..<K]. h app) = (\<Prod>app \<in> {app. app < K \<and> P app}. h app)"
proof -
  have "distinct (filter P [0..<K])" by simp
  then have "prod h (set (filter P [0..<K])) = prod_list (map h (filter P [0..<K]))"
    by (rule prod.distinct_set_conv_list)
  moreover have "set (filter P [0..<K]) = {app. app < K \<and> P app}" by auto
  ultimately show ?thesis by simp
qed

lemma prod_F1_fold:
  fixes F :: mat
  assumes shape: "\<forall>app<K. length (F ! app) = N"
  shows "length (fold (\<lambda>app acc. if a \<noteq> app \<and> app \<noteq> ap then map2 (*) acc (F ! app) else acc)
                   [0..<K] (replicate N 1)) = N"
    and "i < N \<Longrightarrow>
         fold (\<lambda>app acc. if a \<noteq> app \<and> app \<noteq> ap then map2 (*) acc (F ! app) else acc)
            [0..<K] (replicate N 1) ! i
         = (\<Prod>app \<leftarrow> filter (\<lambda>app. a \<noteq> app \<and> app \<noteq> ap) [0..<K]. F ! app ! i)"
proof -
  let ?P = "\<lambda>app. a \<noteq> app \<and> app \<noteq> ap"
  have h: "\<forall>app \<in> set [0..<K]. ?P app \<longrightarrow> length (F ! app) = length (replicate N (1::real))"
    using shape by simp
  note fm = fold_mult_rows[OF h]
  show "length (fold (\<lambda>app acc. if ?P app then map2 (*) acc (F ! app) else acc) [0..<K]
                (replicate N 1)) = N"
    using fm by simp
  show "fold (\<lambda>app acc. if ?P app then map2 (*) acc (F ! app) else acc) [0..<K]
                (replicate N 1) ! i = (\<Prod>app \<leftarrow> filter ?P [0..<K]. F ! app ! i)" if "i < N"
    using fm that by simp
qed

lemma prod_F1_length:
  assumes "\<forall>app<K. length (F ! app) = N" "length (f ! a) = N"
  shows "length (prod_F1 K N f F a ap) = N"
  unfolding prod_F1_def using prod_F1_fold(1)[OF assms(1)] assms(2) by simp

lemma prod_F1_nth:
  assumes shape: "\<forall>app<K. length (F ! app) = N" and fa: "length (f ! a) = N" and i: "i < N"
  shows "prod_F1 K N f F a ap ! i =
           (\<Prod>app \<in> {app. app < K \<and> app \<noteq> a \<and> app \<noteq> ap}. F ! app ! i) * (f ! a ! i / real N)"
proof -
  have set_eq: "{app. app < K \<and> a \<noteq> app \<and> app \<noteq> ap} = {app. app < K \<and> app \<noteq> a \<and> app \<noteq> ap}"
    by auto
  show ?thesis
    unfolding prod_F1_def
    using prod_F1_fold(1)[OF shape, of a ap] prod_F1_fold(2)[OF shape i, of a ap] fa i
    by (simp add: prod_list_filter_upt set_eq)
qed

lemma IR_p_star_nth:
  assumes shape: "\<forall>app<K. length (F ! app) = N" and fa: "length (f ! a) = N" and a: "a < K"
  shows "IR_p_star K N f F ! a =
           1 / real N * (\<Sum>i<N. f ! a ! i * (\<Prod>app \<in> {app. app < K \<and> app \<noteq> a}. F ! app ! i))"
proof -
  have set_eq: "{app. app < K \<and> app \<noteq> a \<and> app \<noteq> a} = {app. app < K \<and> app \<noteq> a}" by auto
  have "IR_p_star K N f F ! a = sum_list (prod_F1 K N f F a a)"
    using a by (simp add: IR_p_star_def)
  also have "\<dots> = (\<Sum>i = 0..<N. prod_F1 K N f F a a ! i)"
    using prod_F1_length[OF shape fa] by (simp add: sum_list_sum_nth)
  also have "\<dots> = (\<Sum>i = 0..<N. (\<Prod>app \<in> {app. app < K \<and> app \<noteq> a}. F ! app ! i) * (f ! a ! i / real N))"
    using prod_F1_nth[OF shape fa, of _ a] by (simp add: set_eq)
  also have "\<dots> = 1 / real N * (\<Sum>i<N. f ! a ! i * (\<Prod>app \<in> {app. app < K \<and> app \<noteq> a}. F ! app ! i))"
    by (simp add: sum_distrib_left atLeast0LessThan mult.commute)
  finally show ?thesis .
qed

lemma IR_approx_Inr:
  assumes "K \<le> length f" "K \<le> length F" "K \<le> length G"
  shows "IR_approx K N b1 b2 X f F G =
     Inr (map2 (\<lambda>u v. np_inner (np_diag (IR_maap K N X f F G (IR_p_star K N f F))) (IR_p_star K N f F)
                       - real_of_int u / real_of_int (u + v)) b1 b2,
          map (\<lambda>arm. np_inner (IR_p_star K N f F)
                        (sum_log (IR_maap K N X f F G (IR_p_star K N f F) ! arm) b1 b2)) [0..<K],
          IR_p_star K N f F,
          IR_maap K N X f F G (IR_p_star K N f F))"
  using assms by (simp add: IR_approx_def Let_def)

lemma IR_approx_InrD:
  assumes "IR_approx K N b1 b2 X f F G = Inr (delta, g, p_star, maap)"
  shows "K \<le> length f \<and> K \<le> length F \<and> K \<le> length G \<and> p_star = IR_p_star K N f F
       \<and> maap = IR_maap K N X f F G p_star
       \<and> g = map (\<lambda>arm. np_inner p_star (sum_log (maap ! arm) b1 b2)) [0..<K]"
  using assms by (auto simp: IR_approx_def Let_def split: if_splits)

text \<open>
  The information gain that \<open>IR_approx\<close> returns, entry by entry: in the term for \<open>a'\<close> the
  parameters inside the logarithms are those of \<open>a'\<close>.
\<close>

lemma map2_as_map_upt:
  assumes "length xs = n" "length ys = n"
  shows "map2 h xs ys = map (\<lambda>i. h (xs ! i) (ys ! i)) [0..<n]"
  using assms by (auto intro!: nth_equalityI)

lemma IR_approx_gain_formula:
  assumes "IR_approx K N b1 b2 X f F G = Inr (delta, g, p_star, maap)"
    and "length b1 = K" "length b2 = K" "a < K"
  shows "g ! a = (\<Sum>a' \<leftarrow> [0..<K]. p_star ! a' *
           (maap ! a ! a' * ln (maap ! a ! a' * real_of_int (b1 ! a' + b2 ! a') / real_of_int (b1 ! a'))
            + (1 - maap ! a ! a')
                * ln ((1 - maap ! a ! a') * real_of_int (b1 ! a' + b2 ! a') / real_of_int (b2 ! a'))))"
proof -
  note d = IR_approx_InrD[OF assms(1)]
  have lp: "length p_star = K" using d by (simp add: IR_p_star_def)
  have lm: "length (maap ! a) = K"
    using d assms(4) by (simp add: IR_maap_def)
  have ga: "g ! a = np_inner p_star (sum_log (maap ! a) b1 b2)"
    using d assms(4) by simp
  have lz: "length (zip b1 b2) = K" using assms(2,3) by simp
  have sl: "sum_log (maap ! a) b1 b2 = map (\<lambda>i.
           maap ! a ! i * ln (maap ! a ! i * real_of_int (b1 ! i + b2 ! i) / real_of_int (b1 ! i))
            + (1 - maap ! a ! i)
                * ln ((1 - maap ! a ! i) * real_of_int (b1 ! i + b2 ! i) / real_of_int (b2 ! i))) [0..<K]"
    unfolding sum_log_def map2_as_map_upt[OF lm lz]
    using assms(2,3) by (auto intro!: map_cong)
  have "np_inner p_star (sum_log (maap ! a) b1 b2)
      = sum_list (map (\<lambda>i. p_star ! i * sum_log (maap ! a) b1 b2 ! i) [0..<K])"
    unfolding np_inner_def
    by (rule arg_cong[where f = sum_list], rule map2_as_map_upt[OF lp]) (simp add: sl)
  also have "\<dots> = (\<Sum>a' \<leftarrow> [0..<K]. p_star ! a' *
           (maap ! a ! a' * ln (maap ! a ! a' * real_of_int (b1 ! a' + b2 ! a') / real_of_int (b1 ! a'))
            + (1 - maap ! a ! a')
                * ln ((1 - maap ! a ! a') * real_of_int (b1 ! a' + b2 ! a') / real_of_int (b2 ! a'))))"
    by (rule arg_cong[where f = sum_list], rule map_cong) (simp_all add: sl)
  finally show ?thesis using ga by simp
qed

section \<open>A grid state of two arms on two grid points\<close>

text \<open>
  The state of \<open>IDS_approx\<close> with two arms, \<open>N_steps = 2\<close> and uniform priors after one round
  in which arm 1 was pulled and paid reward 1.
\<close>

lemma ex2_init:
  "init_approx 2 2 [1, 1] [1, 1] =
     Inr ([1/2, 1], [[1, 1], [1, 1]], [[1/2, 1], [1/2, 1]], [[1/4, 3/4], [1/4, 3/4]], [1, 1])"
  by code_simp

lemma ex2_update:
  "update_approx 1 1 (1, 1) [1/2, 1] [[1, 1], [1, 1]] [[1/2, 1], [1/2, 1]] [[1/4, 3/4], [1/4, 3/4]] [1, 1] =
     Inr ([[1, 1], [1, 2]], [[1/2, 1], [1/4, 1]], [[1/4, 3/4], [1/8, 1/2]], [1, 1/2])"
  by code_simp

lemma ex2_p_star0: "IR_p_star 2 2 [[1, 1], [1, 1]] [[1/2, 1], [1/2, 1]] = [3/4, 3/4]"
  by code_simp

lemma ex2_p_star: "IR_p_star 2 2 [[1, 1], [1, 2]] [[1/2, 1], [1/4, 1]] = [5/8, 5/4]"
  by code_simp

lemma ex2_maap:
  "IR_maap 2 2 [1/2, 1] [[1, 1], [1, 2]] [[1/2, 1], [1/4, 1]] [[1/4, 3/4], [1/8, 1/2]] [5/8, 5/4]
     = [[9/10, 7/10], [1/2, 9/10]]"
  by code_simp

lemma ex2_g_code:
  "np_inner [5/8, 5/4] (sum_log [9/10, 7/10] [1, 2] [1, 1])
     = 5/8 * (9/10 * ln (9/5) + 1/10 * ln (1/5)) + 5/4 * (7/10 * ln (21/20) + 3/10 * ln (9/10))"
  by (simp add: np_inner_def sum_log_def)

lemma ex2_g_spec:
  "g_spec 2 [1, 2] [1, 1] [5/8, 5/4] [[9/10, 7/10], [1/2, 9/10]] 0
     = 5/8 * (9/10 * ln (9/5) + 1/10 * ln (1/5)) + 5/4 * (7/10 * ln (7/5) + 3/10 * ln (3/5))"
proof -
  have "[0..<2] = [0, Suc 0]" by (simp add: numeral_2_eq_2)
  then show ?thesis by (simp add: g_spec_def kl_def)
qed

lemma ex2_ln_gap: "7/10 * ln (21/20) + 3/10 * ln (9/10) < 7/10 * ln (7/5) + 3/10 * ln (3/5 :: real)"
proof -
  have "ln ((7/5) / (21/20) :: real) = ln (7/5) - ln (21/20)"
    by (rule ln_divide_pos) simp_all
  then have a: "ln (7/5 :: real) - ln (21/20) = ln (4/3)" by simp
  have "ln ((3/5) / (9/10) :: real) = ln (3/5) - ln (9/10)"
    by (rule ln_divide_pos) simp_all
  then have b: "ln (3/5 :: real) - ln (9/10) = ln (2/3)" by simp
  have "7 * ln (4/3 :: real) + 3 * ln (2/3) = ln ((4/3) ^ 7) + ln ((2/3) ^ 3)"
    by (simp add: ln_realpow)
  also have "\<dots> = ln ((4/3) ^ 7 * (2/3) ^ 3 :: real)"
    by (rule ln_mult_pos [symmetric]) simp_all
  also have "\<dots> > 0" by (rule ln_gt_zero) (simp add: power_divide)
  finally have "0 < 7 * ln (4/3 :: real) + 3 * ln (2/3)" .
  then show ?thesis using a b by linarith
qed

section \<open>Properties of the rounds\<close>

lemma run_rounds_append:
  "run_rounds step (xs @ ys) s =
     (case run_rounds step xs s of Inl err \<Rightarrow> Inl err | Inr s1 \<Rightarrow> run_rounds step ys s1)"
  by (induction xs arbitrary: s) (auto split: sum.splits)

lemma run_rounds_split:
  assumes "t \<le> t'" "run_rounds step [0..<t'] s0 = Inr s'"
  shows "\<exists>s. run_rounds step [0..<t] s0 = Inr s \<and> run_rounds step [t..<t'] s = Inr s'"
proof -
  have "[0..<t'] = [0..<t] @ [t..<t']"
    using assms(1) upt_add_eq_append[of 0 t "t' - t"] by simp
  then show ?thesis
    using assms(2) by (auto simp: run_rounds_append split: sum.splits)
qed

lemma run_rounds_snoc:
  "t \<le> t' \<Longrightarrow> run_rounds step [t..<Suc t'] s =
     (case run_rounds step [t..<t'] s of Inl err \<Rightarrow> Inl err | Inr s1 \<Rightarrow> step t' s1)"
  by (simp add: run_rounds_append split: sum.splits)

lemma run_rounds_locked:
  fixes step :: "nat \<Rightarrow> ('b, 'z) run_state_scheme \<Rightarrow> py_error + ('b, 'z) run_state_scheme"
  assumes step: "\<And>t s s'. flag (self s) \<Longrightarrow> step t s = Inr s' \<Longrightarrow>
            self s' = self s \<and> est_calls s' = est_calls s \<and> t < length (arm_sequence s)
            \<and> (\<exists>a. optimal_arm (self s) = Some a \<and> arm_sequence s' = (arm_sequence s)[t := a])"
    and locked: "flag (self s)"
    and run: "run_rounds step [t..<t'] s = Inr s'"
  shows "self s' = self s \<and> est_calls s' = est_calls s
       \<and> length (arm_sequence s') = length (arm_sequence s)
       \<and> (\<forall>r. t \<le> r \<and> r < t' \<longrightarrow> Some (arm_sequence s' ! r) = optimal_arm (self s))
       \<and> (\<forall>r<t. arm_sequence s' ! r = arm_sequence s ! r)"
  using run
proof (induction t' arbitrary: s')
  case 0
  then show ?case by simp
next
  case (Suc t')
  show ?case
  proof (cases "t \<le> t'")
    case False
    then have "[t..<Suc t'] = []" by simp
    with Suc.prems False show ?thesis by auto
  next
    case True
    from Suc.prems True obtain s1 where s1: "run_rounds step [t..<t'] s = Inr s1"
      and last: "step t' s1 = Inr s'"
      by (auto simp: run_rounds_append split: sum.splits)
    note IH = Suc.IH[OF s1]
    have f1: "flag (self s1)" using IH locked by simp
    from step[OF f1 last] obtain a where st: "self s' = self s1" "est_calls s' = est_calls s1"
      "t' < length (arm_sequence s1)" "optimal_arm (self s1) = Some a"
      "arm_sequence s' = (arm_sequence s1)[t' := a]"
      by blast
    show ?thesis
      using IH st True by (auto simp: nth_list_update less_Suc_eq)
  qed
qed

lemma update_lists_InrD:
  assumes "update_lists e t arm s = Inr s'"
  shows "s' = s\<lparr>Sa := (Sa s)[arm := Sa s ! arm + sample_reward e t arm],
                 Na := (Na s)[arm := Na s ! arm + 1],
                 reward := (reward s)[t := sample_reward e t arm],
                 arm_sequence := (arm_sequence s)[t := arm]\<rparr>"
    and "arm < length (Sa s)" "arm < length (Na s)" "t < length (reward s)"
        "t < length (arm_sequence s)"
  using assms by (auto simp: update_lists_def Let_def split: if_splits)

lemma IDS_approx_choose_locked:
  assumes "flag (self s)" "IDS_approx_choose e N_steps t s = Inr (arm, s1)"
  shows "s1 = s \<and> optimal_arm (self s) = Some arm"
  using assms by (auto simp: IDS_approx_choose_def split: option.splits)

lemma IDS_approx_choose_unlocked:
  assumes "\<not> flag (self s)" "IDS_approx_choose e N_steps t s = Inr (arm, s1)"
  shows "\<exists>m. np_max (st_p_star s) = Inr m \<and> (flag (self s1) \<longleftrightarrow> threshold (self s) < m)
           \<and> (threshold (self s) < m \<longrightarrow>
                 arm = np_argmax (st_p_star s) \<and> optimal_arm (self s1) = Some arm
                 \<and> est_calls s1 = est_calls s)
           \<and> (\<not> threshold (self s) < m \<longrightarrow>
                 self s1 = self s \<and> est_calls s1 = est_calls s + 1)"
  using assms
  by (auto simp: IDS_approx_choose_def Let_def split: sum.splits if_splits prod.splits)

lemma IDS_approx_choose_frame:
  assumes "IDS_approx_choose e N_steps t s = Inr (arm, s1)"
  shows "beta1 s1 = beta1 s \<and> beta2 s1 = beta2 s \<and> Sa s1 = Sa s \<and> Na s1 = Na s
       \<and> reward s1 = reward s \<and> arm_sequence s1 = arm_sequence s
       \<and> st_X s1 = st_X s \<and> st_f s1 = st_f s \<and> st_F s1 = st_F s \<and> st_G s1 = st_G s
       \<and> st_B s1 = st_B s \<and> threshold (self s1) = threshold (self s)
       \<and> nb_arms (self s1) = nb_arms (self s)"
  using assms
  by (auto simp: IDS_approx_choose_def Let_def split: sum.splits if_splits prod.splits option.splits)

lemma IDS_approx_round_InrD:
  assumes "IDS_approx_round e N_steps t s = Inr s'"
  shows "\<exists>arm s1 f' F' G' B'.
           IDS_approx_choose e N_steps t s = Inr (arm, s1)
         \<and> update_approx arm (sample_reward e t arm) (beta1 s ! arm, beta2 s ! arm)
              (st_X s) (st_f s) (st_F s) (st_G s) (st_B s) = Inr (f', F', G', B')
         \<and> arm < length (beta1 s) \<and> arm < length (beta2 s) \<and> t < length (arm_sequence s)
         \<and> t < length (reward s)
         \<and> self s' = self s1 \<and> est_calls s' = est_calls s1 \<and> st_p_star s' = st_p_star s1
         \<and> arm_sequence s' = (arm_sequence s)[t := arm]
         \<and> reward s' = (reward s)[t := sample_reward e t arm]
         \<and> beta1 s' = (beta1 s)[arm := py_trunc (real_of_int (beta1 s ! arm) + sample_reward e t arm)]
         \<and> beta2 s' = (beta2 s)[arm := py_trunc (real_of_int (beta2 s ! arm) + (1 - sample_reward e t arm))]
         \<and> st_X s' = st_X s \<and> st_f s' = f' \<and> st_F s' = F' \<and> st_G s' = G' \<and> st_B s' = B'"
proof -
  from assms obtain arm s1 where ch: "IDS_approx_choose e N_steps t s = Inr (arm, s1)"
    by (auto simp: IDS_approx_round_def split: sum.splits)
  note fr = IDS_approx_choose_frame[OF ch]
  from assms ch obtain s2 where ul: "update_lists e t arm s1 = Inr s2"
    by (auto simp: IDS_approx_round_def split: sum.splits)
  note u = update_lists_InrD[OF ul]
  have r: "reward s2 ! t = sample_reward e t arm" using u by simp
  show ?thesis
    using assms ch ul fr u(2-) r
    apply (simp add: IDS_approx_round_def Let_def split: if_splits sum.splits prod.splits)
    apply (simp add: u(1))
    apply (auto simp: u(1))
    done
qed

section \<open>Properties of the sampling estimator\<close>

lemma fold_upt_invariant:
  assumes "P 0 s" and "\<And>i s. i < n \<Longrightarrow> P i s \<Longrightarrow> P (Suc i) (f i s)"
  shows "P n (fold f [0..<n] s)"
  using assms
proof (induction n)
  case 0
  then show ?case by simp
next
  case (Suc n)
  have "P n (fold f [0..<n] s)"
    by (rule Suc.IH) (use Suc.prems in auto)
  then show ?case using Suc.prems(2)[of n] by simp
qed

lemma computeIDS_loop_inv:
  assumes shape: "K \<le> length Maap0" "\<forall>i<K. K \<le> length (Maap0 ! i)" "K \<le> length p_a0"
  shows "loop_inv K Maap0 p_a0 (\<lambda>i j. True) (\<lambda>j. True)
           (\<lambda>i j. nan_to_num_mean (draws_where thetas i j))
           (\<lambda>j. real (length (draws_where thetas j j)) / real M)
           (computeIDS_loop K M thetas (Maap0, p_a0))"
proof -
  let ?v = "\<lambda>i j. nan_to_num_mean (draws_where thetas i j)"
  let ?c = "\<lambda>j. real (length (draws_where thetas j j)) / real M"
  let ?body = "\<lambda>a ap (Maap, p_a).
             let t = draws_where thetas ap a;
                 Maap' = Maap[ap := (Maap ! ap)[a := nan_to_num_mean t]]
             in (Maap', if ap = a then p_a[a := real (length t) / real M] else p_a)"
  let ?outer = "\<lambda>n. loop_inv K Maap0 p_a0 (\<lambda>i j. j < n) (\<lambda>j. j < n) ?v ?c"
  have inner: "?outer (Suc a) (fold (?body a) [0..<K] st)" if a: "a < K" and st: "?outer a st" for a st
  proof -
    let ?inner = "\<lambda>n. loop_inv K Maap0 p_a0 (\<lambda>i j. j < a \<or> (j = a \<and> i < n))
                              (\<lambda>j. j < a \<or> (j = a \<and> a < n)) ?v ?c"
    have 0: "?inner 0 st" using st by (simp add: loop_inv_def)
    have step: "?inner (Suc ap) (?body a ap s)" if "ap < K" "?inner ap s" for ap s
    proof -
      obtain Mp pa where s: "s = (Mp, pa)" by (cases s)
      from that(2) have inv: "length Mp = length Maap0" "\<forall>i. length (Mp ! i) = length (Maap0 ! i)"
        "length pa = length p_a0"
        "\<forall>i j. i < K \<and> j < K \<longrightarrow> Mp ! i ! j = (if j < a \<or> (j = a \<and> i < ap) then ?v i j else Maap0 ! i ! j)"
        "\<forall>j. j < K \<longrightarrow> pa ! j = (if j < a \<or> (j = a \<and> a < ap) then ?c j else p_a0 ! j)"
        by (simp_all add: loop_inv_def s)
      have r1: "ap < length Mp" "a < length (Mp ! ap)" "a < length pa"
        using inv(1,2,3) shape a that(1) by (auto simp: less_le_trans)
      define Mp' where "Mp' = Mp[ap := (Mp ! ap)[a := ?v ap a]]"
      define pa' where "pa' = (if ap = a then pa[a := ?c a] else pa)"
      have body: "?body a ap s = (Mp', pa')"
        unfolding s Mp'_def pa'_def by (simp add: Let_def)
      have len1: "length Mp' = length Maap0" "length pa' = length p_a0"
        using inv(1,3) by (simp_all add: Mp'_def pa'_def)
      have len2: "\<forall>i. length (Mp' ! i) = length (Maap0 ! i)"
        unfolding Mp'_def using inv(2) r1 by (auto simp: nth_list_update)
      have ent: "\<forall>i j. i < K \<and> j < K \<longrightarrow>
          Mp' ! i ! j = (if j < a \<or> (j = a \<and> i < Suc ap) then ?v i j else Maap0 ! i ! j)"
        unfolding Mp'_def using inv(4) r1 inv(1,2) shape
        by (auto simp: nth_list_update less_Suc_eq)
      have pent: "\<forall>j. j < K \<longrightarrow>
          pa' ! j = (if j < a \<or> (j = a \<and> a < Suc ap) then ?c j else p_a0 ! j)"
        unfolding pa'_def using inv(5) r1 by (auto simp: nth_list_update less_Suc_eq)
      show ?thesis
        unfolding body loop_inv_def prod.case using len1 len2 ent pent by blast
    qed
    have "?inner K (fold (?body a) [0..<K] st)"
      by (rule fold_upt_invariant[where P = ?inner, OF 0 step])
    then show ?thesis
      using a by (auto simp: loop_inv_def less_Suc_eq split: prod.splits)
  qed
  have 0: "?outer 0 (Maap0, p_a0)" by (simp add: loop_inv_def)
  have "?outer K (fold (\<lambda>a. fold (?body a) [0..<K]) [0..<K] (Maap0, p_a0))"
    by (rule fold_upt_invariant[where P = ?outer, OF 0 inner])
  then show ?thesis
    unfolding computeIDS_loop_def by (auto simp: loop_inv_def split: prod.splits)
qed

lemma computeIDS_loop_entries:
  assumes "K \<le> length Maap" "\<forall>i<K. K \<le> length (Maap ! i)" "K \<le> length p_a"
    and "computeIDS_loop K M thetas (Maap, p_a) = (Maap', p_a')"
  shows "length Maap' = length Maap" "length p_a' = length p_a"
    and "\<And>i j. i < K \<Longrightarrow> j < K \<Longrightarrow> Maap' ! i ! j = nan_to_num_mean (draws_where thetas i j)"
    and "\<And>j. j < K \<Longrightarrow> p_a' ! j = real (length (draws_where thetas j j)) / real M"
  using computeIDS_loop_inv[OF assms(1-3), of thetas M] unfolding assms(4)
  by (simp_all add: loop_inv_def)

lemma computeIDS_loop_lengths:
  assumes "computeIDS_loop 0 M thetas (Maap, p_a) = (Maap', p_a')"
  shows "Maap' = Maap \<and> p_a' = p_a"
  using assms by (simp add: computeIDS_loop_def)

lemma computeIDS_raises_None:
  "computeIDS_raises K Maap p_a thetas M = None \<longleftrightarrow>
     thetas \<noteq> [] \<and> (K = 0 \<or> (M \<noteq> 0 \<and> K \<le> length thetas \<and> K \<le> length p_a \<and> K \<le> length Maap
                              \<and> (\<forall>ap<K. K \<le> length (Maap ! ap))))"
  by (auto simp: computeIDS_raises_def list_all_iff not_less)

lemma computeIDS_InrD:
  assumes "computeIDS e t obj Maap p_a thetas M VIDS = Inr r"
  shows "computeIDS_raises (nb_arms obj) Maap p_a thetas M = None"
    and "(res_Maap r, res_p_a r) = computeIDS_loop (nb_arms obj) M thetas (Maap, p_a)"
    and "\<exists>m. np_max (res_p_a r) = Inr m
           \<and> (threshold obj \<le> m \<longrightarrow>
                 res_arm r = np_argmax (res_p_a r)
               \<and> res_self r = obj\<lparr>optimal_arm := Some (np_argmax (res_p_a r))\<rparr>
               \<and> res_ratio r = None)
           \<and> (\<not> threshold obj \<le> m \<longrightarrow> res_self r = obj \<and> res_ratio r \<noteq> None)"
    and "flag (res_self r) = flag obj" "threshold (res_self r) = threshold obj"
        "nb_arms (res_self r) = nb_arms obj"
  using assms
  by (auto simp: computeIDS_def Let_def split: option.splits sum.splits prod.splits if_splits)

lemma np_broadcast_same_length:
  "length xs = length ys \<Longrightarrow> np_broadcast h xs ys = Inr (map2 h xs ys)"
  by (simp add: np_broadcast_def)

lemma computeIDS_Inr:
  assumes "computeIDS_raises (nb_arms obj) Maap p_a thetas M = None"
    and "snd (computeIDS_loop (nb_arms obj) M thetas (Maap, p_a)) \<noteq> []"
    and "length thetas = nb_arms obj"
  shows "\<exists>r. computeIDS e t obj Maap p_a thetas M VIDS = Inr r"
proof -
  obtain Maap' p_a' where l: "computeIDS_loop (nb_arms obj) M thetas (Maap, p_a) = (Maap', p_a')"
    by (cases "computeIDS_loop (nb_arms obj) M thetas (Maap, p_a)")
  with assms(2) have "p_a' \<noteq> []" by simp
  then have "np_max p_a' = Inr (Max (set p_a'))" by (rule np_max_Inr)
  then show ?thesis
    using assms(1,3) l by (simp add: computeIDS_def Let_def np_broadcast_same_length)
qed

lemma nan_to_num_mean_Nil: "np_mean_nan [] = None" "nan_to_num None = 0" "nan_to_num_mean [] = 0"
  by (simp_all add: np_mean_nan_def nan_to_num_def nan_to_num_mean_def)

lemma np_where_eq_empty: "a \<notin> set th \<Longrightarrow> np_where_eq th a = []"
  by (auto simp: np_where_eq_def filter_empty_conv)

lemma draws_where_empty: "a \<notin> set (theta_hat thetas) \<Longrightarrow> draws_where thetas ap a = []"
  by (simp add: draws_where_def np_where_eq_empty)

lemma sample_choose_locked:
  assumes "flag (self s)" "sample_choose e M VIDS t s = Inr (arm, s1)"
  shows "s1 = s \<and> optimal_arm (self s) = Some arm"
  using assms by (auto simp: sample_choose_def split: option.splits)

lemma sample_choose_unlocked:
  assumes "\<not> flag (self s)" "sample_choose e M VIDS t s = Inr (arm, s1)"
  shows "\<exists>m. np_max (st_p_a s) = Inr m \<and> (flag (self s1) \<longleftrightarrow> threshold (self s) \<le> m)
           \<and> (threshold (self s) \<le> m \<longrightarrow>
                 optimal_arm (self s) = Some arm \<and> optimal_arm (self s1) = Some arm
               \<and> est_calls s1 = est_calls s \<and> st_p_a s1 = st_p_a s \<and> st_Maap s1 = st_Maap s)
           \<and> (\<not> threshold (self s) \<le> m \<longrightarrow>
                 (\<exists>r. computeIDS e t (self s) (st_Maap s) (st_p_a s) (st_thetas s) M VIDS = Inr r
                    \<and> arm = res_arm r \<and> self s1 = res_self r \<and> st_Maap s1 = res_Maap r
                    \<and> st_p_a s1 = res_p_a r \<and> est_calls s1 = est_calls s + 1))"
  using assms
  by (auto simp: sample_choose_def Let_def computeIDS_InrD(4)
           split: sum.splits if_splits prod.splits option.splits)

lemma sample_choose_frame:
  assumes "sample_choose e M VIDS t s = Inr (arm, s1)"
  shows "beta1 s1 = beta1 s \<and> beta2 s1 = beta2 s \<and> Sa s1 = Sa s \<and> Na s1 = Na s
       \<and> reward s1 = reward s \<and> arm_sequence s1 = arm_sequence s \<and> st_thetas s1 = st_thetas s
       \<and> threshold (self s1) = threshold (self s) \<and> nb_arms (self s1) = nb_arms (self s)"
  using assms
  by (auto simp: sample_choose_def Let_def computeIDS_InrD(5,6)
           split: sum.splits if_splits prod.splits option.splits)

lemma sample_round_InrD:
  assumes "sample_round e M VIDS t s = Inr s'"
  shows "\<exists>arm s1.
           sample_choose e M VIDS t s = Inr (arm, s1)
         \<and> arm < length (beta1 s) \<and> arm < length (beta2 s) \<and> arm < length (st_thetas s)
         \<and> t < length (arm_sequence s) \<and> t < length (reward s)
         \<and> self s' = self s1 \<and> est_calls s' = est_calls s1
         \<and> st_p_a s' = st_p_a s1 \<and> st_Maap s' = st_Maap s1
         \<and> arm_sequence s' = (arm_sequence s)[t := arm]
         \<and> reward s' = (reward s)[t := sample_reward e t arm]
         \<and> beta1 s' = (beta1 s)[arm := beta1 s ! arm + sample_reward e t arm]
         \<and> beta2 s' = (beta2 s)[arm := beta2 s ! arm + (1 - sample_reward e t arm)]
         \<and> st_thetas s' = (st_thetas s)[arm := beta_draws e (Suc t) arm
                (beta1 s ! arm + sample_reward e t arm) (beta2 s ! arm + (1 - sample_reward e t arm)) M]"
proof -
  from assms obtain arm s1 where ch: "sample_choose e M VIDS t s = Inr (arm, s1)"
    by (auto simp: sample_round_def split: sum.splits)
  note fr = sample_choose_frame[OF ch]
  from assms ch obtain s2 where ul: "update_lists e t arm s1 = Inr s2"
    by (auto simp: sample_round_def split: sum.splits)
  note u = update_lists_InrD[OF ul]
  have r: "reward s2 ! t = sample_reward e t arm" using u by simp
  show ?thesis
    using assms ch ul fr u(2-) r
    apply (simp add: sample_round_def Let_def split: if_splits sum.splits prod.splits)
    apply (auto simp: u(1))
    done
qed

lemma IDS_approx_round_locked:
  assumes "flag (self s)" "IDS_approx_round e N_steps t s = Inr s'"
  shows "self s' = self s \<and> est_calls s' = est_calls s \<and> t < length (arm_sequence s)
       \<and> (\<exists>a. optimal_arm (self s) = Some a \<and> arm_sequence s' = (arm_sequence s)[t := a])"
  using IDS_approx_round_InrD[OF assms(2)] IDS_approx_choose_locked[OF assms(1)] by fastforce

lemma sample_round_locked:
  assumes "flag (self s)" "sample_round e M VIDS t s = Inr s'"
  shows "self s' = self s \<and> est_calls s' = est_calls s \<and> t < length (arm_sequence s)
       \<and> (\<exists>a. optimal_arm (self s) = Some a \<and> arm_sequence s' = (arm_sequence s)[t := a])"
  using sample_round_InrD[OF assms(2)] sample_choose_locked[OF assms(1)] by fastforce

lemma lock_in_from:
  fixes step :: "nat \<Rightarrow> ('b, 'z) run_state_scheme \<Rightarrow> py_error + ('b, 'z) run_state_scheme"
  assumes step: "\<And>t s s'. flag (self s) \<Longrightarrow> step t s = Inr s' \<Longrightarrow>
            self s' = self s \<and> est_calls s' = est_calls s \<and> t < length (arm_sequence s)
            \<and> (\<exists>a. optimal_arm (self s) = Some a \<and> arm_sequence s' = (arm_sequence s)[t := a])"
    and "t \<le> t'" "run_rounds step [0..<t] s0 = Inr s" "flag (self s)"
    and "run_rounds step [0..<t'] s0 = Inr s'"
  shows "flag (self s') \<and> optimal_arm (self s') = optimal_arm (self s)
       \<and> est_calls s' = est_calls s
       \<and> (\<forall>r. t \<le> r \<and> r < t' \<longrightarrow> Some (arm_sequence s' ! r) = optimal_arm (self s))"
proof -
  from run_rounds_split[OF assms(2,5)] assms(3)
  have "run_rounds step [t..<t'] s = Inr s'" by auto
  from run_rounds_locked[of step, OF step assms(4) this] assms(4)
  show ?thesis by simp
qed

lemma init_approx_InrD:
  assumes "init_approx K N b1 b2 = Inr (X, f, F, G, B)"
  shows "length f = K \<and> length F = K \<and> length G = K \<and> K \<le> length B \<and> length X = N
       \<and> 0 < K \<and> 0 < N"
  using assms
  by (auto simp: init_approx_def Let_def split: sum.splits if_splits)

lemma IDS_approx_round_threshold:
  assumes "IDS_approx_round e N_steps t s = Inr s'"
  shows "threshold (self s') = threshold (self s) \<and> nb_arms (self s') = nb_arms (self s)"
  using IDS_approx_round_InrD[OF assms] IDS_approx_choose_frame by fastforce

lemma sample_round_threshold:
  assumes "sample_round e M VIDS t s = Inr s'"
  shows "threshold (self s') = threshold (self s) \<and> nb_arms (self s') = nb_arms (self s)"
  using sample_round_InrD[OF assms] sample_choose_frame by fastforce

lemma IDS_approx_round_trigger:
  assumes "\<not> flag (self s)" "np_max (st_p_star s) = Inr m" "IDS_approx_round e N_steps t s = Inr s'"
  shows "flag (self s') \<longleftrightarrow> threshold (self s) < m"
proof -
  from IDS_approx_round_InrD[OF assms(3)] obtain arm s1 where
    ch: "IDS_approx_choose e N_steps t s = Inr (arm, s1)" and "self s' = self s1" by blast
  with IDS_approx_choose_unlocked[OF assms(1) ch] assms(2) show ?thesis by auto
qed

lemma sample_round_trigger:
  assumes "\<not> flag (self s)" "np_max (st_p_a s) = Inr m" "sample_round e M VIDS t s = Inr s'"
  shows "flag (self s') \<longleftrightarrow> threshold (self s) \<le> m"
proof -
  from sample_round_InrD[OF assms(3)] obtain arm s1 where
    ch: "sample_choose e M VIDS t s = Inr (arm, s1)" and "self s' = self s1" by blast
  with sample_choose_unlocked[OF assms(1) ch] assms(2) show ?thesis by auto
qed

lemma IDS_approx_round_frame:
  assumes "IDS_approx_round e N_steps t s = Inr s'" "j \<noteq> arm_sequence s' ! t"
  shows "st_f s' ! j = st_f s ! j \<and> st_F s' ! j = st_F s ! j \<and> st_G s' ! j = st_G s ! j
       \<and> st_B s' ! j = st_B s ! j \<and> beta1 s' ! j = beta1 s ! j \<and> beta2 s' ! j = beta2 s ! j"
proof -
  from IDS_approx_round_InrD[OF assms(1)] obtain arm s1 f' F' G' B' where
    up: "update_approx arm (sample_reward e t arm) (beta1 s ! arm, beta2 s ! arm)
              (st_X s) (st_f s) (st_F s) (st_G s) (st_B s) = Inr (f', F', G', B')"
    and t: "t < length (arm_sequence s)" and seq: "arm_sequence s' = (arm_sequence s)[t := arm]"
    and b: "beta1 s' = (beta1 s)[arm := py_trunc (real_of_int (beta1 s ! arm) + sample_reward e t arm)]"
       "beta2 s' = (beta2 s)[arm := py_trunc (real_of_int (beta2 s ! arm) + (1 - sample_reward e t arm))]"
    and g: "st_f s' = f'" "st_F s' = F'" "st_G s' = G'" "st_B s' = B'"
    by blast
  have "arm_sequence s' ! t = arm" using t seq by simp
  then have j: "j \<noteq> arm" using assms(2) by simp
  show ?thesis
    using update_approx_frame[OF up j] j by (simp add: g b)
qed

text \<open>
  The states in the middle of a run: a run of \<open>T\<close> rounds that returns has passed, for every
  \<open>t \<le> T\<close>, through the state after the rounds \<open>0, ..., t - 1\<close>.
\<close>

lemma IDS_approx_prefix_states:
  assumes "IDS_approx e obj T N_steps prior1 prior2 = Inr s'" "t \<le> T"
  shows "\<exists>s0 s. IDS_approx_init obj T N_steps prior1 prior2 = Inr s0
           \<and> run_rounds (IDS_approx_round e N_steps) [0..<t] s0 = Inr s
           \<and> run_rounds (IDS_approx_round e N_steps) [t..<T] s = Inr s'"
proof -
  from assms(1) obtain s0 where i: "IDS_approx_init obj T N_steps prior1 prior2 = Inr s0"
    and r: "run_rounds (IDS_approx_round e N_steps) [0..<T] s0 = Inr s'"
    by (auto simp: IDS_approx_def split: sum.splits)
  from run_rounds_split[OF assms(2) r] i show ?thesis by blast
qed

lemma sample_prefix_states:
  assumes "run_rounds (sample_round e M VIDS) [0..<T] (sample_init e obj T M) = Inr s'" "t \<le> T"
  shows "\<exists>s. run_rounds (sample_round e M VIDS) [0..<t] (sample_init e obj T M) = Inr s
           \<and> run_rounds (sample_round e M VIDS) [t..<T] s = Inr s'"
  using run_rounds_split[OF assms(2,1)] by blast

lemma computeIDS_entries:
  assumes "computeIDS e t obj Maap p_a thetas M VIDS = Inr r" "a < nb_arms obj" "ap < nb_arms obj"
  shows "res_Maap r ! ap ! a = nan_to_num_mean (draws_where thetas ap a)
       \<and> res_p_a r ! a = real (length (draws_where thetas a a)) / real M"
proof -
  let ?K = "nb_arms obj"
  from computeIDS_InrD(1)[OF assms(1)] assms(2)
  have sh: "?K \<le> length Maap" "\<forall>i<?K. ?K \<le> length (Maap ! i)" "?K \<le> length p_a"
    unfolding computeIDS_raises_None by auto
  have l: "computeIDS_loop ?K M thetas (Maap, p_a) = (res_Maap r, res_p_a r)"
    using computeIDS_InrD(2)[OF assms(1)] by simp
  show ?thesis
    using computeIDS_loop_entries(3)[OF sh l assms(3,2)] computeIDS_loop_entries(4)[OF sh l assms(2)]
    by simp
qed

lemma sample_round_calls_computeIDS:
  assumes "\<not> flag (self s)" "np_max (st_p_a s) = Inr m0" "m0 < threshold (self s)"
    and "sample_round e M VIDS t s = Inr s'"
  shows "\<exists>r. computeIDS e t (self s) (st_Maap s) (st_p_a s) (st_thetas s) M VIDS = Inr r
           \<and> st_Maap s' = res_Maap r \<and> st_p_a s' = res_p_a r \<and> self s' = res_self r
           \<and> arm_sequence s' ! t = res_arm r \<and> \<not> flag (self s')"
proof -
  from sample_round_InrD[OF assms(4)] obtain arm s1 where
    ch: "sample_choose e M VIDS t s = Inr (arm, s1)"
    and st: "self s' = self s1" "st_p_a s' = st_p_a s1" "st_Maap s' = st_Maap s1"
      "t < length (arm_sequence s)" "arm_sequence s' = (arm_sequence s)[t := arm]"
    by blast
  from sample_choose_unlocked[OF assms(1) ch] assms(2,3)
  obtain r where r: "computeIDS e t (self s) (st_Maap s) (st_p_a s) (st_thetas s) M VIDS = Inr r"
    "arm = res_arm r" "self s1 = res_self r" "st_Maap s1 = res_Maap r" "st_p_a s1 = res_p_a r"
    "\<not> flag (self s1)"
    by auto
  show ?thesis using r st by auto
qed

lemma sample_round_sets_flag:
  assumes "\<not> flag (self s)" "np_max (st_p_a s) = Inr m" "threshold (self s) \<le> m"
    and "sample_round e M VIDS t s = Inr s'"
  shows "flag (self s') \<and> Some (arm_sequence s' ! t) = optimal_arm (self s)"
proof -
  from sample_round_InrD[OF assms(4)] obtain arm s1 where
    ch: "sample_choose e M VIDS t s = Inr (arm, s1)"
    and st: "self s' = self s1" "t < length (arm_sequence s)"
      "arm_sequence s' = (arm_sequence s)[t := arm]"
    by blast
  from sample_choose_unlocked[OF assms(1) ch] assms(2,3)
  have "flag (self s1)" "optimal_arm (self s) = Some arm" by auto
  then show ?thesis using st by simp
qed

section \<open>The example run of the grid variant\<close>

lemma replicate_2: "replicate 2 x = [x, x]"
  by (simp add: numeral_eq_Suc)

lemma replicate_3: "replicate 3 x = [x, x, x]"
  by (simp add: numeral_eq_Suc)

lemma replicate_4: "replicate 4 x = [x, x, x, x]"
  by (simp add: numeral_eq_Suc)

lemma exA_init: "IDS_approx_init (BetaBernoulliMAB 2) 4 2 [1, 1] [1, 1] = Inr exA0"
  by (simp add: IDS_approx_init_def BetaBernoulliMAB_def init_lists_def ex2_init exA0_def
        replicate_2 replicate_4)

lemma exA_up1:
  "update_approx 1 1 (2, 1) [1/2, 1] [[1, 1], [1, 2]] [[1/2, 1], [1/4, 1]] [[1/4, 3/4], [1/8, 1/2]] [1, 1/2]
    = Inr ([[1, 1], [3/4, 3]], [[1/2, 1], [1/8, 1]], [[1/4, 3/4], [1/12, 2/3]], [1, 1/3])"
  by code_simp

lemma exA_up2:
  "update_approx 1 1 (3, 1) [1/2, 1] [[1, 1], [3/4, 3]] [[1/2, 1], [1/8, 1]] [[1/4, 3/4], [1/12, 2/3]] [1, 1/3]
    = Inr ([[1, 1], [1/2, 4]], [[1/2, 1], [1/16, 1]], [[1/4, 3/4], [3/64, 3/4]], [1, 1/4])"
  by code_simp

lemma exA_up3:
  "update_approx 1 1 (4, 1) [1/2, 1] [[1, 1], [1/2, 4]] [[1/2, 1], [1/16, 1]] [[1/4, 3/4], [3/64, 3/4]] [1, 1/4]
    = Inr ([[1, 1], [5/16, 5]], [[1/2, 1], [1/32, 1]], [[1/4, 3/4], [1/40, 4/5]], [1, 1/5])"
  by code_simp

lemma exA_argmax: "np_argmax [5/8, 5/4 :: real] = 1"
  by code_simp

lemma py_trunc_int [simp]: "py_trunc (real_of_int k) = k"
  by (simp add: py_trunc_def)

lemma exA_round0: "IDS_approx_round env_one 2 0 exA0 = Inr exA1"
  by (simp add: IDS_approx_round_def IDS_approx_choose_def exA0_def exA1_def env_one_def np_max_def
        IR_approx_Inr ex2_p_star0 update_lists_def Let_def ex2_update[unfolded One_nat_def]
        py_trunc_def)

lemma exA_round1: "IDS_approx_round env_one 2 1 exA1 = Inr exA2"
  by (simp add: IDS_approx_round_def IDS_approx_choose_def exA1_def exA2_def env_one_def np_max_def
        IR_approx_Inr ex2_p_star update_lists_def Let_def exA_up1[unfolded One_nat_def]
        py_trunc_def)

lemma exA_round2: "IDS_approx_round env_one 2 2 exA2 = Inr exA3"
  by (simp add: IDS_approx_round_def IDS_approx_choose_def exA2_def exA3_def env_one_def np_max_def
        exA_argmax update_lists_def Let_def exA_up2[unfolded One_nat_def]
        py_trunc_def)

lemma exA_round3: "IDS_approx_round env_one 2 3 exA3 = Inr exA4"
  by (simp add: IDS_approx_round_def IDS_approx_choose_def exA3_def exA4_def env_one_def
        update_lists_def Let_def exA_up3[unfolded One_nat_def]
        py_trunc_def)

lemma upt_0_3: "[0..<3] = [0, 1, 2]"
  by (simp add: numeral_eq_Suc)

lemma upt_0_4: "[0..<4] = [0, 1, 2, 3]"
  by (simp add: numeral_eq_Suc)

lemma exA_run3: "run_rounds (IDS_approx_round env_one 2) [0..<3] exA0 = Inr exA3"
  unfolding upt_0_3 by (simp add: exA_round0 exA_round1[unfolded One_nat_def] exA_round2)

lemma exA_run4: "run_rounds (IDS_approx_round env_one 2) [0..<4] exA0 = Inr exA4"
  unfolding upt_0_4 by (simp add: exA_round0 exA_round1[unfolded One_nat_def] exA_round2 exA_round3)

lemma exA_run: "IDS_approx env_one (BetaBernoulliMAB 2) 4 2 [1, 1] [1, 1] = Inr exA4"
  by (simp add: IDS_approx_def exA_init exA_run4)

lemma exB_init: "IDS_approx_init (self exA4) 1 2 [1, 1] [1, 1] = Inr exB0"
  by (simp add: IDS_approx_init_def init_lists_def ex2_init exA4_def exB0_def replicate_2)

lemma exB_round0: "IDS_approx_round env_zero 2 0 exB0 = Inr exB1"
  by (simp add: IDS_approx_round_def IDS_approx_choose_def exB0_def exB1_def env_zero_def
        update_lists_def Let_def ex2_update[unfolded One_nat_def] py_trunc_def)

lemma exB_run: "IDS_approx env_zero (self exA4) 1 2 [1, 1] [1, 1] = Inr exB1"
  unfolding IDS_approx_def exB_init sum.case by (simp add: exB_round0)

lemma exC_init: "IDS_approx_init (BetaBernoulliMAB 2) 1 2 [1, 1] [1, 1] = Inr exC0"
  by (simp add: IDS_approx_init_def BetaBernoulliMAB_def init_lists_def ex2_init exC0_def replicate_2)

lemma exC_up:
  "update_approx 0 0 (1, 1) [1/2, 1] [[1, 1], [1, 1]] [[1/2, 1], [1/2, 1]] [[1/4, 3/4], [1/4, 3/4]] [1, 1]
    = Inr ([[1, 0], [1, 1]], [[3/4, 1], [1/2, 1]], [[1/8, 1/2], [1/4, 3/4]], [1/2, 1])"
  by code_simp

lemma exC_round0: "IDS_approx_round env_zero 2 0 exC0 = Inr exC1"
  by (simp add: IDS_approx_round_def IDS_approx_choose_def exC0_def exC1_def env_zero_def np_max_def
        IR_approx_Inr ex2_p_star0 update_lists_def Let_def exC_up py_trunc_def)

lemma exC_run: "IDS_approx env_zero (BetaBernoulliMAB 2) 1 2 [1, 1] [1, 1] = Inr exC1"
  unfolding IDS_approx_def exC_init sum.case by (simp add: exC_round0)

lemma IDS_approx_init_self:
  assumes "IDS_approx_init obj T N_steps prior1 prior2 = Inr s0"
  shows "self s0 = obj \<and> est_calls s0 = 0 \<and> length (arm_sequence s0) = T"
  using assms by (auto simp: IDS_approx_init_def init_lists_def split: sum.splits prod.splits)

lemma sample_init_self:
  "self (sample_init e obj T M) = obj \<and> est_calls (sample_init e obj T M) = 0
   \<and> length (arm_sequence (sample_init e obj T M)) = T"
  by (simp add: sample_init_def init_lists_def)

lemma IDS_approx_locked_run:
  assumes "flag obj" "IDS_approx e obj T N_steps prior1 prior2 = Inr s'"
  shows "self s' = obj \<and> est_calls s' = 0 \<and> (\<forall>r<T. Some (arm_sequence s' ! r) = optimal_arm obj)"
proof -
  from assms(2) obtain s0 where i: "IDS_approx_init obj T N_steps prior1 prior2 = Inr s0"
    and r: "run_rounds (IDS_approx_round e N_steps) [0..<T] s0 = Inr s'"
    by (auto simp: IDS_approx_def split: sum.splits)
  note s0 = IDS_approx_init_self[OF i]
  have f: "flag (self s0)" using s0 assms(1) by simp
  from run_rounds_locked[of "IDS_approx_round e N_steps", OF IDS_approx_round_locked f r] s0
  show ?thesis by simp
qed

lemma sample_locked_run:
  assumes "flag obj" "run_rounds (sample_round e M VIDS) [0..<T] (sample_init e obj T M) = Inr s'"
  shows "self s' = obj \<and> est_calls s' = 0 \<and> (\<forall>r<T. Some (arm_sequence s' ! r) = optimal_arm obj)"
proof -
  note s0 = sample_init_self[of e obj T M]
  have f: "flag (self (sample_init e obj T M))" using s0 assms(1) by simp
  from run_rounds_locked[of "sample_round e M VIDS", OF sample_round_locked f assms(2)] s0
  show ?thesis by simp
qed

section \<open>The example run of the sampling variant\<close>

lemma exS_loop:
  "computeIDS_loop 2 100 [beta_draws env_one 0 0 1 1 100, beta_draws env_one 0 1 1 1 100]
      ([[0, 0], [0, 0]], [0, 0]) = ([[1/2, 1/8], [1/4, 1/4]], [99/100, 1/100])"
  by code_simp

lemma exS_argmax: "np_argmax [99/100, 1/100 :: real] = 0"
  by code_simp


lemma upt_0_2: "[0..<2] = [0, 1]"
  by (simp add: numeral_eq_Suc)

lemma exS_init: "sample_init env_one (BetaBernoulliMAB 2) 3 100 = exS0"
  by (simp add: sample_init_def BetaBernoulliMAB_def init_lists_def exS0_def replicate_2 replicate_3
        upt_0_2)

lemma env_one_simps:
  "sample_reward env_one t arm = (if arm = 1 then 1 else 0)"
  "IDSAction env_one t delta g = 1"
  "rd_argmax env_one t v = 1"
  by (simp_all add: env_one_def)

lemma env_zero_simps:
  "sample_reward env_zero t arm = (if arm = 1 then 1 else 0)"
  "IDSAction env_zero t delta g = 0"
  "rd_argmax env_zero t v = 0"
  by (simp_all add: env_zero_def)

lemma exS_computeIDS:
  "computeIDS env_one 0 \<lparr>nb_arms = 2, flag = False, optimal_arm = None, threshold = 99 / 100\<rparr>
      [[0, 0], [0, 0]] [0, 0] [beta_draws env_one 0 0 1 1 100, beta_draws env_one 0 1 1 1 100] 100 False
    = Inr \<lparr>res_arm = 0, res_p_a = [99/100, 1/100], res_Maap = [[1/2, 1/8], [1/4, 1/4]],
           res_self = \<lparr>nb_arms = 2, flag = False, optimal_arm = Some 0, threshold = 99 / 100\<rparr>,
           res_ratio = None\<rparr>"
  by (simp add: computeIDS_def computeIDS_raises_def exS_loop[unfolded One_nat_def] np_max_def exS_argmax
           upt_0_2 Let_def)

lemma exS_round0: "sample_round env_one 100 False 0 exS0 = Inr exS1"
  by (simp add: sample_round_def sample_choose_def exS0_def exS1_def np_max_def
        exS_computeIDS[unfolded One_nat_def] update_lists_def Let_def env_one_simps)

lemma exS_round1: "sample_round env_one 100 False 1 exS1 = Inr exS2"
  by (simp add: sample_round_def sample_choose_def exS1_def exS2_def np_max_def
        update_lists_def Let_def env_one_simps numeral_2_eq_2[symmetric])

lemma exS_round2: "sample_round env_one 100 False 2 exS2 = Inr exS3"
  by (simp add: sample_round_def sample_choose_def exS2_def exS3_def
        update_lists_def Let_def env_one_simps)

lemma exS_run2: "run_rounds (sample_round env_one 100 False) [0..<2] exS0 = Inr exS2"
  unfolding upt_0_2 by (simp add: exS_round0 exS_round1[unfolded One_nat_def])

lemma exS_run3: "run_rounds (sample_round env_one 100 False) [0..<3] exS0 = Inr exS3"
  unfolding upt_0_3 by (simp add: exS_round0 exS_round1[unfolded One_nat_def] exS_round2)

lemma exB_sample_run:
  "\<exists>s'. run_rounds (sample_round env_zero 1 VIDS) [0..<1] (sample_init env_zero (self exA4) 1 1) = Inr s'"
  by (simp add: sample_init_def init_lists_def sample_round_def sample_choose_def exA4_def
        update_lists_def Let_def replicate_2 upt_0_2)

lemma ex0_theta_hat: "theta_hat [[], []] = []"
  by (simp add: theta_hat_def)

lemma exW_theta_hat: "theta_hat [[1/2, 1/8], [1/4, 1/2], [1/8, 1/16]] = [0, 1]"
  by code_simp

text \<open>
  A call whose \<open>thetas\<close> has more rows than the object has arms: in the variance mode
  \<open>delta\<close> has three entries and \<open>v\<close> two, and \<^verbatim>\<open>-delta ** 2 / v\<close> raises.
\<close>

lemma exM_loop:
  "computeIDS_loop 2 2 [[1/2, 1/8], [1/4, 1/2], [1/8, 1/16]] ([[0, 0], [0, 0]], [0, 0])
     = ([[1/2, 1/8], [1/4, 1/2]], [1/2, 1/2])"
  by code_simp

lemma computeIDS_row_mismatch:
  "computeIDS env_one 0 (BetaBernoulliMAB 2) [[0, 0], [0, 0]] [0, 0]
     [[1/2, 1/8], [1/4, 1/2], [1/8, 1/16]] 2 True = Inl ValueError"
  by (simp add: computeIDS_def computeIDS_raises_def BetaBernoulliMAB_def
        exM_loop[unfolded One_nat_def] np_max_def np_broadcast_def Let_def upt_0_2)

section \<open>Claim C1: the incremental update against a fresh initialisation\<close>

text \<open>
  C1, as amended. For integer Beta parameters \<open>\<ge> 1\<close> (all that rewards in \<open>{0, 1}\<close> reach from
  the \<open>Beta(1, 1)\<close> prior), every grid size \<open>N \<ge> 1\<close>, every arm and every reward \<open>y\<close> in
  \<open>{0, 1}\<close>: \<open>init_approx\<close> succeeds, \<open>update_approx\<close> on its result succeeds, and a
  from-scratch \<open>init_approx\<close> with the parameters \<open>(alpha + y, beta + 1 - y)\<close> of the pulled
  arm returns the same grid \<open>X\<close>, the same density array \<open>f\<close> and the same constants \<open>B\<close> as
  the update, exactly in real arithmetic. Nothing is stated about \<open>F\<close> and \<open>G\<close>.
\<close>

theorem update_approx_f_B_match_init:
  assumes N: "0 < N" and arm: "arm < K" and len: "length b1 = K" "length b2 = K"
    and pos: "\<forall>a \<in> set b1. 1 \<le> a" "\<forall>b \<in> set b2. 1 \<le> b" and y: "y = 0 \<or> y = 1"
  shows "\<exists>X f F G B f' F' G' B' F0 G0.
      init_approx K N b1 b2 = Inr (X, f, F, G, B) \<and>
      update_approx arm (real_of_int y) (b1 ! arm, b2 ! arm) X f F G B = Inr (f', F', G', B') \<and>
      init_approx K N (b1[arm := b1 ! arm + y]) (b2[arm := b2 ! arm + 1 - y]) = Inr (X, f', F0, G0, B')"
proof -
  have K: "0 < K" "K \<le> length b1" "K \<le> length b2" using arm len by simp_all
  have pa: "1 \<le> b1 ! arm" "1 \<le> b2 ! arm" using pos arm len by simp_all
  let ?b1' = "b1[arm := b1 ! arm + y]" and ?b2' = "b2[arm := b2 ! arm + 1 - y]"
  have pos': "\<forall>a \<in> set ?b1'. 1 \<le> a" "\<forall>b \<in> set ?b2'. 1 \<le> b"
    using pos pa y set_update_subset_insert[of b1 arm] set_update_subset_insert[of b2 arm]
    by fastforce+
  have K': "K \<le> length ?b1'" "K \<le> length ?b2'" using len by simp_all
  define X where "X = linspace (1 / real N) 1 N"
  define f where "f = map (\<lambda>i. grid_f_row N (b1 ! i) (b2 ! i)) [0..<K]"
  define F where "F = map (\<lambda>i. cumsum (map (\<lambda>v. v / real N) (grid_f_row N (b1 ! i) (b2 ! i)))) [0..<K]"
  define G where "G = map (\<lambda>i. cumsum (map2 (\<lambda>v x. v * x / real N) (grid_f_row N (b1 ! i) (b2 ! i))
                               (linspace (1 / real N) 1 N))) [0..<K]"
  define B where "B = map2 Beta_fact b1 b2"
  define f' where "f' = map (\<lambda>i. grid_f_row N (?b1' ! i) (?b2' ! i)) [0..<K]"
  define B' where "B' = map2 Beta_fact ?b1' ?b2'"
  have e1: "init_approx K N b1 b2 = Inr (X, f, F, G, B)"
    unfolding X_def f_def F_def G_def B_def by (rule init_approx_Inr[OF K N pos])
  have "\<exists>F0 G0. init_approx K N ?b1' ?b2' = Inr (X, f', F0, G0, B')"
    unfolding X_def f'_def B'_def init_approx_Inr[OF K(1) K' N pos'] by blast
  then obtain F0 G0 where e3: "init_approx K N ?b1' ?b2' = Inr (X, f', F0, G0, B')" by blast
  have u: "arm < length f" "arm < length F" "arm < length G" "arm < length B"
    using arm len by (simp_all add: f_def F_def G_def B_def)
  have fe: "f[arm := map2 (\<lambda>x v. (x * real_of_int y + (1 - x) * (1 - real_of_int y))
                              * real_of_int (b1 ! arm + b2 ! arm)
                              / (real_of_int (b1 ! arm) * real_of_int y
                                 + real_of_int (b2 ! arm) * (1 - real_of_int y)) * v) X (f ! arm)] = f'"
    unfolding f_def f'_def X_def by (rule f_rows_update[OF arm len pa y])
  have Be: "B[arm := B ! arm
                    * (real_of_int (b1 ! arm) * real_of_int y + real_of_int (b2 ! arm) * (1 - real_of_int y))
                    / real_of_int (b1 ! arm + b2 ! arm)] = B'"
    unfolding B_def B'_def by (rule B_rows_update[OF arm len pa y])
  have "\<exists>F' G'. update_approx arm (real_of_int y) (b1 ! arm, b2 ! arm) X f F G B = Inr (f', F', G', B')"
    unfolding update_approx_Inr[OF u] fe Be by blast
  then obtain F' G' where
    e2: "update_approx arm (real_of_int y) (b1 ! arm, b2 ! arm) X f F G B = Inr (f', F', G', B')"
    by blast
  show ?thesis using e1 e2 e3 by blast
qed

text \<open>
  The claim as the specification words it (all four arrays within the relative tolerance
  \<open>1e-6\<close> for \<open>N \<ge> 100\<close>) fails for one arm with the uniform prior, \<open>N = 100\<close> and reward \<open>1\<close>:
  at the first grid point the updated \<open>F\<close> is \<open>1/10000\<close>, the freshly initialised one
  \<open>2/10000\<close>.
\<close>

theorem update_matches_init_counterexample:
  "\<not> update_matches_init (1 / 10 ^ 6) 1 100 [1] [1] 0 1"
proof
  assume A: "update_matches_init (1 / 10 ^ 6) 1 100 [1] [1] 0 1"
  define X where "X = linspace (1 / real 100) 1 100"
  define F where "F = map (\<lambda>i. cumsum (map (\<lambda>v. v / real 100) (grid_f_row 100 ([1] ! i) ([1] ! i)))) [0..<1]"
  define F0 where "F0 = map (\<lambda>i. cumsum (map (\<lambda>v. v / real 100) (grid_f_row 100 ([2] ! i) ([1] ! i)))) [0..<1]"
  obtain f G B where i1: "init_approx 1 100 [1] [1] = Inr (X, f, F, G, B)" and B: "B = map2 Beta_fact [1] [1]"
      and lf: "length f = 1" and lG: "length G = 1"
    using init_approx_Inr[of 1 "[1]" "[1]" 100] unfolding X_def F_def by simp
  obtain f0 G0 B0 where i2: "init_approx 1 100 [2] [1] = Inr (X, f0, F0, G0, B0)"
    using init_approx_Inr[of 1 "[2]" "[1]" 100] unfolding X_def F0_def by simp
  have u: "0 < length f" "0 < length F" "0 < length G" "0 < length B"
    using lf lG by (simp_all add: F_def B)
  have p: "[1::int] ! 0 = 1" "[1::int][0 := 1 + 1] = [2]" "[1::int][0 := 1 + 1 - 1] = [1]"
    by simp_all
  note up = update_approx_Inr[OF u, of "real_of_int 1" 1 1 X]
  from A have "list_all2 (rel_close (1 / 10 ^ 6))
        (F[0 := map2 (\<lambda>x v. v + (if real_of_int 1 = 0 then 1 else - 1) * x powi 1 * (1 - x) powi 1
                 / (real_of_int 1 * real_of_int 1 + real_of_int 1 * (1 - real_of_int 1)) / B ! 0) X (F ! 0)]) F0"
    unfolding update_matches_init_def p i1 sum.case prod.case up i2 by blast
  then have "rel_close (1 / 10 ^ 6)
        (map2 (\<lambda>x v. v + (if real_of_int 1 = 0 then 1 else - 1) * x powi 1 * (1 - x) powi 1
                 / (real_of_int 1 * real_of_int 1 + real_of_int 1 * (1 - real_of_int 1)) / B ! 0) X (F ! 0))
        (F0 ! 0)"
    by (simp add: F_def F0_def)
  then have "\<bar>map2 (\<lambda>x v. v + (if real_of_int 1 = 0 then 1 else - 1) * x powi 1 * (1 - x) powi 1
                 / (real_of_int 1 * real_of_int 1 + real_of_int 1 * (1 - real_of_int 1)) / B ! 0) X (F ! 0) ! 0
             - F0 ! 0 ! 0\<bar> \<le> 1 / 10 ^ 6 * \<bar>F0 ! 0 ! 0\<bar>"
    unfolding rel_close_def by (rule list_all2_nthD) (simp add: X_def F_def)
  moreover have "X ! 0 = 1 / 100" unfolding X_def using linspace_grid_nth[of 0 100] by simp
  moreover have "F ! 0 ! 0 = 1 / 100"
    using init_F_nth0[of 100 1 1] grid_f_row_nth[of 0 100 1 1]
    by (simp add: F_def Beta_fact_1_1)
  moreover have "F0 ! 0 ! 0 = 2 / 10000"
    using init_F_nth0[of 100 2 1] grid_f_row_nth[of 0 100 2 1]
    by (simp add: F0_def Beta_fact_2_1)
  moreover have "B ! 0 = 1" by (simp add: B Beta_fact_1_1)
  moreover have "length X = 100" "length (F ! 0) = 100" by (simp_all add: X_def F_def)
  ultimately show False by simp
qed

text \<open>The amended statement for two arms with the uniform prior on a grid of four points.\<close>

theorem update_approx_f_B_match_init_witness:
  "((0::nat) < 4 \<and> (0::nat) < 2 \<and> length [1, 1::int] = 2 \<and> length [1, 1::int] = 2
    \<and> list_all (\<lambda>a. 1 \<le> a) [1, 1::int] \<and> list_all (\<lambda>b. 1 \<le> b) [1, 1::int] \<and> ((1::int) = 0 \<or> (1::int) = 1))
   \<and> (\<exists>X f F G B f' F' G' B' F0 G0.
      init_approx 2 4 [1, 1] [1, 1] = Inr (X, f, F, G, B) \<and>
      update_approx 0 (real_of_int 1) ([1, 1] ! 0, [1, 1] ! 0) X f F G B = Inr (f', F', G', B') \<and>
      init_approx 2 4 ([1, 1][0 := [1, 1] ! 0 + 1]) ([1, 1][0 := [1, 1] ! 0 + 1 - 1]) = Inr (X, f', F0, G0, B'))"
proof (rule conjI)
  have h1: "(0::nat) < 4" and h2: "(0::nat) < 2" and h3: "length [1, 1::int] = 2"
    and h5: "\<forall>a \<in> set [1, 1::int]. 1 \<le> a" and h7: "(1::int) = 0 \<or> (1::int) = 1"
    by simp_all
  show "(0::nat) < 4 \<and> (0::nat) < 2 \<and> length [1, 1::int] = 2 \<and> length [1, 1::int] = 2
    \<and> list_all (\<lambda>a. 1 \<le> a) [1, 1::int] \<and> list_all (\<lambda>b. 1 \<le> b) [1, 1::int] \<and> ((1::int) = 0 \<or> (1::int) = 1)"
    by simp
  show "\<exists>X f F G B f' F' G' B' F0 G0.
      init_approx 2 4 [1, 1] [1, 1] = Inr (X, f, F, G, B) \<and>
      update_approx 0 (real_of_int 1) ([1, 1] ! 0, [1, 1] ! 0) X f F G B = Inr (f', F', G', B') \<and>
      init_approx 2 4 ([1, 1][0 := [1, 1] ! 0 + 1]) ([1, 1][0 := [1, 1] ! 0 + 1 - 1]) = Inr (X, f', F0, G0, B')"
    by (rule update_approx_f_B_match_init[OF h1 h2 h3 h3 h5 h5 h7])
qed

section \<open>Claim C2: the reference mean of the information gain\<close>

text \<open>
  C2 holds of the specification's formula \<open>g_spec\<close> and not of the code. In
  \<^verbatim>\<open>sum_log\<close> the arrays \<open>b1\<close>, \<open>b2\<close> are indexed along the row, so the logarithms of the
  term for \<open>a'\<close> compare \<open>maap[a, a']\<close> with the posterior mean of \<open>a'\<close>, not of \<open>a\<close>
  (\<^verbatim>\<open>computeIDS\<close> uses \<^verbatim>\<open>mu[a]\<close> at the same place; the code's formula is lemma
  \<open>IR_approx_gain_formula\<close>). At the grid state that two arms
  on two grid points reach after arm 1 paid reward 1, with parameters \<open>b1 = [1, 2]\<close>,
  \<open>b2 = [1, 1]\<close>, the value \<open>g[0]\<close> returned by \<open>IR_approx\<close> is strictly smaller than the
  information gain of arm 0 that the claim describes.
\<close>

theorem IR_approx_gain_reference_mean:
  "init_approx 2 2 [1, 1] [1, 1] =
     Inr ([1/2, 1], [[1, 1], [1, 1]], [[1/2, 1], [1/2, 1]], [[1/4, 3/4], [1/4, 3/4]], [1, 1])
   \<and> update_approx 1 1 (1, 1) [1/2, 1] [[1, 1], [1, 1]] [[1/2, 1], [1/2, 1]]
        [[1/4, 3/4], [1/4, 3/4]] [1, 1] =
     Inr ([[1, 1], [1, 2]], [[1/2, 1], [1/4, 1]], [[1/4, 3/4], [1/8, 1/2]], [1, 1/2])
   \<and> (\<exists>delta g.
        IR_approx 2 2 [1, 2] [1, 1] [1/2, 1] [[1, 1], [1, 2]] [[1/2, 1], [1/4, 1]]
            [[1/4, 3/4], [1/8, 1/2]]
          = Inr (delta, g, [5/8, 5/4], [[9/10, 7/10], [1/2, 9/10]])
        \<and> g ! 0 = 5/8 * (9/10 * ln (9/5) + 1/10 * ln (1/5))
                   + 5/4 * (7/10 * ln (21/20) + 3/10 * ln (9/10))
        \<and> g_spec 2 [1, 2] [1, 1] [5/8, 5/4] [[9/10, 7/10], [1/2, 9/10]] 0
             = 5/8 * (9/10 * ln (9/5) + 1/10 * ln (1/5))
               + 5/4 * (7/10 * ln (7/5) + 3/10 * ln (3/5))
        \<and> g ! 0 < g_spec 2 [1, 2] [1, 1] [5/8, 5/4] [[9/10, 7/10], [1/2, 9/10]] 0)"
proof -
  have l: "2 \<le> length [[1, 1], [1, 2::real]]" "2 \<le> length [[1/2, 1], [1/4, 1::real]]"
    "2 \<le> length [[1/4, 3/4], [1/8, 1/2::real]]" by simp_all
  define g where "g = map (\<lambda>arm. np_inner [5/8, 5/4]
                        (sum_log ([[9/10, 7/10], [1/2, 9/10]] ! arm) [1, 2] [1, 1])) [0..<2]"
  have g0: "g ! 0 = 5/8 * (9/10 * ln (9/5) + 1/10 * ln (1/5))
                   + 5/4 * (7/10 * ln (21/20) + 3/10 * ln (9/10))"
    unfolding g_def using ex2_g_code by simp
  have "\<exists>delta. IR_approx 2 2 [1, 2] [1, 1] [1/2, 1] [[1, 1], [1, 2]] [[1/2, 1], [1/4, 1]]
            [[1/4, 3/4], [1/8, 1/2]]
          = Inr (delta, g, [5/8, 5/4], [[9/10, 7/10], [1/2, 9/10]])"
    unfolding IR_approx_Inr[OF l] ex2_p_star ex2_maap g_def by blast
  then show ?thesis
    using g0 ex2_g_spec ex2_ln_gap ex2_init ex2_update by auto
qed

section \<open>Claim C3: the probability of being optimal as a grid integral\<close>

text \<open>
  C3. For every number of arms and every grid state whose rows have the grid's length \<open>N\<close>:
  the value \<open>p_star[a]\<close> returned by \<open>IR_approx\<close> is the sum of the diagonal row
  \<open>prod_F1[a, a]\<close>, which is \<open>1/N\<close> times the sum over the grid points of \<open>f[a]\<close> times the
  product of \<open>F[a'']\<close> over exactly the arms \<open>a''\<close> different from \<open>a\<close>; the accumulated row
  \<open>prod_F1[a, a']\<close> holds the product of \<open>F[a'']\<close> over exactly the arms different from both
  \<open>a\<close> and \<open>a'\<close> (times \<open>f[a]/N\<close>), which on the diagonal is the product over all arms other
  than \<open>a\<close>.
\<close>

theorem IR_approx_p_star_integral:
  assumes "IR_approx K N b1 b2 X f F G = Inr (delta, g, p_star, maap)"
    and "\<forall>app<K. length (f ! app) = N \<and> length (F ! app) = N"
    and "a < K"
  shows "p_star ! a = sum_list (prod_F1 K N f F a a)
       \<and> p_star ! a =
           1 / real N * (\<Sum>i<N. f ! a ! i * (\<Prod>app \<in> {app. app < K \<and> app \<noteq> a}. F ! app ! i))
       \<and> (\<forall>ap i. i < N \<longrightarrow> prod_F1 K N f F a ap ! i =
           (\<Prod>app \<in> {app. app < K \<and> app \<noteq> a \<and> app \<noteq> ap}. F ! app ! i) * (f ! a ! i / real N))
       \<and> (\<forall>i<N. prod_F1 K N f F a a ! i =
           (\<Prod>app \<in> {app. app < K \<and> app \<noteq> a}. F ! app ! i) * (f ! a ! i / real N))"
proof -
  have shape: "\<forall>app<K. length (F ! app) = N" and fa: "length (f ! a) = N"
    using assms(2,3) by simp_all
  have set_eq: "{app. app < K \<and> app \<noteq> a \<and> app \<noteq> a} = {app. app < K \<and> app \<noteq> a}" by auto
  have ps: "p_star = IR_p_star K N f F" using IR_approx_InrD[OF assms(1)] by simp
  have 1: "p_star ! a = sum_list (prod_F1 K N f F a a)"
    unfolding ps using assms(3) by (simp add: IR_p_star_def)
  have 2: "p_star ! a =
           1 / real N * (\<Sum>i<N. f ! a ! i * (\<Prod>app \<in> {app. app < K \<and> app \<noteq> a}. F ! app ! i))"
    unfolding ps by (rule IR_p_star_nth[OF shape fa assms(3)])
  have 3: "\<forall>ap i. i < N \<longrightarrow> prod_F1 K N f F a ap ! i =
           (\<Prod>app \<in> {app. app < K \<and> app \<noteq> a \<and> app \<noteq> ap}. F ! app ! i) * (f ! a ! i / real N)"
    using prod_F1_nth[OF shape fa] by blast
  have 4: "\<forall>i<N. prod_F1 K N f F a a ! i =
           (\<Prod>app \<in> {app. app < K \<and> app \<noteq> a}. F ! app ! i) * (f ! a ! i / real N)"
    using prod_F1_nth[OF shape fa, of _ a] by (simp add: set_eq)
  from 1 2 3 4 show ?thesis by blast
qed

text \<open>The statement at two arms on two grid points, for \<open>a = 0\<close>, \<open>a' = 1\<close> and the last point.\<close>

theorem IR_approx_p_star_integral_witness:
  "IR_p_star 2 2 [[1, 1], [1, 2]] [[1/2, 1], [1/4, 1]] ! 0 =
           1 / real 2 * (\<Sum>i<2. [[1, 1], [1, 2]] ! 0 ! i *
                (\<Prod>app \<in> {app. app < 2 \<and> app \<noteq> 0}. [[1/2, 1], [1/4, 1]] ! app ! i))
       \<and> prod_F1 2 2 [[1, 1], [1, 2]] [[1/2, 1], [1/4, 1]] 0 1 ! 1 =
           (\<Prod>app \<in> {app. app < 2 \<and> app \<noteq> 0 \<and> app \<noteq> 1}. [[1/2, 1], [1/4, 1]] ! app ! 1)
             * ([[1, 1], [1, 2]] ! 0 ! 1 / real 2)
       \<and> prod_F1 2 2 [[1, 1], [1, 2]] [[1/2, 1], [1/4, 1]] 0 0 ! 1 =
           (\<Prod>app \<in> {app. app < 2 \<and> app \<noteq> 0}. [[1/2, 1], [1/4, 1]] ! app ! 1)
             * ([[1, 1], [1, 2]] ! 0 ! 1 / real 2)"
proof -
  have l: "2 \<le> length [[1, 1], [1, 2::real]]" "2 \<le> length [[1/2, 1], [1/4, 1::real]]"
    "2 \<le> length [[1/4, 3/4], [1/8, 1/2::real]]" by simp_all
  have shape: "\<forall>app<2. length ([[1, 1], [1, 2::real]] ! app) = 2
                   \<and> length ([[1/2, 1], [1/4, 1::real]] ! app) = 2"
    by (simp add: less_Suc_eq numeral_2_eq_2)
  have a: "(0::nat) < 2" and i: "(1::nat) < 2" by simp_all
  note T = IR_approx_p_star_integral[OF IR_approx_Inr[OF l, of 2 "[1, 2]" "[1, 1]" "[1/2, 1]"] shape a]
  from T i show ?thesis by blast
qed

section \<open>Claim C4: the boundary terms of the update\<close>

text \<open>
  C4, as amended. With the parameters \<open>(alpha, beta) = (beta[0], beta[1])\<close> of the pulled arm
  before the update, the correction that \<open>update_approx\<close> adds to \<open>F[arm]\<close> and the correction
  it subtracts from \<open>F[arm]\<close> in the update of \<open>G[arm]\<close> are both proportional to
  \<^verbatim>\<open>X**alpha * (1-X)**beta\<close>: the grid points raised to the first parameter times one minus
  the grid points raised to the second. The factors are \<open>\<plusminus>1 / adjust / B[arm]\<close> and
  \<open>1 / alpha / B[arm]\<close>.
\<close>

theorem update_approx_boundary_terms:
  assumes "arm < length f" "arm < length F" "arm < length G" "arm < length B"
    and "length (F ! arm) = length X" and "alpha \<noteq> 0" "alpha + beta \<noteq> 0"
  shows "F_correction arm y (alpha, beta) X f F G B =
           map (\<lambda>w. (if y = 0 then 1 else - 1) / (real_of_int alpha * y + real_of_int beta * (1 - y))
                      / B ! arm * w) (boundary_profile X alpha beta)
       \<and> G_correction arm y (alpha, beta) X f F G B =
           map (\<lambda>w. 1 / real_of_int alpha / B ! arm * w) (boundary_profile X alpha beta)
       \<and> proportional_to (F_correction arm y (alpha, beta) X f F G B) (boundary_profile X alpha beta)
       \<and> proportional_to (G_correction arm y (alpha, beta) X f F G B) (boundary_profile X alpha beta)"
  unfolding proportional_to_def F_correction_eq[OF assms(1-5)] G_correction_eq[OF assms]
  by blast

text \<open>
  The claim as the specification words it, with the exponents exchanged
  (\<^verbatim>\<open>X**beta * (1-X)**alpha\<close>), fails: on the grid of four points for one arm with
  parameters \<open>(2, 1)\<close> and reward \<open>1\<close>, the correction of \<open>F\<close> is not proportional to that array.
\<close>

theorem boundary_terms_swapped_counterexample:
  "init_approx 1 4 [2] [1] =
     Inr ([1/4, 1/2, 3/4, 1], [[1/2, 1, 3/2, 2]], [[1/8, 3/8, 3/4, 5/4]],
          [[1/32, 5/32, 7/16, 15/16]], [1/2])
   \<and> \<not> proportional_to
        (F_correction 0 1 (2, 1) [1/4, 1/2, 3/4, 1] [[1/2, 1, 3/2, 2]] [[1/8, 3/8, 3/4, 5/4]]
            [[1/32, 5/32, 7/16, 15/16]] [1/2])
        (boundary_profile [1/4, 1/2, 3/4, 1] 1 2)"
proof -
  have "\<not> (\<exists>c::real. [- 3/64, - 1/8, - 9/64, 0] = map (\<lambda>x. c * x) [9/64, 1/8, 3/64, 0])"
    by auto
  then show ?thesis
    unfolding proportional_to_def ex4_F_correction ex4_profile_swapped using ex4_init by blast
qed

text \<open>The amended statement at the same grid state, where every hypothesis holds.\<close>

theorem update_approx_boundary_terms_witness:
  "((0::nat) < length [[1/2, 1, 3/2, 2::real]] \<and> (0::nat) < length [[1/8, 3/8, 3/4, 5/4::real]]
   \<and> (0::nat) < length [[1/32, 5/32, 7/16, 15/16::real]] \<and> (0::nat) < length [1/2::real]
   \<and> length ([[1/8, 3/8, 3/4, 5/4]] ! 0) = length [1/4, 1/2, 3/4, 1::real]
   \<and> (2::int) \<noteq> 0 \<and> (2::int) + 1 \<noteq> 0)
   \<and> (proportional_to
        (F_correction 0 1 (2, 1) [1/4, 1/2, 3/4, 1] [[1/2, 1, 3/2, 2]] [[1/8, 3/8, 3/4, 5/4]]
            [[1/32, 5/32, 7/16, 15/16]] [1/2])
        (boundary_profile [1/4, 1/2, 3/4, 1] 2 1)
   \<and> proportional_to
        (G_correction 0 1 (2, 1) [1/4, 1/2, 3/4, 1] [[1/2, 1, 3/2, 2]] [[1/8, 3/8, 3/4, 5/4]]
            [[1/32, 5/32, 7/16, 15/16]] [1/2])
        (boundary_profile [1/4, 1/2, 3/4, 1] 2 1))"
proof (rule conjI)
  show h: "(0::nat) < length [[1/2, 1, 3/2, 2::real]] \<and> (0::nat) < length [[1/8, 3/8, 3/4, 5/4::real]]
   \<and> (0::nat) < length [[1/32, 5/32, 7/16, 15/16::real]] \<and> (0::nat) < length [1/2::real]
   \<and> length ([[1/8, 3/8, 3/4, 5/4]] ! 0) = length [1/4, 1/2, 3/4, 1::real]
   \<and> (2::int) \<noteq> 0 \<and> (2::int) + 1 \<noteq> 0"
    by simp
  have h1: "(0::nat) < length [[1/2, 1, 3/2, 2::real]]" and h2: "(0::nat) < length [[1/8, 3/8, 3/4, 5/4::real]]"
    and h3: "(0::nat) < length [[1/32, 5/32, 7/16, 15/16::real]]" and h4: "(0::nat) < length [1/2::real]"
    and h5: "length ([[1/8, 3/8, 3/4, 5/4]] ! 0) = length [1/4, 1/2, 3/4, 1::real]"
    and h6: "(2::int) \<noteq> 0" and h7: "(2::int) + 1 \<noteq> 0"
    by simp_all
  from update_approx_boundary_terms[OF h1 h2 h3 h4 h5 h6 h7, of 1]
  show "proportional_to
        (F_correction 0 1 (2, 1) [1/4, 1/2, 3/4, 1] [[1/2, 1, 3/2, 2]] [[1/8, 3/8, 3/4, 5/4]]
            [[1/32, 5/32, 7/16, 15/16]] [1/2])
        (boundary_profile [1/4, 1/2, 3/4, 1] 2 1)
   \<and> proportional_to
        (G_correction 0 1 (2, 1) [1/4, 1/2, 3/4, 1] [[1/2, 1, 3/2, 2]] [[1/8, 3/8, 3/4, 5/4]]
            [[1/32, 5/32, 7/16, 15/16]] [1/2])
        (boundary_profile [1/4, 1/2, 3/4, 1] 2 1)"
    by blast
qed

section \<open>Claim C5: what triggers the lock-in\<close>

text \<open>
  C5, as amended. The threshold of an object is \<open>0.99\<close> from \<open>__init__\<close> on and no round
  changes it. In the grid variant an unlocked round of \<open>IDS_approx\<close> sets the flag exactly
  when the maximum of \<open>p_star\<close> is strictly greater than \<open>0.99\<close>. In the sampling variant an
  unlocked round of \<open>IDS_sample\<close> or \<open>VIDS_sample\<close> sets the flag exactly when the maximum of
  \<open>p_a\<close> is greater than or equal to \<open>0.99\<close>: a maximum of exactly \<open>0.99\<close> does lock.
\<close>

theorem lock_in_trigger:
  "threshold (BetaBernoulliMAB K) = 99 / 100
   \<and> (IDS_approx_round e N_steps t a = Inr a' \<longrightarrow> threshold (self a') = threshold (self a))
   \<and> (sample_round e M VIDS t s = Inr s' \<longrightarrow> threshold (self s') = threshold (self s))
   \<and> (\<not> flag (self a) \<and> threshold (self a) = 99 / 100 \<and> np_max (st_p_star a) = Inr m
        \<and> IDS_approx_round e N_steps t a = Inr a'
      \<longrightarrow> (flag (self a') \<longleftrightarrow> 99 / 100 < m))
   \<and> (\<not> flag (self s) \<and> threshold (self s) = 99 / 100 \<and> np_max (st_p_a s) = Inr m'
        \<and> sample_round e M VIDS t s = Inr s'
      \<longrightarrow> (flag (self s') \<longleftrightarrow> 99 / 100 \<le> m'))"
  using IDS_approx_round_trigger[of a m e N_steps t a'] sample_round_trigger[of s m' e M VIDS t s']
    IDS_approx_round_threshold[of e N_steps t a a'] sample_round_threshold[of e M VIDS t s s']
  by (auto simp: BetaBernoulliMAB_def)

text \<open>
  The claim as the specification words it (strict comparison in both variants) fails in the
  sampling variant: after the first round of \<open>IDS_sample\<close> in \<open>env_one\<close> with \<open>M = 100\<close> the
  maximum of \<open>p_a\<close> is exactly \<open>99/100\<close>, which does not exceed the threshold, and the next
  round sets the flag.
\<close>

theorem lock_in_at_threshold_counterexample:
  "run_rounds (sample_round env_one 100 False) [0..<1] (sample_init env_one (BetaBernoulliMAB 2) 3 100)
     = Inr exS1
   \<and> \<not> flag (self exS1) \<and> np_max (st_p_a exS1) = Inr (99 / 100)
   \<and> \<not> (99 / 100 < (99 / 100 :: real))
   \<and> sample_round env_one 100 False 1 exS1 = Inr exS2 \<and> flag (self exS2)"
  using exS_round0 exS_round1
  by (simp add: exS_init exS1_def exS2_def np_max_def)

text \<open>The amended statement at the locking rounds of the two example runs.\<close>

theorem lock_in_trigger_witness:
  "(\<not> flag (self exA2) \<and> threshold (self exA2) = 99 / 100 \<and> np_max (st_p_star exA2) = Inr (5 / 4)
    \<and> IDS_approx_round env_one 2 2 exA2 = Inr exA3
    \<and> \<not> flag (self exS1) \<and> threshold (self exS1) = 99 / 100 \<and> np_max (st_p_a exS1) = Inr (99 / 100)
    \<and> sample_round env_one 100 False 1 exS1 = Inr exS2)
   \<and> (threshold (self exA3) = threshold (self exA2)
    \<and> threshold (self exS2) = threshold (self exS1)
    \<and> (flag (self exA3) \<longleftrightarrow> 99 / 100 < (5 / 4 :: real))
    \<and> (flag (self exS2) \<longleftrightarrow> 99 / 100 \<le> (99 / 100 :: real)))"
proof (rule conjI)
  show h: "\<not> flag (self exA2) \<and> threshold (self exA2) = 99 / 100 \<and> np_max (st_p_star exA2) = Inr (5 / 4)
    \<and> IDS_approx_round env_one 2 2 exA2 = Inr exA3
    \<and> \<not> flag (self exS1) \<and> threshold (self exS1) = 99 / 100 \<and> np_max (st_p_a exS1) = Inr (99 / 100)
    \<and> sample_round env_one 100 False 1 exS1 = Inr exS2"
    using exA_round2 exS_round1 by (simp add: exA2_def exS1_def np_max_def)
  from lock_in_trigger[where e = env_one and N_steps = 2 and t = 2 and a = exA2 and a' = exA3
      and m = "5 / 4"]
    lock_in_trigger[where e = env_one and M = 100 and VIDS = False and t = 1 and s = exS1
      and s' = exS2 and m' = "99 / 100"] h
  show "threshold (self exA3) = threshold (self exA2)
    \<and> threshold (self exS2) = threshold (self exS1)
    \<and> (flag (self exA3) \<longleftrightarrow> 99 / 100 < (5 / 4 :: real))
    \<and> (flag (self exS2) \<longleftrightarrow> 99 / 100 \<le> (99 / 100 :: real))"
    by blast
qed

section \<open>Claim C6: lock-in is monotone\<close>

text \<open>
  C6. In a run of \<open>IDS_approx\<close>, and in a run of \<open>IDS_sample\<close> or \<open>VIDS_sample\<close> (the rounds
  \<open>sample_round\<close> with either value of \<open>VIDS\<close>): if the flag is true after \<open>t\<close> rounds, then
  after any larger number \<open>t'\<close> of rounds the flag is still true, \<open>optimal_arm\<close> is the same
  index, every round from \<open>t\<close> up to \<open>t'\<close> has pulled exactly \<open>optimal_arm\<close>, and the estimator
  (\<open>IR_approx\<close>, \<open>computeIDS\<close>) has not been called again. The start state is arbitrary, so it
  may be the one the entry point builds; the states after \<open>t\<close> rounds are those a run of
  \<open>T \<ge> t\<close> rounds passes through.
\<close>

theorem lock_in_monotone:
  assumes "t \<le> t'"
  shows "(run_rounds (IDS_approx_round e N_steps) [0..<t] a0 = Inr a \<and> flag (self a)
            \<and> run_rounds (IDS_approx_round e N_steps) [0..<t'] a0 = Inr a'
          \<longrightarrow> flag (self a') \<and> optimal_arm (self a') = optimal_arm (self a)
              \<and> est_calls a' = est_calls a
              \<and> (\<forall>r. t \<le> r \<and> r < t' \<longrightarrow> Some (arm_sequence a' ! r) = optimal_arm (self a)))
       \<and> (run_rounds (sample_round e M VIDS) [0..<t] s0 = Inr s \<and> flag (self s)
            \<and> run_rounds (sample_round e M VIDS) [0..<t'] s0 = Inr s'
          \<longrightarrow> flag (self s') \<and> optimal_arm (self s') = optimal_arm (self s)
              \<and> est_calls s' = est_calls s
              \<and> (\<forall>r. t \<le> r \<and> r < t' \<longrightarrow> Some (arm_sequence s' ! r) = optimal_arm (self s)))"
proof (rule conjI; rule impI)
  assume h: "run_rounds (IDS_approx_round e N_steps) [0..<t] a0 = Inr a \<and> flag (self a)
            \<and> run_rounds (IDS_approx_round e N_steps) [0..<t'] a0 = Inr a'"
  show "flag (self a') \<and> optimal_arm (self a') = optimal_arm (self a)
              \<and> est_calls a' = est_calls a
              \<and> (\<forall>r. t \<le> r \<and> r < t' \<longrightarrow> Some (arm_sequence a' ! r) = optimal_arm (self a))"
    by (rule lock_in_from[of "IDS_approx_round e N_steps", OF IDS_approx_round_locked assms])
       (use h in auto)
next
  assume h: "run_rounds (sample_round e M VIDS) [0..<t] s0 = Inr s \<and> flag (self s)
            \<and> run_rounds (sample_round e M VIDS) [0..<t'] s0 = Inr s'"
  show "flag (self s') \<and> optimal_arm (self s') = optimal_arm (self s)
              \<and> est_calls s' = est_calls s
              \<and> (\<forall>r. t \<le> r \<and> r < t' \<longrightarrow> Some (arm_sequence s' ! r) = optimal_arm (self s))"
    by (rule lock_in_from[of "sample_round e M VIDS", OF sample_round_locked assms])
       (use h in auto)
qed

text \<open>The statement on the two example runs, from the round that locks to the next one.\<close>

theorem lock_in_monotone_witness:
  "((3::nat) \<le> 4 \<and> run_rounds (IDS_approx_round env_one 2) [0..<3] exA0 = Inr exA3 \<and> flag (self exA3)
    \<and> run_rounds (IDS_approx_round env_one 2) [0..<4] exA0 = Inr exA4
    \<and> (2::nat) \<le> 3 \<and> run_rounds (sample_round env_one 100 False) [0..<2] exS0 = Inr exS2
    \<and> flag (self exS2)
    \<and> run_rounds (sample_round env_one 100 False) [0..<3] exS0 = Inr exS3)
   \<and> (flag (self exA4) \<and> optimal_arm (self exA4) = optimal_arm (self exA3)
    \<and> est_calls exA4 = est_calls exA3 \<and> Some (arm_sequence exA4 ! 3) = optimal_arm (self exA3)
    \<and> flag (self exS3) \<and> optimal_arm (self exS3) = optimal_arm (self exS2)
    \<and> est_calls exS3 = est_calls exS2 \<and> Some (arm_sequence exS3 ! 2) = optimal_arm (self exS2))"
proof (rule conjI)
  show h: "(3::nat) \<le> 4 \<and> run_rounds (IDS_approx_round env_one 2) [0..<3] exA0 = Inr exA3 \<and> flag (self exA3)
    \<and> run_rounds (IDS_approx_round env_one 2) [0..<4] exA0 = Inr exA4
    \<and> (2::nat) \<le> 3 \<and> run_rounds (sample_round env_one 100 False) [0..<2] exS0 = Inr exS2
    \<and> flag (self exS2)
    \<and> run_rounds (sample_round env_one 100 False) [0..<3] exS0 = Inr exS3"
    using exA_run3 exA_run4 exS_run2 exS_run3 by (simp add: exA3_def exS2_def)
  have g: "(3::nat) \<le> 4" and s: "(2::nat) \<le> 3" by simp_all
  have r3: "(3::nat) \<le> 3 \<and> 3 < (4::nat)" and r2: "(2::nat) \<le> 2 \<and> 2 < (3::nat)" by simp_all
  from lock_in_monotone[OF g, where e = env_one and N_steps = 2 and ?a0.0 = exA0 and a = exA3
      and a' = exA4] h r3
  have 1: "flag (self exA4) \<and> optimal_arm (self exA4) = optimal_arm (self exA3)
    \<and> est_calls exA4 = est_calls exA3 \<and> Some (arm_sequence exA4 ! 3) = optimal_arm (self exA3)"
    by blast
  from lock_in_monotone[OF s, where e = env_one and M = 100 and VIDS = False and ?s0.0 = exS0
      and s = exS2 and s' = exS3] h r2
  have 2: "flag (self exS3) \<and> optimal_arm (self exS3) = optimal_arm (self exS2)
    \<and> est_calls exS3 = est_calls exS2 \<and> Some (arm_sequence exS3 ! 2) = optimal_arm (self exS2)"
    by blast
  from 1 2 show "flag (self exA4) \<and> optimal_arm (self exA4) = optimal_arm (self exA3)
    \<and> est_calls exA4 = est_calls exA3 \<and> Some (arm_sequence exA4 ! 3) = optimal_arm (self exA3)
    \<and> flag (self exS3) \<and> optimal_arm (self exS3) = optimal_arm (self exS2)
    \<and> est_calls exS3 = est_calls exS2 \<and> Some (arm_sequence exS3 ! 2) = optimal_arm (self exS2)"
    by blast
qed

section \<open>Claim C7: a round touches only the pulled arm\<close>

text \<open>
  C7. A round of \<open>IDS_approx\<close> that pulls arm \<open>k\<close> (the entry of the arm sequence at that
  round) leaves the rows \<open>f[j]\<close>, \<open>F[j]\<close>, \<open>G[j]\<close>, the constant \<open>B[j]\<close> and the parameters
  \<open>beta1[j]\<close>, \<open>beta2[j]\<close> unchanged for every \<open>j \<noteq> k\<close>; so does every successful call of
  \<open>update_approx\<close> for the arms other than its argument; and on the uniform prior of at least
  two arms, \<open>update_approx\<close> for arm 0 and reward 1 succeeds and leaves \<open>f[1]\<close>, \<open>F[1]\<close>,
  \<open>G[1]\<close>, \<open>B[1]\<close> unchanged.
\<close>

theorem pulled_arm_frame:
  "(IDS_approx_round e N_steps t s = Inr s' \<and> j \<noteq> arm_sequence s' ! t
      \<longrightarrow> st_f s' ! j = st_f s ! j \<and> st_F s' ! j = st_F s ! j \<and> st_G s' ! j = st_G s ! j
          \<and> st_B s' ! j = st_B s ! j \<and> beta1 s' ! j = beta1 s ! j \<and> beta2 s' ! j = beta2 s ! j)
   \<and> (update_approx arm y beta X f F G B = Inr (f', F', G', B') \<and> j \<noteq> arm
      \<longrightarrow> f' ! j = f ! j \<and> F' ! j = F ! j \<and> G' ! j = G ! j \<and> B' ! j = B ! j)
   \<and> (2 \<le> K \<and> init_approx K N (replicate K 1) (replicate K 1) = Inr (X0, f0, F0, G0, B0)
      \<longrightarrow> (\<exists>f1 F1 G1 B1. update_approx 0 1 (1, 1) X0 f0 F0 G0 B0 = Inr (f1, F1, G1, B1)
             \<and> f1 ! 1 = f0 ! 1 \<and> F1 ! 1 = F0 ! 1 \<and> G1 ! 1 = G0 ! 1 \<and> B1 ! 1 = B0 ! 1))"
proof -
  have A: "IDS_approx_round e N_steps t s = Inr s' \<and> j \<noteq> arm_sequence s' ! t
      \<longrightarrow> st_f s' ! j = st_f s ! j \<and> st_F s' ! j = st_F s ! j \<and> st_G s' ! j = st_G s ! j
          \<and> st_B s' ! j = st_B s ! j \<and> beta1 s' ! j = beta1 s ! j \<and> beta2 s' ! j = beta2 s ! j"
    using IDS_approx_round_frame by blast
  have B: "update_approx arm y beta X f F G B = Inr (f', F', G', B') \<and> j \<noteq> arm
      \<longrightarrow> f' ! j = f ! j \<and> F' ! j = F ! j \<and> G' ! j = G ! j \<and> B' ! j = B ! j"
    using update_approx_frame by blast
  have C: "2 \<le> K \<and> init_approx K N (replicate K 1) (replicate K 1) = Inr (X0, f0, F0, G0, B0)
      \<longrightarrow> (\<exists>f1 F1 G1 B1. update_approx 0 1 (1, 1) X0 f0 F0 G0 B0 = Inr (f1, F1, G1, B1)
             \<and> f1 ! 1 = f0 ! 1 \<and> F1 ! 1 = F0 ! 1 \<and> G1 ! 1 = G0 ! 1 \<and> B1 ! 1 = B0 ! 1)"
  proof
    assume h: "2 \<le> K \<and> init_approx K N (replicate K 1) (replicate K 1) = Inr (X0, f0, F0, G0, B0)"
    then have len: "0 < length f0" "0 < length F0" "0 < length G0" "0 < length B0"
      using init_approx_InrD[of K N "replicate K 1" "replicate K 1" X0 f0 F0 G0 B0] by auto
    obtain f1 F1 G1 B1 where up: "update_approx 0 1 (1, 1) X0 f0 F0 G0 B0 = Inr (f1, F1, G1, B1)"
      using update_approx_Inr[OF len] by blast
    have "(1::nat) \<noteq> 0" by simp
    from update_approx_frame[OF up this] up
    show "\<exists>f1 F1 G1 B1. update_approx 0 1 (1, 1) X0 f0 F0 G0 B0 = Inr (f1, F1, G1, B1)
               \<and> f1 ! 1 = f0 ! 1 \<and> F1 ! 1 = F0 ! 1 \<and> G1 ! 1 = G0 ! 1 \<and> B1 ! 1 = B0 ! 1"
      by blast
  qed
  from A B C show ?thesis by blast
qed

text \<open>The statement at the first round of the example run, which pulls arm 1.\<close>

theorem pulled_arm_frame_witness:
  "(IDS_approx_round env_one 2 0 exA0 = Inr exA1 \<and> (0::nat) \<noteq> arm_sequence exA1 ! 0
    \<and> update_approx 1 1 (1, 1) [1/2, 1] [[1, 1], [1, 1]] [[1/2, 1], [1/2, 1]]
        [[1/4, 3/4], [1/4, 3/4]] [1, 1] =
       Inr ([[1, 1], [1, 2]], [[1/2, 1], [1/4, 1]], [[1/4, 3/4], [1/8, 1/2]], [1, 1/2])
    \<and> (0::nat) \<noteq> 1 \<and> (2::nat) \<le> 2
    \<and> init_approx 2 2 (replicate 2 1) (replicate 2 1) =
       Inr ([1/2, 1], [[1, 1], [1, 1]], [[1/2, 1], [1/2, 1]], [[1/4, 3/4], [1/4, 3/4]], [1, 1]))
   \<and> (st_f exA1 ! 0 = st_f exA0 ! 0 \<and> st_F exA1 ! 0 = st_F exA0 ! 0 \<and> st_G exA1 ! 0 = st_G exA0 ! 0
    \<and> st_B exA1 ! 0 = st_B exA0 ! 0 \<and> beta1 exA1 ! 0 = beta1 exA0 ! 0 \<and> beta2 exA1 ! 0 = beta2 exA0 ! 0
    \<and> [[1, 1], [1, 2 :: real]] ! 0 = [[1, 1], [1, 1]] ! 0
    \<and> (\<exists>f1 F1 G1 B1. update_approx 0 1 (1, 1) [1/2, 1] [[1, 1], [1, 1]] [[1/2, 1], [1/2, 1]]
            [[1/4, 3/4], [1/4, 3/4]] [1, 1] = Inr (f1, F1, G1, B1)
          \<and> f1 ! 1 = [[1, 1], [1, 1]] ! 1 \<and> F1 ! 1 = [[1/2, 1], [1/2, 1]] ! 1
          \<and> G1 ! 1 = [[1/4, 3/4], [1/4, 3/4]] ! 1 \<and> B1 ! 1 = [1, 1] ! 1))"
proof (rule conjI)
  show h: "IDS_approx_round env_one 2 0 exA0 = Inr exA1 \<and> (0::nat) \<noteq> arm_sequence exA1 ! 0
    \<and> update_approx 1 1 (1, 1) [1/2, 1] [[1, 1], [1, 1]] [[1/2, 1], [1/2, 1]]
        [[1/4, 3/4], [1/4, 3/4]] [1, 1] =
       Inr ([[1, 1], [1, 2]], [[1/2, 1], [1/4, 1]], [[1/4, 3/4], [1/8, 1/2]], [1, 1/2])
    \<and> (0::nat) \<noteq> 1 \<and> (2::nat) \<le> 2
    \<and> init_approx 2 2 (replicate 2 1) (replicate 2 1) =
       Inr ([1/2, 1], [[1, 1], [1, 1]], [[1/2, 1], [1/2, 1]], [[1/4, 3/4], [1/4, 3/4]], [1, 1])"
    using exA_round0 ex2_update ex2_init by (simp add: exA1_def replicate_2)
  from pulled_arm_frame[where e = env_one and N_steps = 2 and t = 0 and s = exA0 and s' = exA1
      and j = 0 and arm = 1 and y = 1 and beta = "(1, 1)" and X = "[1/2, 1]"
      and f = "[[1, 1], [1, 1]]" and F = "[[1/2, 1], [1/2, 1]]" and G = "[[1/4, 3/4], [1/4, 3/4]]"
      and B = "[1, 1]" and f' = "[[1, 1], [1, 2]]" and F' = "[[1/2, 1], [1/4, 1]]"
      and G' = "[[1/4, 3/4], [1/8, 1/2]]" and B' = "[1, 1/2]" and K = 2 and N = 2
      and ?X0.0 = "[1/2, 1]" and ?f0.0 = "[[1, 1], [1, 1]]" and ?F0.0 = "[[1/2, 1], [1/2, 1]]"
      and ?G0.0 = "[[1/4, 3/4], [1/4, 3/4]]" and ?B0.0 = "[1, 1]"] h
  show "st_f exA1 ! 0 = st_f exA0 ! 0 \<and> st_F exA1 ! 0 = st_F exA0 ! 0 \<and> st_G exA1 ! 0 = st_G exA0 ! 0
    \<and> st_B exA1 ! 0 = st_B exA0 ! 0 \<and> beta1 exA1 ! 0 = beta1 exA0 ! 0 \<and> beta2 exA1 ! 0 = beta2 exA0 ! 0
    \<and> [[1, 1], [1, 2 :: real]] ! 0 = [[1, 1], [1, 1]] ! 0
    \<and> (\<exists>f1 F1 G1 B1. update_approx 0 1 (1, 1) [1/2, 1] [[1, 1], [1, 1]] [[1/2, 1], [1/2, 1]]
            [[1/4, 3/4], [1/4, 3/4]] [1, 1] = Inr (f1, F1, G1, B1)
          \<and> f1 ! 1 = [[1, 1], [1, 1]] ! 1 \<and> F1 ! 1 = [[1/2, 1], [1/2, 1]] ! 1
          \<and> G1 ! 1 = [[1/4, 3/4], [1/4, 3/4]] ! 1 \<and> B1 ! 1 = [1, 1] ! 1)"
    by blast
qed

section \<open>Claim C8: the lock-in state across runs\<close>

text \<open>
  C8, as amended. The lock-in state is a pair of fields of the object. \<open>__init__\<close> creates
  it unlocked; an entry point (\<open>IDS_approx\<close>, \<open>IDS_sample\<close>, \<open>VIDS_sample\<close>) starts its rounds
  with the object as it is handed over and never resets the two fields. So the first run on
  a new object begins unlocked, and a run on an object that is already locked keeps the
  object as it is, never calls the estimator and pulls the object's \<open>optimal_arm\<close> in every
  round.
\<close>

theorem lock_in_state_of_object:
  "\<not> flag (BetaBernoulliMAB K) \<and> optimal_arm (BetaBernoulliMAB K) = None
   \<and> (IDS_approx_init obj T N_steps prior1 prior2 = Inr a0 \<longrightarrow> self a0 = obj)
   \<and> self (sample_init e obj T M) = obj
   \<and> (flag obj \<and> IDS_approx e obj T N_steps prior1 prior2 = Inr a'
        \<longrightarrow> self a' = obj \<and> est_calls a' = 0
            \<and> (\<forall>r<T. Some (arm_sequence a' ! r) = optimal_arm obj))
   \<and> (flag obj \<and> IDS_sample e obj T M = Inr s'
        \<longrightarrow> self s' = obj \<and> est_calls s' = 0
            \<and> (\<forall>r<T. Some (arm_sequence s' ! r) = optimal_arm obj))
   \<and> (flag obj \<and> VIDS_sample e obj T M VIDS = Inr v'
        \<longrightarrow> self v' = obj \<and> est_calls v' = 0
            \<and> (\<forall>r<T. Some (arm_sequence v' ! r) = optimal_arm obj))"
proof -
  have 1: "\<not> flag (BetaBernoulliMAB K) \<and> optimal_arm (BetaBernoulliMAB K) = None"
    by (simp add: BetaBernoulliMAB_def)
  have 2: "IDS_approx_init obj T N_steps prior1 prior2 = Inr a0 \<longrightarrow> self a0 = obj"
    using IDS_approx_init_self by blast
  have 3: "self (sample_init e obj T M) = obj" by (simp add: sample_init_self)
  have 4: "flag obj \<and> IDS_approx e obj T N_steps prior1 prior2 = Inr a'
        \<longrightarrow> self a' = obj \<and> est_calls a' = 0
            \<and> (\<forall>r<T. Some (arm_sequence a' ! r) = optimal_arm obj)"
    using IDS_approx_locked_run by blast
  have 5: "flag obj \<and> IDS_sample e obj T M = Inr s'
        \<longrightarrow> self s' = obj \<and> est_calls s' = 0
            \<and> (\<forall>r<T. Some (arm_sequence s' ! r) = optimal_arm obj)"
    unfolding IDS_sample_def using sample_locked_run by blast
  have 6: "flag obj \<and> VIDS_sample e obj T M VIDS = Inr v'
        \<longrightarrow> self v' = obj \<and> est_calls v' = 0
            \<and> (\<forall>r<T. Some (arm_sequence v' ! r) = optimal_arm obj)"
    unfolding VIDS_sample_def using sample_locked_run by blast
  from 1 2 3 4 5 6 show ?thesis by blast
qed

text \<open>
  The claim as the specification words it fails: the run of four rounds in \<open>env_one\<close> on a
  new object of two arms locks on arm 1; a second run on the same object, of one round in
  \<open>env_zero\<close>, begins locked and pulls arm 1 without calling the estimator, where the same
  run on a new object calls the estimator and pulls arm 0.
\<close>

theorem lock_in_persists_counterexample:
  "IDS_approx env_one (BetaBernoulliMAB 2) 4 2 [1, 1] [1, 1] = Inr exA4
   \<and> flag (self exA4) \<and> optimal_arm (self exA4) = Some 1
   \<and> IDS_approx_init (self exA4) 1 2 [1, 1] [1, 1] = Inr exB0 \<and> flag (self exB0)
   \<and> IDS_approx env_zero (self exA4) 1 2 [1, 1] [1, 1] = Inr exB1
   \<and> arm_sequence exB1 = [1] \<and> est_calls exB1 = 0
   \<and> IDS_approx env_zero (BetaBernoulliMAB 2) 1 2 [1, 1] [1, 1] = Inr exC1
   \<and> arm_sequence exC1 = [0] \<and> est_calls exC1 = 1"
  using exA_run exB_init exB_run exC_run
  by (simp add: exA4_def exB0_def exB1_def exC1_def)

text \<open>The amended statement for runs of one round on the object the example run has locked.\<close>

theorem lock_in_state_of_object_witness:
  "(IDS_approx_init (self exA4) 1 2 [1, 1] [1, 1] = Inr exB0 \<and> flag (self exA4)
    \<and> IDS_approx env_zero (self exA4) 1 2 [1, 1] [1, 1] = Inr exB1)
   \<and> (self exB0 = self exA4 \<and> self exB1 = self exA4 \<and> est_calls exB1 = 0
    \<and> Some (arm_sequence exB1 ! 0) = optimal_arm (self exA4))
   \<and> (\<exists>s'. IDS_sample env_zero (self exA4) 1 1 = Inr s' \<and> self s' = self exA4
          \<and> est_calls s' = 0 \<and> Some (arm_sequence s' ! 0) = optimal_arm (self exA4))
   \<and> (\<exists>v'. VIDS_sample env_zero (self exA4) 1 1 True = Inr v' \<and> self v' = self exA4
          \<and> est_calls v' = 0 \<and> Some (arm_sequence v' ! 0) = optimal_arm (self exA4))"
proof -
  have h: "IDS_approx_init (self exA4) 1 2 [1, 1] [1, 1] = Inr exB0 \<and> flag (self exA4)
    \<and> IDS_approx env_zero (self exA4) 1 2 [1, 1] [1, 1] = Inr exB1"
    using exB_init exB_run by (simp add: exA4_def)
  have r: "(0::nat) < 1" by simp
  obtain s' where s': "IDS_sample env_zero (self exA4) 1 1 = Inr s'"
    unfolding IDS_sample_def using exB_sample_run by blast
  obtain v' where v': "VIDS_sample env_zero (self exA4) 1 1 True = Inr v'"
    unfolding VIDS_sample_def using exB_sample_run by blast
  note T = lock_in_state_of_object[where obj = "self exA4" and T = 1 and N_steps = 2
      and ?prior1.0 = "[1, 1]" and ?prior2.0 = "[1, 1]" and ?a0.0 = exB0 and a' = exB1
      and e = env_zero and M = 1 and s' = s' and v' = v' and VIDS = True]
  have 1: "self exB0 = self exA4 \<and> self exB1 = self exA4 \<and> est_calls exB1 = 0
    \<and> Some (arm_sequence exB1 ! 0) = optimal_arm (self exA4)"
    using T h r by blast
  have 2: "self s' = self exA4 \<and> est_calls s' = 0 \<and> Some (arm_sequence s' ! 0) = optimal_arm (self exA4)"
    using T h r s' by blast
  have 3: "self v' = self exA4 \<and> est_calls v' = 0 \<and> Some (arm_sequence v' ! 0) = optimal_arm (self exA4)"
    using T h r v' by blast
  from h 1 2 3 s' v' show ?thesis by blast
qed
section \<open>Claim C9: arms that win no draw\<close>

text \<open>
  C9, as amended. Let \<open>computeIDS\<close> be called with \<open>M \<ge> 1\<close> on arrays of the shapes its
  callers pass: \<open>thetas\<close> with exactly \<open>nb_arms\<close> rows, \<open>p_a\<close> with at least \<open>nb_arms\<close>
  entries, \<open>Maap\<close> with at least \<open>nb_arms\<close> rows and columns. For every pair of arms
  \<open>(a', a)\<close> such that no draw index has \<open>a\<close> as its empirically optimal arm, the call returns
  without raising, in either mode; the mean of the empty selection is \<^verbatim>\<open>nan\<close> and
  \<open>Maap[a', a]\<close> is its replacement by \<^verbatim>\<open>nan_to_num\<close>, exactly \<open>0\<close>; and \<open>p_a[a]\<close> is \<open>0\<close>.
  The collaborators \<open>IDSAction\<close> and \<open>rd_argmax\<close> are taken to return.
\<close>

theorem computeIDS_empty_subset:
  assumes "0 < M" and "length thetas = nb_arms obj" "nb_arms obj \<le> length p_a"
    and "nb_arms obj \<le> length Maap" "\<forall>i<nb_arms obj. nb_arms obj \<le> length (Maap ! i)"
    and "a < nb_arms obj" "ap < nb_arms obj"
    and "a \<notin> set (theta_hat thetas)"
  shows "\<exists>r. computeIDS e t obj Maap p_a thetas M VIDS = Inr r
           \<and> np_mean_nan (draws_where thetas ap a) = None
           \<and> res_Maap r ! ap ! a = nan_to_num (np_mean_nan (draws_where thetas ap a))
           \<and> res_Maap r ! ap ! a = 0 \<and> res_p_a r ! a = 0"
proof -
  let ?K = "nb_arms obj"
  have ne: "thetas \<noteq> []" using assms(2,6) by auto
  have rs: "computeIDS_raises ?K Maap p_a thetas M = None"
    unfolding computeIDS_raises_None using assms ne by simp
  obtain Maap' p_a' where l: "computeIDS_loop ?K M thetas (Maap, p_a) = (Maap', p_a')"
    by (cases "computeIDS_loop ?K M thetas (Maap, p_a)")
  note en = computeIDS_loop_entries[OF assms(4,5,3) l]
  have "p_a' \<noteq> []" using en(2) assms(3,6) by auto
  then obtain r where r: "computeIDS e t obj Maap p_a thetas M VIDS = Inr r"
    using computeIDS_Inr[OF rs _ assms(2), of e t VIDS] l by auto
  from computeIDS_InrD(2)[OF r] l have eq: "res_Maap r = Maap'" "res_p_a r = p_a'" by simp_all
  have em: "draws_where thetas ap a = []" "draws_where thetas a a = []"
    using draws_where_empty[OF assms(8)] by simp_all
  have "Maap' ! ap ! a = nan_to_num (np_mean_nan (draws_where thetas ap a))"
    using en(3)[OF assms(7,6)] by (simp add: nan_to_num_mean_def)
  moreover have "p_a' ! a = 0" using en(4)[OF assms(6)] em(2) by simp
  ultimately show ?thesis using r eq em(1) by (simp add: nan_to_num_mean_Nil)
qed

text \<open>
  The claim as the specification words it, for every call, fails when there is no draw at
  all: with \<open>M = 0\<close> no draw index has arm 1 as its optimal arm, and \<open>computeIDS\<close> raises
  \<^verbatim>\<open>ZeroDivisionError\<close> at \<^verbatim>\<open>t.shape[1]/M\<close>; so does \<open>IDS_sample\<close> called with
  \<open>M = 0\<close>.
\<close>

theorem computeIDS_no_draws_counterexample:
  "1 \<notin> set (theta_hat [[], []])
   \<and> computeIDS env_one 0 (BetaBernoulliMAB 2) [[0, 0], [0, 0]] [0, 0] [[], []] 0 False
       = Inl ZeroDivisionError
   \<and> IDS_sample env_one (BetaBernoulliMAB 2) 1 0 = Inl ZeroDivisionError"
  by (simp add: ex0_theta_hat computeIDS_def computeIDS_raises_def BetaBernoulliMAB_def
        IDS_sample_def sample_init_def init_lists_def sample_round_def sample_choose_def
        np_max_def beta_draws_def replicate_2 upt_0_2)

text \<open>
  The amended statement in the variance mode for three arms and two draws, one won by arm 0
  and one by arm 1, at the pair \<open>(0, 2)\<close>.
\<close>

theorem computeIDS_empty_subset_witness:
  "((0::nat) < 2
    \<and> length [[1/2, 1/8], [1/4, 1/2], [1/8, 1/16 :: real]] = nb_arms (BetaBernoulliMAB 3)
    \<and> nb_arms (BetaBernoulliMAB 3) \<le> length [0, 0, 0 :: real]
    \<and> nb_arms (BetaBernoulliMAB 3) \<le> length [[0, 0, 0], [0, 0, 0], [0, 0, 0 :: real]]
    \<and> list_all (\<lambda>row. nb_arms (BetaBernoulliMAB 3) \<le> length row)
          [[0, 0, 0], [0, 0, 0], [0, 0, 0 :: real]]
    \<and> 2 < nb_arms (BetaBernoulliMAB 3) \<and> 0 < nb_arms (BetaBernoulliMAB 3)
    \<and> 2 \<notin> set (theta_hat [[1/2, 1/8], [1/4, 1/2], [1/8, 1/16]]))
   \<and> (\<exists>r. computeIDS env_one 0 (BetaBernoulliMAB 3) [[0, 0, 0], [0, 0, 0], [0, 0, 0]] [0, 0, 0]
            [[1/2, 1/8], [1/4, 1/2], [1/8, 1/16]] 2 True = Inr r
          \<and> np_mean_nan (draws_where [[1/2, 1/8], [1/4, 1/2], [1/8, 1/16]] 0 2) = None
          \<and> res_Maap r ! 0 ! 2 = nan_to_num (np_mean_nan (draws_where [[1/2, 1/8], [1/4, 1/2], [1/8, 1/16]] 0 2))
          \<and> res_Maap r ! 0 ! 2 = 0 \<and> res_p_a r ! 2 = 0)"
proof (rule conjI)
  have h1: "(0::nat) < 2"
    and h2: "length [[1/2, 1/8], [1/4, 1/2], [1/8, 1/16 :: real]] = nb_arms (BetaBernoulliMAB 3)"
    and h3: "nb_arms (BetaBernoulliMAB 3) \<le> length [0, 0, 0 :: real]"
    and h4: "nb_arms (BetaBernoulliMAB 3) \<le> length [[0, 0, 0], [0, 0, 0], [0, 0, 0 :: real]]"
    and h5: "\<forall>i<nb_arms (BetaBernoulliMAB 3).
               nb_arms (BetaBernoulliMAB 3) \<le> length ([[0, 0, 0], [0, 0, 0], [0, 0, 0 :: real]] ! i)"
    and h6: "2 < nb_arms (BetaBernoulliMAB 3)" and h7: "0 < nb_arms (BetaBernoulliMAB 3)"
    and h8: "2 \<notin> set (theta_hat [[1/2, 1/8], [1/4, 1/2], [1/8, 1/16]])"
    by (simp_all add: BetaBernoulliMAB_def exW_theta_hat less_Suc_eq numeral_3_eq_3)
  show "(0::nat) < 2
    \<and> length [[1/2, 1/8], [1/4, 1/2], [1/8, 1/16 :: real]] = nb_arms (BetaBernoulliMAB 3)
    \<and> nb_arms (BetaBernoulliMAB 3) \<le> length [0, 0, 0 :: real]
    \<and> nb_arms (BetaBernoulliMAB 3) \<le> length [[0, 0, 0], [0, 0, 0], [0, 0, 0 :: real]]
    \<and> list_all (\<lambda>row. nb_arms (BetaBernoulliMAB 3) \<le> length row)
          [[0, 0, 0], [0, 0, 0], [0, 0, 0 :: real]]
    \<and> 2 < nb_arms (BetaBernoulliMAB 3) \<and> 0 < nb_arms (BetaBernoulliMAB 3)
    \<and> 2 \<notin> set (theta_hat [[1/2, 1/8], [1/4, 1/2], [1/8, 1/16]])"
    using h8 by (simp add: BetaBernoulliMAB_def)
  show "\<exists>r. computeIDS env_one 0 (BetaBernoulliMAB 3) [[0, 0, 0], [0, 0, 0], [0, 0, 0]] [0, 0, 0]
            [[1/2, 1/8], [1/4, 1/2], [1/8, 1/16]] 2 True = Inr r
          \<and> np_mean_nan (draws_where [[1/2, 1/8], [1/4, 1/2], [1/8, 1/16]] 0 2) = None
          \<and> res_Maap r ! 0 ! 2 = nan_to_num (np_mean_nan (draws_where [[1/2, 1/8], [1/4, 1/2], [1/8, 1/16]] 0 2))
          \<and> res_Maap r ! 0 ! 2 = 0 \<and> res_p_a r ! 2 = 0"
    by (rule computeIDS_empty_subset[OF h1 h2 h3 h4 h5 h6 h7 h8])
qed

section \<open>Claim C10: the side effects of computeIDS\<close>

text \<open>
  C10. A call of \<open>computeIDS\<close> that returns has overwritten its arguments \<open>Maap\<close> and
  \<open>p_a\<close>: they are the result of the double loop, with \<open>Maap[ap, a]\<close> the guarded mean of the
  draws of \<open>ap\<close> where \<open>a\<close> is optimal and \<open>p_a[a]\<close> the fraction of draws won by \<open>a\<close>, for all
  arms. It does not touch the flag. When the maximum of the new \<open>p_a\<close> is at least the
  threshold \<open>0.99\<close>, it sets \<open>optimal_arm\<close> to \<open>argmax(p_a)\<close>, returns that arm and computes
  neither \<open>delta\<close> nor \<open>g\<close>. In the caller, an unlocked round whose \<open>p_a\<close> is below the threshold
  calls \<open>computeIDS\<close> and afterwards holds the overwritten arrays and the object as
  \<open>computeIDS\<close> left it, the flag still false, and has pulled the returned arm; the round
  after a \<open>p_a\<close> with maximum at least the threshold sets the flag and pulls \<open>optimal_arm\<close>.
\<close>

theorem computeIDS_side_effects:
  "(threshold obj = 99 / 100 \<and> computeIDS e t obj Maap p_a thetas M VIDS = Inr r \<longrightarrow>
       (res_Maap r, res_p_a r) = computeIDS_loop (nb_arms obj) M thetas (Maap, p_a)
     \<and> (\<forall>a ap. a < nb_arms obj \<and> ap < nb_arms obj \<longrightarrow>
           res_Maap r ! ap ! a = nan_to_num_mean (draws_where thetas ap a)
         \<and> res_p_a r ! a = real (length (draws_where thetas a a)) / real M)
     \<and> flag (res_self r) = flag obj
     \<and> (\<exists>m. np_max (res_p_a r) = Inr m
           \<and> (99 / 100 \<le> m \<longrightarrow>
                 res_self r = obj\<lparr>optimal_arm := Some (np_argmax (res_p_a r))\<rparr>
               \<and> res_arm r = np_argmax (res_p_a r) \<and> res_ratio r = None)))
   \<and> (\<not> flag (self s) \<and> np_max (st_p_a s) = Inr m0 \<and> m0 < threshold (self s)
        \<and> sample_round e M VIDS t s = Inr s' \<longrightarrow>
       (\<exists>r. computeIDS e t (self s) (st_Maap s) (st_p_a s) (st_thetas s) M VIDS = Inr r
           \<and> st_Maap s' = res_Maap r \<and> st_p_a s' = res_p_a r \<and> self s' = res_self r
           \<and> arm_sequence s' ! t = res_arm r \<and> \<not> flag (self s')))
   \<and> (\<not> flag (self s') \<and> np_max (st_p_a s') = Inr m1 \<and> threshold (self s') \<le> m1
        \<and> sample_round e M VIDS t' s' = Inr s'' \<longrightarrow>
       flag (self s'') \<and> Some (arm_sequence s'' ! t') = optimal_arm (self s'))"
proof -
  have 1: "threshold obj = 99 / 100 \<and> computeIDS e t obj Maap p_a thetas M VIDS = Inr r \<longrightarrow>
       (res_Maap r, res_p_a r) = computeIDS_loop (nb_arms obj) M thetas (Maap, p_a)
     \<and> (\<forall>a ap. a < nb_arms obj \<and> ap < nb_arms obj \<longrightarrow>
           res_Maap r ! ap ! a = nan_to_num_mean (draws_where thetas ap a)
         \<and> res_p_a r ! a = real (length (draws_where thetas a a)) / real M)
     \<and> flag (res_self r) = flag obj
     \<and> (\<exists>m. np_max (res_p_a r) = Inr m
           \<and> (99 / 100 \<le> m \<longrightarrow>
                 res_self r = obj\<lparr>optimal_arm := Some (np_argmax (res_p_a r))\<rparr>
               \<and> res_arm r = np_argmax (res_p_a r) \<and> res_ratio r = None))"
  proof
    assume h: "threshold obj = 99 / 100 \<and> computeIDS e t obj Maap p_a thetas M VIDS = Inr r"
    then have c: "computeIDS e t obj Maap p_a thetas M VIDS = Inr r" and th: "threshold obj = 99 / 100"
      by simp_all
    from computeIDS_InrD(3)[OF c] th
    have m: "\<exists>m. np_max (res_p_a r) = Inr m
           \<and> (99 / 100 \<le> m \<longrightarrow>
                 res_self r = obj\<lparr>optimal_arm := Some (np_argmax (res_p_a r))\<rparr>
               \<and> res_arm r = np_argmax (res_p_a r) \<and> res_ratio r = None)"
      by auto
    show "(res_Maap r, res_p_a r) = computeIDS_loop (nb_arms obj) M thetas (Maap, p_a)
     \<and> (\<forall>a ap. a < nb_arms obj \<and> ap < nb_arms obj \<longrightarrow>
           res_Maap r ! ap ! a = nan_to_num_mean (draws_where thetas ap a)
         \<and> res_p_a r ! a = real (length (draws_where thetas a a)) / real M)
     \<and> flag (res_self r) = flag obj
     \<and> (\<exists>m. np_max (res_p_a r) = Inr m
           \<and> (99 / 100 \<le> m \<longrightarrow>
                 res_self r = obj\<lparr>optimal_arm := Some (np_argmax (res_p_a r))\<rparr>
               \<and> res_arm r = np_argmax (res_p_a r) \<and> res_ratio r = None))"
      using computeIDS_InrD(2,4)[OF c] computeIDS_entries[OF c] m by blast
  qed
  have 2: "\<not> flag (self s) \<and> np_max (st_p_a s) = Inr m0 \<and> m0 < threshold (self s)
        \<and> sample_round e M VIDS t s = Inr s' \<longrightarrow>
       (\<exists>r. computeIDS e t (self s) (st_Maap s) (st_p_a s) (st_thetas s) M VIDS = Inr r
           \<and> st_Maap s' = res_Maap r \<and> st_p_a s' = res_p_a r \<and> self s' = res_self r
           \<and> arm_sequence s' ! t = res_arm r \<and> \<not> flag (self s'))"
    using sample_round_calls_computeIDS by blast
  have 3: "\<not> flag (self s') \<and> np_max (st_p_a s') = Inr m1 \<and> threshold (self s') \<le> m1
        \<and> sample_round e M VIDS t' s' = Inr s'' \<longrightarrow>
       flag (self s'') \<and> Some (arm_sequence s'' ! t') = optimal_arm (self s')"
    using sample_round_sets_flag by blast
  from 1 2 3 show ?thesis by blast
qed

text \<open>The statement at the first two rounds of the example run of the sampling variant.\<close>

theorem computeIDS_side_effects_witness:
  "(threshold (self exS0) = 99 / 100
    \<and> computeIDS env_one 0 (self exS0) (st_Maap exS0) (st_p_a exS0) (st_thetas exS0) 100 False = Inr exR
    \<and> \<not> flag (self exS0) \<and> np_max (st_p_a exS0) = Inr 0 \<and> 0 < threshold (self exS0)
    \<and> sample_round env_one 100 False 0 exS0 = Inr exS1
    \<and> \<not> flag (self exS1) \<and> np_max (st_p_a exS1) = Inr (99 / 100)
    \<and> threshold (self exS1) \<le> 99 / 100
    \<and> sample_round env_one 100 False 1 exS1 = Inr exS2)
   \<and> ((res_Maap exR, res_p_a exR)
         = computeIDS_loop (nb_arms (self exS0)) 100 (st_thetas exS0) (st_Maap exS0, st_p_a exS0)
    \<and> res_Maap exR ! 1 ! 0 = nan_to_num_mean (draws_where (st_thetas exS0) 1 0)
    \<and> res_p_a exR ! 0 = real (length (draws_where (st_thetas exS0) 0 0)) / real 100
    \<and> flag (res_self exR) = flag (self exS0)
    \<and> res_self exR = (self exS0)\<lparr>optimal_arm := Some (np_argmax (res_p_a exR))\<rparr>
    \<and> res_arm exR = np_argmax (res_p_a exR) \<and> res_ratio exR = None
    \<and> st_Maap exS1 = res_Maap exR \<and> st_p_a exS1 = res_p_a exR \<and> self exS1 = res_self exR
    \<and> arm_sequence exS1 ! 0 = res_arm exR
    \<and> flag (self exS2) \<and> Some (arm_sequence exS2 ! 1) = optimal_arm (self exS1))"
proof (rule conjI)
  have c: "computeIDS env_one 0 (self exS0) (st_Maap exS0) (st_p_a exS0) (st_thetas exS0) 100 False = Inr exR"
    using exS_computeIDS by (simp add: exS0_def exR_def)
  show h: "threshold (self exS0) = 99 / 100
    \<and> computeIDS env_one 0 (self exS0) (st_Maap exS0) (st_p_a exS0) (st_thetas exS0) 100 False = Inr exR
    \<and> \<not> flag (self exS0) \<and> np_max (st_p_a exS0) = Inr 0 \<and> 0 < threshold (self exS0)
    \<and> sample_round env_one 100 False 0 exS0 = Inr exS1
    \<and> \<not> flag (self exS1) \<and> np_max (st_p_a exS1) = Inr (99 / 100)
    \<and> threshold (self exS1) \<le> 99 / 100
    \<and> sample_round env_one 100 False 1 exS1 = Inr exS2"
    using c exS_round0 exS_round1 by (simp add: exS0_def exS1_def np_max_def)
  have i: "(0::nat) < nb_arms (self exS0) \<and> (1::nat) < nb_arms (self exS0)"
    by (simp add: exS0_def)
  have m: "np_max (res_p_a exR) = Inr (99 / 100)" by (simp add: exR_def np_max_def)
  note T = computeIDS_side_effects[where obj = "self exS0" and e = env_one and t = 0
      and Maap = "st_Maap exS0" and p_a = "st_p_a exS0" and thetas = "st_thetas exS0" and M = 100
      and VIDS = False and r = exR and s = exS0 and ?m0.0 = 0 and s' = exS1 and ?m1.0 = "99 / 100"
      and t' = 1 and s'' = exS2]
  have 1: "(res_Maap exR, res_p_a exR)
         = computeIDS_loop (nb_arms (self exS0)) 100 (st_thetas exS0) (st_Maap exS0, st_p_a exS0)
    \<and> res_Maap exR ! 1 ! 0 = nan_to_num_mean (draws_where (st_thetas exS0) 1 0)
    \<and> res_p_a exR ! 0 = real (length (draws_where (st_thetas exS0) 0 0)) / real 100
    \<and> flag (res_self exR) = flag (self exS0)"
    using T h i by blast
  have "\<exists>m. np_max (res_p_a exR) = Inr m
           \<and> (99 / 100 \<le> m \<longrightarrow>
                 res_self exR = (self exS0)\<lparr>optimal_arm := Some (np_argmax (res_p_a exR))\<rparr>
               \<and> res_arm exR = np_argmax (res_p_a exR) \<and> res_ratio exR = None)"
    using T h by blast
  then have 2: "res_self exR = (self exS0)\<lparr>optimal_arm := Some (np_argmax (res_p_a exR))\<rparr>
               \<and> res_arm exR = np_argmax (res_p_a exR) \<and> res_ratio exR = None"
    using m by auto
  have "\<exists>r. computeIDS env_one 0 (self exS0) (st_Maap exS0) (st_p_a exS0) (st_thetas exS0) 100 False = Inr r
           \<and> st_Maap exS1 = res_Maap r \<and> st_p_a exS1 = res_p_a r \<and> self exS1 = res_self r
           \<and> arm_sequence exS1 ! 0 = res_arm r \<and> \<not> flag (self exS1)"
    using T h by blast
  then have 3: "st_Maap exS1 = res_Maap exR \<and> st_p_a exS1 = res_p_a exR \<and> self exS1 = res_self exR
    \<and> arm_sequence exS1 ! 0 = res_arm exR"
    using c by auto
  have 4: "flag (self exS2) \<and> Some (arm_sequence exS2 ! 1) = optimal_arm (self exS1)"
    using T h by blast
  from 1 2 3 4 show "(res_Maap exR, res_p_a exR)
         = computeIDS_loop (nb_arms (self exS0)) 100 (st_thetas exS0) (st_Maap exS0, st_p_a exS0)
    \<and> res_Maap exR ! 1 ! 0 = nan_to_num_mean (draws_where (st_thetas exS0) 1 0)
    \<and> res_p_a exR ! 0 = real (length (draws_where (st_thetas exS0) 0 0)) / real 100
    \<and> flag (res_self exR) = flag (self exS0)
    \<and> res_self exR = (self exS0)\<lparr>optimal_arm := Some (np_argmax (res_p_a exR))\<rparr>
    \<and> res_arm exR = np_argmax (res_p_a exR) \<and> res_ratio exR = None
    \<and> st_Maap exS1 = res_Maap exR \<and> st_p_a exS1 = res_p_a exR \<and> self exS1 = res_self exR
    \<and> arm_sequence exS1 ! 0 = res_arm exR
    \<and> flag (self exS2) \<and> Some (arm_sequence exS2 ! 1) = optimal_arm (self exS1)"
    by blast
qed

end
